(* ===== verification/Beale_Prelude.thy ===== *)
theory Beale_Prelude
  imports Main "HOL-Library.Char_ord" "HOL-Library.List_Lexorder" "HOL-Library.Multiset"
    "HOL-Library.AList"
begin

text \<open>
  Shared vocabulary of the development: the pieces of the JavaScript language and its
  standard library that the modelled files use (string trimming and case folding, stable
  sorting by a comparator, insertion-ordered sets and maps), the result type of functions
  that throw, and the lemmas about them that every component needs.

  Strings are HOL strings.  One \<open>char\<close> stands for one UTF-16 code unit and is read
  as a character of code page 1252, so that the ellipsis the code appends (U+2026) is the single
  character with code 133.  Lengths therefore count what \<open>String.length\<close> counts for
  texts over that repertoire.
\<close>

named_theorems guard_simps \<open>unfolding of the guard and result combinators\<close>
named_theorems keeps_inv \<open>preservation of a component invariant by one operation\<close>

section \<open>Functions that throw\<close>

text \<open>\<open>Inl e\<close> is a thrown error, \<open>Inr x\<close> a normal return.\<close>

type_synonym ('e, 'a) res = "'e + 'a"

definition rbind :: "('e, 'a) res \<Rightarrow> ('a \<Rightarrow> ('e, 'b) res) \<Rightarrow> ('e, 'b) res" where
  "rbind m f = (case m of Inl e \<Rightarrow> Inl e | Inr x \<Rightarrow> f x)"

definition ensure :: "bool \<Rightarrow> 'e \<Rightarrow> ('e, 'a) res \<Rightarrow> ('e, 'a) res" where
  "ensure b e k = (if b then k else Inl e)"

definition need :: "'a option \<Rightarrow> 'e \<Rightarrow> ('e, 'a) res" where
  "need v e = (case v of None \<Rightarrow> Inl e | Some x \<Rightarrow> Inr x)"

lemma need_Inr_iff [guard_simps]: "need v e = Inr x \<longleftrightarrow> v = Some x"
  by (simp add: need_def split: option.splits)

lemma need_simps [simp]: "need (Some x) e = Inr x" "need None e = Inl e"
  by (simp_all add: need_def)

lemma rbind_simps [simp]:
  "rbind (Inl e) f = Inl e" "rbind (Inr x) f = f x"
  by (simp_all add: rbind_def)

lemma rbind_Inr_iff [guard_simps]: "rbind m f = Inr y \<longleftrightarrow> (\<exists>x. m = Inr x \<and> f x = Inr y)"
  by (simp add: rbind_def split: sum.splits)

lemma ensure_Inr_iff [guard_simps]: "ensure b e k = Inr y \<longleftrightarrow> b \<and> k = Inr y"
  by (simp add: ensure_def)

lemma ensure_simps [simp]: "ensure True e k = k" "ensure False e k = Inl e"
  by (simp_all add: ensure_def)

text \<open>Guards of functions that return \<open>undefined\<close>.\<close>

definition oguard :: "bool \<Rightarrow> 'a option \<Rightarrow> 'a option" where
  "oguard b k = (if b then k else None)"

lemma oguard_Some_iff [guard_simps]: "oguard b k = Some y \<longleftrightarrow> b \<and> k = Some y"
  by (simp add: oguard_def)

lemma oguard_simps [simp]: "oguard True k = k" "oguard False k = None"
  by (simp_all add: oguard_def)

declare Option.bind_eq_Some_conv [guard_simps]

fun omap :: "('a \<Rightarrow> 'b option) \<Rightarrow> 'a list \<Rightarrow> 'b list option" where
  "omap f [] = Some []"
| "omap f (x # xs) = Option.bind (f x) (\<lambda>y. Option.bind (omap f xs) (\<lambda>ys. Some (y # ys)))"

lemma omap_map_Some: "(\<And>x. x \<in> set xs \<Longrightarrow> f (g x) = Some x) \<Longrightarrow> omap f (map g xs) = Some xs"
  by (induction xs) auto

text \<open>\<open>xs.map(f)\<close> for an \<open>f\<close> that may throw: the first error wins.\<close>

fun rmap :: "('a \<Rightarrow> ('e, 'b) res) \<Rightarrow> 'a list \<Rightarrow> ('e, 'b list) res" where
  "rmap f [] = Inr []"
| "rmap f (x # xs) = rbind (f x) (\<lambda>y. rbind (rmap f xs) (\<lambda>ys. Inr (y # ys)))"

lemma rmap_Inr_all2: "rmap f xs = Inr ys \<longleftrightarrow> list_all2 (\<lambda>x y. f x = Inr y) xs ys"
  by (induction xs arbitrary: ys) (auto simp: rbind_Inr_iff list_all2_Cons1)

lemma rmap_Inr_member: "rmap f xs = Inr ys \<Longrightarrow> y \<in> set ys \<Longrightarrow> \<exists>x\<in>set xs. f x = Inr y"
  by (induction xs arbitrary: ys) (auto simp: rbind_Inr_iff)

lemma rmap_cong_id: "(\<And>x. x \<in> set xs \<Longrightarrow> f (g x) = Inr x) \<Longrightarrow> rmap f (map g xs) = Inr xs"
  by (induction xs) auto

section \<open>Strings\<close>

text \<open>The white space that \<open>String.prototype.trim\<close> and \<open>\\s\<close> recognise.\<close>

definition is_ws :: "char \<Rightarrow> bool" where
  "is_ws c \<longleftrightarrow> (of_char c :: nat) \<in> {9, 10, 11, 12, 13, 32, 160}"

definition space :: char where
  "space = CHR '' ''"

definition ellipsis :: char where
  "ellipsis = CHR 0x85"

definition trim_start :: "string \<Rightarrow> string" where
  "trim_start s = dropWhile is_ws s"

definition trim_end :: "string \<Rightarrow> string" where
  "trim_end s = rev (dropWhile is_ws (rev s))"

definition js_trim :: "string \<Rightarrow> string" where
  "js_trim s = trim_end (trim_start s)"

text \<open>\<open>replace(/\\s+/g, " ")\<close>; the flag says that the previous character was white space.\<close>

fun collapse_from :: "bool \<Rightarrow> string \<Rightarrow> string" where
  "collapse_from b [] = []"
| "collapse_from b (c # cs) =
     (if is_ws c then (if b then collapse_from True cs else space # collapse_from True cs)
      else c # collapse_from False cs)"

definition collapse_ws :: "string \<Rightarrow> string" where
  "collapse_ws s = collapse_from False s"

text \<open>\<open>toLowerCase\<close> on code page 1252.\<close>

definition lower_char :: "char \<Rightarrow> char" where
  "lower_char c = (let n = (of_char c :: nat) in
     if 65 \<le> n \<and> n \<le> 90 \<or> 192 \<le> n \<and> n \<le> 222 \<and> n \<noteq> 215 then char_of (n + 32)
     else if n = 138 \<or> n = 140 \<or> n = 142 then char_of (n + 16)
     else if n = 159 then char_of (255 :: nat) else c)"

definition js_lower :: "string \<Rightarrow> string" where
  "js_lower s = map lower_char s"

fun starts_with :: "string \<Rightarrow> string \<Rightarrow> bool" where
  "starts_with s [] = True"
| "starts_with [] (p # ps) = False"
| "starts_with (c # cs) (p # ps) = (c = p \<and> starts_with cs ps)"

definition ends_with :: "string \<Rightarrow> string \<Rightarrow> bool" where
  "ends_with s p = starts_with (rev s) (rev p)"

definition js_join :: "string \<Rightarrow> string list \<Rightarrow> string" where
  "js_join sep xs = (case xs of [] \<Rightarrow> [] | y # ys \<Rightarrow> y @ concat (map (\<lambda>z. sep @ z) ys))"

lemma is_ws_space [simp]: "is_ws space"
  by (simp add: is_ws_def space_def)

lemma not_is_ws_ellipsis [simp]: "\<not> is_ws ellipsis"
  by (simp add: is_ws_def ellipsis_def)

lemma trim_Nil [simp]: "trim_start [] = []" "trim_end [] = []" "js_trim [] = []"
  by (simp_all add: trim_start_def trim_end_def js_trim_def)

lemma trim_end_snoc:
  "trim_end (xs @ [x]) = (if is_ws x then trim_end xs else xs @ [x])"
  by (simp add: trim_end_def)

lemma length_trim_start: "length (trim_start s) \<le> length s"
  by (simp add: trim_start_def length_dropWhile_le)

lemma length_trim_end: "length (trim_end s) \<le> length s"
  unfolding trim_end_def using length_dropWhile_le [of is_ws "rev s"] by simp

lemma length_js_trim: "length (js_trim s) \<le> length s"
  unfolding js_trim_def using length_trim_end length_trim_start le_trans by blast

lemma trim_end_id_iff: "trim_end s = s \<longleftrightarrow> s = [] \<or> \<not> is_ws (last s)"
proof (cases s rule: rev_cases)
  case Nil
  then show ?thesis by simp
next
  case (snoc ys y)
  have "trim_end ys \<noteq> ys @ [y]"
    using length_trim_end [of ys] by (metis Suc_n_not_le_n length_append_singleton)
  then show ?thesis using snoc by (simp add: trim_end_snoc)
qed

lemma trim_start_id_iff: "trim_start s = s \<longleftrightarrow> s = [] \<or> \<not> is_ws (hd s)"
proof (cases s)
  case (Cons c cs)
  have "dropWhile is_ws cs \<noteq> c # cs"
    using length_dropWhile_le [of is_ws cs] by (metis Suc_n_not_le_n length_Cons)
  then show ?thesis using Cons by (simp add: trim_start_def)
qed simp

lemma last_trim_end: "trim_end s \<noteq> [] \<Longrightarrow> \<not> is_ws (last (trim_end s))"
  by (induction s rule: rev_induct) (auto simp: trim_end_snoc)

lemma hd_trim_start: "trim_start s \<noteq> [] \<Longrightarrow> \<not> is_ws (hd (trim_start s))"
  by (simp add: trim_start_def hd_dropWhile)

lemma hd_trim_end: "trim_end s \<noteq> [] \<Longrightarrow> hd (trim_end s) = hd s"
  by (induction s rule: rev_induct) (auto simp: trim_end_snoc hd_append split: if_splits)

lemma trim_end_prefix: "\<exists>t. s = trim_end s @ t \<and> (\<forall>c\<in>set t. is_ws c)"
proof (induction s rule: rev_induct)
  case (snoc x xs)
  then obtain t where "xs = trim_end xs @ t" "\<forall>c\<in>set t. is_ws c" by blast
  then show ?case
    by (cases "is_ws x") (auto simp: trim_end_snoc intro!: exI [of _ "t @ [x]"])
qed simp

lemma js_trim_ends:
  "js_trim s \<noteq> [] \<Longrightarrow> \<not> is_ws (hd (js_trim s))"
  "js_trim s \<noteq> [] \<Longrightarrow> \<not> is_ws (last (js_trim s))"
proof -
  assume ne: "js_trim s \<noteq> []"
  then have ne': "trim_start s \<noteq> []"
    by (auto simp: js_trim_def)
  show "\<not> is_ws (hd (js_trim s))"
    using ne hd_trim_start [OF ne'] hd_trim_end [of "trim_start s"] by (simp add: js_trim_def)
  show "\<not> is_ws (last (js_trim s))"
    using ne last_trim_end by (simp add: js_trim_def)
qed

lemma js_trim_id: "s = [] \<or> \<not> is_ws (hd s) \<and> \<not> is_ws (last s) \<Longrightarrow> js_trim s = s"
  using trim_start_id_iff [of s] trim_end_id_iff [of s] by (auto simp: js_trim_def)

lemma js_trim_idem [simp]: "js_trim (js_trim s) = js_trim s"
  using js_trim_ends [of s] js_trim_id by blast


text \<open>\<open>compactText(value, maxChars)\<close>: collapse, trim, and cut with an ellipsis.\<close>

definition compact_text :: "string \<Rightarrow> nat \<Rightarrow> string" where
  "compact_text v n = (let c = js_trim (collapse_ws v) in
     if length c \<le> n then c else trim_end (take (n - 1) c) @ [ellipsis])"

text \<open>No two adjacent white-space characters, and every one of them is a plain space.\<close>

fun single_spaced :: "string \<Rightarrow> bool" where
  "single_spaced [] = True"
| "single_spaced [c] = (is_ws c \<longrightarrow> c = space)"
| "single_spaced (c # d # cs) =
     ((is_ws c \<longrightarrow> c = space \<and> \<not> is_ws d) \<and> single_spaced (d # cs))"

lemma single_spaced_Cons:
  "single_spaced (c # cs) \<longleftrightarrow>
     (is_ws c \<longrightarrow> c = space \<and> (cs = [] \<or> \<not> is_ws (hd cs))) \<and> single_spaced cs"
  by (cases cs) auto

lemma single_spaced_collapse:
  "single_spaced (collapse_from b s) \<and>
   (b \<longrightarrow> collapse_from b s = [] \<or> \<not> is_ws (hd (collapse_from b s)))"
proof (induction s arbitrary: b)
  case (Cons c cs)
  show ?case
    using Cons [of True] Cons [of False] by (cases "is_ws c") (auto simp: single_spaced_Cons)
qed simp

lemma collapse_single_spaced:
  "single_spaced s \<Longrightarrow> (b \<longrightarrow> s = [] \<or> \<not> is_ws (hd s)) \<Longrightarrow> collapse_from b s = s"
proof (induction s arbitrary: b)
  case (Cons c cs)
  then show ?case by (cases "is_ws c") (auto simp: single_spaced_Cons)
qed simp

lemma single_spaced_append:
  "single_spaced (xs @ ys) \<Longrightarrow> single_spaced xs \<and> single_spaced ys"
  by (induction xs) (auto simp: single_spaced_Cons)

lemma single_spaced_dropWhile: "single_spaced s \<Longrightarrow> single_spaced (dropWhile P s)"
  by (metis single_spaced_append takeWhile_dropWhile_id)

lemma single_spaced_trim_end: "single_spaced s \<Longrightarrow> single_spaced (trim_end s)"
  by (metis single_spaced_append trim_end_prefix)

lemma single_spaced_take: "single_spaced s \<Longrightarrow> single_spaced (take n s)"
  by (metis single_spaced_append append_take_drop_id)

lemma single_spaced_snoc:
  "single_spaced s \<Longrightarrow> s = [] \<or> \<not> is_ws (last s) \<Longrightarrow> \<not> is_ws c \<Longrightarrow> single_spaced (s @ [c])"
proof (induction s)
  case (Cons d s)
  then show ?case by (cases s) (auto simp: single_spaced_Cons)
qed simp

lemma single_spaced_js_trim: "single_spaced s \<Longrightarrow> single_spaced (js_trim s)"
  by (simp add: js_trim_def trim_start_def single_spaced_trim_end single_spaced_dropWhile)

text \<open>What normalised text looks like, and that normalising it again changes nothing.\<close>

definition normal_text :: "string \<Rightarrow> bool" where
  "normal_text s \<longleftrightarrow> single_spaced s \<and> (s = [] \<or> \<not> is_ws (hd s) \<and> \<not> is_ws (last s))"

lemma normal_text_collapse_trim: "normal_text (js_trim (collapse_ws s))"
  using single_spaced_collapse [of False s] single_spaced_js_trim js_trim_ends
  unfolding normal_text_def collapse_ws_def by blast

lemma collapse_trim_normal: "normal_text s \<Longrightarrow> js_trim (collapse_ws s) = s"
  unfolding normal_text_def collapse_ws_def
  by (auto simp: collapse_single_spaced intro!: js_trim_id)

lemma length_compact_text: "0 < n \<Longrightarrow> length (compact_text s n) \<le> n"
proof -
  assume "0 < n"
  have "length (trim_end (take (n - 1) c)) \<le> n - 1" for c
    using length_trim_end [of "take (n - 1) c"] by simp
  then show ?thesis using \<open>0 < n\<close>
    by (auto simp: compact_text_def Let_def Suc_le_eq) (metis Suc_pred le_imp_less_Suc)
qed

lemma normal_text_compact_text:
  assumes "1 < n" shows "normal_text (compact_text s n)"
proof -
  define c where "c = js_trim (collapse_ws s)"
  have c: "normal_text c"
    by (simp add: c_def normal_text_collapse_trim)
  define t where "t = trim_end (take (n - 1) c)"
  have "single_spaced (t @ [ellipsis])"
    using c last_trim_end [of "take (n - 1) c"] unfolding t_def normal_text_def
    by (intro single_spaced_snoc) (auto intro: single_spaced_trim_end single_spaced_take)
  moreover have "t \<noteq> [] \<Longrightarrow> \<not> is_ws (hd t)"
    using c assms hd_trim_end [of "take (n - 1) c"]
    by (cases c) (auto simp: t_def normal_text_def take_Cons')
  ultimately have "normal_text (t @ [ellipsis])"
    by (cases t) (auto simp: normal_text_def)
  then show ?thesis
    using c by (simp add: compact_text_def Let_def t_def c_def)
qed

lemma compact_text_id: "normal_text s \<Longrightarrow> length s \<le> n \<Longrightarrow> compact_text s n = s"
  by (simp add: compact_text_def collapse_trim_normal)

lemma compact_text_idem: "1 < n \<Longrightarrow> compact_text (compact_text s n) n = compact_text s n"
  by (intro compact_text_id normal_text_compact_text length_compact_text) auto


section \<open>Stable sorting by a comparator\<close>

text \<open>
  \<open>xs.sort(cmp)\<close> is stable; insertion from the right, before the elements that
  compare equal, is the stable sort.
\<close>

fun js_insert :: "('a \<Rightarrow> 'a \<Rightarrow> int) \<Rightarrow> 'a \<Rightarrow> 'a list \<Rightarrow> 'a list" where
  "js_insert cmp x [] = [x]"
| "js_insert cmp x (y # ys) = (if cmp x y \<le> 0 then x # y # ys else y # js_insert cmp x ys)"

fun js_sort :: "('a \<Rightarrow> 'a \<Rightarrow> int) \<Rightarrow> 'a list \<Rightarrow> 'a list" where
  "js_sort cmp [] = []"
| "js_sort cmp (x # xs) = js_insert cmp x (js_sort cmp xs)"

lemma mset_js_insert [simp]: "mset (js_insert cmp x xs) = add_mset x (mset xs)"
  by (induction xs) auto

lemma mset_js_sort [simp]: "mset (js_sort cmp xs) = mset xs"
  by (induction xs) auto

lemma set_js_insert [simp]: "set (js_insert cmp x xs) = insert x (set xs)"
  by (induction xs) auto

lemma set_js_sort [simp]: "set (js_sort cmp xs) = set xs"
  by (induction xs) auto

lemma length_js_sort [simp]: "length (js_sort cmp xs) = length xs"
  using mset_js_sort [of cmp xs] by (metis size_mset)

lemma js_sort_Nil_iff [simp]: "js_sort cmp xs = [] \<longleftrightarrow> xs = []"
  by (metis length_0_conv length_js_sort)

lemma distinct_js_sort [simp]: "distinct (js_sort cmp xs) = distinct xs"
  by (metis mset_js_sort mset_eq_imp_distinct_iff)

text \<open>\<open>a || b\<close> on comparison results, comparison of a projection, of numbers, of strings.\<close>

definition cmp_then :: "('a \<Rightarrow> 'a \<Rightarrow> int) \<Rightarrow> ('a \<Rightarrow> 'a \<Rightarrow> int) \<Rightarrow> 'a \<Rightarrow> 'a \<Rightarrow> int" where
  "cmp_then c d x y = (if c x y \<noteq> 0 then c x y else d x y)"

definition cmp_on :: "('a \<Rightarrow> 'b) \<Rightarrow> ('b \<Rightarrow> 'b \<Rightarrow> int) \<Rightarrow> 'a \<Rightarrow> 'a \<Rightarrow> int" where
  "cmp_on f c x y = c (f x) (f y)"

definition cmp_int :: "int \<Rightarrow> int \<Rightarrow> int" where
  "cmp_int x y = x - y"

definition cmp_units :: "string \<Rightarrow> string \<Rightarrow> int" where
  "cmp_units x y = (if x < y then -1 else if x = y then 0 else 1)"

text \<open>
  The contract of a comparison function: the sort is only meaningful for a consistent one.
  \<open>localeCompare\<close> depends on the collation tables of the host and stays a parameter of
  the definitions that use it; its documented consistency is this contract.
\<close>

locale comparator =
  fixes cmp :: "'a \<Rightarrow> 'a \<Rightarrow> int"
  assumes cmp_flip: "sgn (cmp y x) = - sgn (cmp x y)"
    and cmp_trans: "cmp x y \<le> 0 \<Longrightarrow> cmp y z \<le> 0 \<Longrightarrow> cmp x z \<le> 0"
begin

lemma cmp_refl: "cmp x x = 0"
  using cmp_flip [of x x] by (simp add: sgn_if split: if_splits)

lemma cmp_total: "\<not> cmp x y \<le> 0 \<Longrightarrow> cmp y x \<le> 0"
  using cmp_flip [of x y] by (simp add: sgn_if split: if_splits)

lemma cmp_eq_iff: "cmp x y = 0 \<longleftrightarrow> cmp x y \<le> 0 \<and> cmp y x \<le> 0"
  using cmp_flip [of x y] by (auto simp: sgn_if split: if_splits)

lemma sorted_js_insert:
  "sorted_wrt (\<lambda>x y. cmp x y \<le> 0) xs \<Longrightarrow> sorted_wrt (\<lambda>x y. cmp x y \<le> 0) (js_insert cmp x xs)"
  by (induction xs) (auto intro: cmp_trans cmp_total)

lemma sorted_js_sort: "sorted_wrt (\<lambda>x y. cmp x y \<le> 0) (js_sort cmp xs)"
  by (induction xs) (auto intro: sorted_js_insert)

lemma hd_js_sort_le: "y \<in> set xs \<Longrightarrow> cmp (hd (js_sort cmp xs)) y \<le> 0"
proof -
  assume y: "y \<in> set xs"
  obtain z zs where z: "js_sort cmp xs = z # zs"
    using y by (metis js_sort_Nil_iff list.exhaust list.set_cases)
  then have "y \<in> set (z # zs)"
    using y set_js_sort [of cmp xs] by simp
  with sorted_js_sort [of xs] z show ?thesis
    by (auto simp: cmp_refl)
qed

text \<open>Elements that compare equal keep their order.\<close>

lemma filter_js_insert:
  "filter (\<lambda>z. cmp z k = 0) (js_insert cmp x xs) =
     (if cmp x k = 0 then x # filter (\<lambda>z. cmp z k = 0) xs else filter (\<lambda>z. cmp z k = 0) xs)"
proof (induction xs)
  case (Cons y ys)
  have "cmp x y \<le> 0" if "cmp x k = 0" "cmp y k = 0"
    using that cmp_trans [of x k y] cmp_eq_iff [of y k] by auto
  with Cons show ?case by auto
qed simp

lemma js_sort_stable: "filter (\<lambda>z. cmp z k = 0) (js_sort cmp xs) = filter (\<lambda>z. cmp z k = 0) xs"
  by (induction xs) (auto simp: filter_js_insert)

end

lemma comparator_cmp_int: "comparator cmp_int"
  by unfold_locales (auto simp: cmp_int_def sgn_if)

lemma comparator_cmp_units: "comparator cmp_units"
  by unfold_locales (auto simp: cmp_units_def sgn_if split: if_splits)

lemma comparator_cmp_on: "comparator c \<Longrightarrow> comparator (cmp_on f c)"
  unfolding comparator_def cmp_on_def by blast

lemma comparator_flip: "comparator c \<Longrightarrow> comparator (\<lambda>x y. c y x)"
  unfolding comparator_def by (metis minus_minus sgn_0_0 comparator.cmp_total comparator_def)

lemma comparator_cmp_then:
  assumes "comparator c" "comparator d" shows "comparator (cmp_then c d)"
proof
  note cf = comparator.cmp_flip [OF assms(1)] and ct = comparator.cmp_trans [OF assms(1)]
    and ce = comparator.cmp_eq_iff [OF assms(1)]
  note df = comparator.cmp_flip [OF assms(2)] and dt = comparator.cmp_trans [OF assms(2)]
  fix x y z
  show "sgn (cmp_then c d y x) = - sgn (cmp_then c d x y)"
    using cf [of y x] df [of y x] by (auto simp: cmp_then_def sgn_if split: if_splits)
  assume "cmp_then c d x y \<le> 0" "cmp_then c d y z \<le> 0"
  then show "cmp_then c d x z \<le> 0"
    using ct [of x y z] dt [of x y z] ct [of y z x] ct [of z x y] ce [of x y] ce [of y z] ce [of x z]
    by (auto simp: cmp_then_def split: if_splits)
qed

lemmas comparator_intros = comparator_cmp_then comparator_cmp_on comparator_cmp_int
  comparator_cmp_units

interpretation units: comparator cmp_units
  by (rule comparator_cmp_units)

interpretation ints: comparator cmp_int
  by (rule comparator_cmp_int)

section \<open>Insertion-ordered sets and maps\<close>

text \<open>\<open>[...new Set(xs)]\<close> keeps the first occurrence of every value.\<close>

definition js_dedup :: "'a list \<Rightarrow> 'a list" where
  "js_dedup xs = rev (remdups (rev xs))"

lemma set_js_dedup [simp]: "set (js_dedup xs) = set xs"
  by (simp add: js_dedup_def)

lemma distinct_js_dedup [simp]: "distinct (js_dedup xs)"
  by (simp add: js_dedup_def)

lemma js_dedup_distinct: "distinct xs \<Longrightarrow> js_dedup xs = xs"
  by (simp add: js_dedup_def distinct_remdups_id)

lemma length_js_dedup: "length (js_dedup xs) \<le> length xs"
  unfolding js_dedup_def by (metis length_remdups_leq length_rev)

text \<open>
  A JavaScript \<open>Map\<close> is an association list: \<open>AList.update\<close> overwrites in place or
  appends, as \<open>Map.set\<close> does, and \<open>map_of\<close> is \<open>Map.get\<close>.
\<close>

definition js_map_of :: "('a \<times> 'b) list \<Rightarrow> ('a \<times> 'b) list" where
  "js_map_of kvs = foldl (\<lambda>m (k, v). AList.update k v m) [] kvs"

lemma map_of_update: "map_of (AList.update k v m) = (map_of m)(k \<mapsto> v)"
  by (simp add: update_conv')

end
