(* ===== verification/Json_Value.thy ===== *)
theory Json_Value
  imports Beale_Prelude
begin

text \<open>
  JSON values as the code inspects them (\<open>unknown\<close> values parsed from model output or from
  storage), property access with \<open>undefined\<close> as \<open>None\<close>, \<open>JSON.stringify\<close>
  without indentation, and the calendar arithmetic behind
  \<open>new Date(value).toISOString() === value\<close>.

  A number is an integer, or a non-integral double given by its decimal text.
\<close>

section \<open>Values\<close>

datatype json =
    JNull
  | JBool bool
  | JInt int
  | JReal string
  | JStr string
  | JArr "json list"
  | JObj "(string \<times> json) list"

fun is_record :: "json \<Rightarrow> bool" where
  "is_record (JObj _) = True"
| "is_record _ = False"

text \<open>\<open>value.key\<close> on an object.\<close>

fun jget :: "json \<Rightarrow> string \<Rightarrow> json option" where
  "jget (JObj kvs) k = map_of kvs k"
| "jget _ k = None"

fun as_string :: "json option \<Rightarrow> string option" where
  "as_string (Some (JStr s)) = Some s"
| "as_string _ = None"

fun as_bool :: "json option \<Rightarrow> bool option" where
  "as_bool (Some (JBool b)) = Some b"
| "as_bool _ = None"

fun as_array :: "json option \<Rightarrow> json list option" where
  "as_array (Some (JArr xs)) = Some xs"
| "as_array _ = None"

text \<open>\<open>Number.isSafeInteger(value) && value >= 0\<close>\<close>

fun safe_nat :: "json option \<Rightarrow> nat option" where
  "safe_nat (Some (JInt i)) = (if 0 \<le> i \<and> i \<le> 9007199254740991 then Some (nat i) else None)"
| "safe_nat _ = None"

lemma as_string_iff [simp]: "as_string v = Some s \<longleftrightarrow> v = Some (JStr s)"
  by (cases v rule: as_string.cases) auto

lemma as_bool_iff [simp]: "as_bool v = Some b \<longleftrightarrow> v = Some (JBool b)"
  by (cases v rule: as_bool.cases) auto

lemma as_array_iff [simp]: "as_array v = Some xs \<longleftrightarrow> v = Some (JArr xs)"
  by (cases v rule: as_array.cases) auto

lemma safe_nat_of_nat: "n \<le> 9007199254740991 \<Longrightarrow> safe_nat (Some (JInt (int n))) = Some n"
  by simp

lemma safe_nat_Some: "safe_nat v = Some n \<Longrightarrow> v = Some (JInt (int n)) \<and> n \<le> 9007199254740991"
  by (cases v rule: safe_nat.cases) (auto split: if_splits)

section \<open>Printing\<close>

definition digit_char :: "nat \<Rightarrow> char" where
  "digit_char d = char_of (48 + d)"

fun nat_str :: "nat \<Rightarrow> string" where
  "nat_str n = (if n < 10 then [digit_char n] else nat_str (n div 10) @ [digit_char (n mod 10)])"

declare nat_str.simps [simp del]

definition int_str :: "int \<Rightarrow> string" where
  "int_str i = (if i < 0 then CHR ''-'' # nat_str (nat (- i)) else nat_str (nat i))"

definition hex_char :: "nat \<Rightarrow> char" where
  "hex_char d = (if d < 10 then char_of (48 + d) else char_of (87 + d))"

definition escape_char :: "char \<Rightarrow> string" where
  "escape_char c = (let n = (of_char c :: nat) in
     if n = 34 then [CHR 0x5C, CHR 0x22] else if n = 92 then [CHR 0x5C, CHR 0x5C]
     else if n = 8 then [CHR 0x5C, CHR ''b''] else if n = 9 then [CHR 0x5C, CHR ''t'']
     else if n = 10 then [CHR 0x5C, CHR ''n''] else if n = 12 then [CHR 0x5C, CHR ''f'']
     else if n = 13 then [CHR 0x5C, CHR ''r'']
     else if n < 32 then [CHR 0x5C, CHR ''u'', CHR ''0'', CHR ''0'', hex_char (n div 16), hex_char (n mod 16)]
     else [c])"

definition quote :: "string \<Rightarrow> string" where
  "quote s = [CHR 0x22] @ concat (map escape_char s) @ [CHR 0x22]"

fun stringify :: "json \<Rightarrow> string" where
  "stringify JNull = ''null''"
| "stringify (JBool b) = (if b then ''true'' else ''false'')"
| "stringify (JInt i) = int_str i"
| "stringify (JReal t) = t"
| "stringify (JStr s) = quote s"
| "stringify (JArr xs) = ''['' @ js_join '','' (map stringify xs) @ '']''"
| "stringify (JObj kvs) =
     ''{'' @ js_join '','' (map (\<lambda>(k, v). quote k @ '':'' @ stringify v) kvs) @ ''}''"

section \<open>Time stamps\<close>

definition digit_val :: "char \<Rightarrow> nat option" where
  "digit_val c = (let n = (of_char c :: nat) in if 48 \<le> n \<and> n \<le> 57 then Some (n - 48) else None)"

fun digits_from :: "nat \<Rightarrow> string \<Rightarrow> nat option" where
  "digits_from acc [] = Some acc"
| "digits_from acc (c # cs) =
     (case digit_val c of None \<Rightarrow> None | Some d \<Rightarrow> digits_from (10 * acc + d) cs)"

definition leap_year :: "int \<Rightarrow> bool" where
  "leap_year y \<longleftrightarrow> y mod 4 = 0 \<and> (y mod 100 \<noteq> 0 \<or> y mod 400 = 0)"

definition days_in_month :: "int \<Rightarrow> int \<Rightarrow> int" where
  "days_in_month y m = (if m = 2 then (if leap_year y then 29 else 28)
     else if m = 4 \<or> m = 6 \<or> m = 9 \<or> m = 11 then 30 else 31)"

text \<open>Days since 1 January 1970 in the proleptic Gregorian calendar.\<close>

definition days_from_civil :: "int \<Rightarrow> int \<Rightarrow> int \<Rightarrow> int" where
  "days_from_civil y m d =
     (let y' = (if m \<le> 2 then y - 1 else y);
          yoe = y' mod 400;
          doy = (153 * (m + (if m > 2 then - 3 else 9)) + 2) div 5 + d - 1;
          doe = yoe * 365 + yoe div 4 - yoe div 100 + doy
      in (y' div 400) * 146097 + doe - 719468)"

text \<open>The part \<open>-MM-DDTHH:mm:ss.sssZ\<close> after the year; the result counts milliseconds.\<close>

fun iso_rest :: "int \<Rightarrow> string \<Rightarrow> int option" where
  "iso_rest y [s1, m1, m2, s2, d1, d2, t, h1, h2, c1, n1, n2, c2, e1, e2, p, f1, f2, f3, z] =
     (if [s1, s2, t, c1, c2, p, z] = ''--T::.Z'' then
        (case (digits_from 0 [m1, m2], digits_from 0 [d1, d2], digits_from 0 [h1, h2],
               digits_from 0 [n1, n2], digits_from 0 [e1, e2], digits_from 0 [f1, f2, f3]) of
           (Some mo, Some d, Some h, Some mi, Some se, Some ms) \<Rightarrow>
             (if 1 \<le> mo \<and> mo \<le> 12 \<and> 1 \<le> d \<and> int d \<le> days_in_month y (int mo)
                 \<and> h \<le> 23 \<and> mi \<le> 59 \<and> se \<le> 59
              then (let v = (((days_from_civil y (int mo) (int d) * 24 + int h) * 60 + int mi) * 60
                              + int se) * 1000 + int ms
                    in if \<bar>v\<bar> \<le> 8640000000000000 then Some v else None)
              else None)
         | _ \<Rightarrow> None)
      else None)"
| "iso_rest y _ = None"

text \<open>
  The instant a canonical ISO string denotes: four-digit years 0000 to 9999, and signed
  six-digit years outside that range.  \<open>None\<close> is a string that
  \<open>toISOString\<close> never returns.
\<close>

definition iso_parse :: "string \<Rightarrow> int option" where
  "iso_parse s =
     (if length s = 24 then
        (case digits_from 0 (take 4 s) of None \<Rightarrow> None | Some y \<Rightarrow> iso_rest (int y) (drop 4 s))
      else if length s = 27 then
        (case digits_from 0 (take 6 (tl s)) of None \<Rightarrow> None
         | Some y \<Rightarrow>
             if hd s = CHR ''+'' \<and> y > 9999 then iso_rest (int y) (drop 7 s)
             else if hd s = CHR ''-'' \<and> y > 0 then iso_rest (- int y) (drop 7 s)
             else None)
      else None)"

definition iso_valid :: "string \<Rightarrow> bool" where
  "iso_valid s \<longleftrightarrow> iso_parse s \<noteq> None"

text \<open>\<open>Date.parse(updatedAt) < Date.parse(createdAt)\<close> on two valid stamps.\<close>

definition iso_before :: "string \<Rightarrow> string \<Rightarrow> bool" where
  "iso_before s t = (case (iso_parse s, iso_parse t) of (Some a, Some b) \<Rightarrow> a < b | _ \<Rightarrow> False)"

lemma iso_before_irrefl [simp]: "\<not> iso_before s s"
  by (simp add: iso_before_def split: option.splits)

lemma iso_valid_nonempty: "iso_valid s \<Longrightarrow> s \<noteq> []"
  by (auto simp: iso_valid_def iso_parse_def)

definition epoch_iso :: string where
  "epoch_iso = ''1970-01-01T00:00:00.000Z''"

lemma iso_parse_epoch: "iso_parse epoch_iso = Some 0"
  by code_simp

lemma iso_parse_example: "iso_parse ''2024-02-29T12:00:00.500Z'' = Some 1709208000500"
  by code_simp

lemma iso_parse_no_leap_day: "iso_parse ''2023-02-29T12:00:00.500Z'' = None"
  by code_simp

end
