(* ===== verification/Disposition.thy ===== *)
theory Disposition
  imports Json_Value
begin

text \<open>
  \<open>packages/research-agent/src/session-disposition-tool.ts\<close>: the structured final
  disposition that the root agent records once per response, its two input formats, the recorder
  and the tool around it.  \<open>wf_disposition\<close> is the type invariant that everything the
  recorder hands out satisfies; \<open>disposition_source\<close> is the contract the goal runtime
  relies on.
\<close>

section \<open>Data\<close>

datatype outcome =
    Objective_achieved
  | Objective_partially_achieved
  | Outcome_blocked
  | Inconclusive
  | Outcome_failed
  | Outcome_stopped

definition outcome_name :: "outcome \<Rightarrow> string" where
  "outcome_name oc = (case oc of
     Objective_achieved \<Rightarrow> ''objective_achieved''
   | Objective_partially_achieved \<Rightarrow> ''objective_partially_achieved''
   | Outcome_blocked \<Rightarrow> ''blocked''
   | Inconclusive \<Rightarrow> ''inconclusive''
   | Outcome_failed \<Rightarrow> ''failed''
   | Outcome_stopped \<Rightarrow> ''stopped'')"

definition outcomes :: "outcome list" where
  "outcomes = [Objective_achieved, Objective_partially_achieved, Outcome_blocked, Inconclusive,
               Outcome_failed, Outcome_stopped]"

definition outcome_of_name :: "string \<Rightarrow> outcome option" where
  "outcome_of_name s = find (\<lambda>oc. outcome_name oc = s) outcomes"

datatype dependency_kind =
    User_input | Credentials | Authorization | Source_material | Environment
  | Network_access | External_service | Target_state | Other_dependency

definition kind_name :: "dependency_kind \<Rightarrow> string" where
  "kind_name k = (case k of
     User_input \<Rightarrow> ''user_input''
   | Credentials \<Rightarrow> ''credentials''
   | Authorization \<Rightarrow> ''authorization''
   | Source_material \<Rightarrow> ''source_material''
   | Environment \<Rightarrow> ''environment''
   | Network_access \<Rightarrow> ''network_access''
   | External_service \<Rightarrow> ''external_service''
   | Target_state \<Rightarrow> ''target_state''
   | Other_dependency \<Rightarrow> ''other'')"

definition dependency_kinds :: "dependency_kind list" where
  "dependency_kinds = [User_input, Credentials, Authorization, Source_material, Environment,
     Network_access, External_service, Target_state, Other_dependency]"

definition kind_of_name :: "string \<Rightarrow> dependency_kind option" where
  "kind_of_name s = find (\<lambda>k. kind_name k = s) dependency_kinds"

record dependency =
  dep_kind :: dependency_kind
  dep_description :: string
  dep_requiredState :: string
  dep_external :: bool

record suggestion =
  sug_title :: string
  sug_promptMarkdown :: string
  sug_rationale :: "string option"

record disposition =
  d_outcome :: outcome
  d_summary :: string
  d_blockerDependencies :: "dependency list"
  d_externalStateRequired :: bool
  d_nextPromptSuggestions :: "suggestion list option"
  d_recordedAt :: string

lemma outcome_of_name_name [simp]: "outcome_of_name (outcome_name oc) = Some oc"
  by (cases oc) (simp_all add: outcome_of_name_def outcomes_def outcome_name_def)

lemma kind_of_name_name [simp]: "kind_of_name (kind_name k) = Some k"
  by (cases k) (simp_all add: kind_of_name_def dependency_kinds_def kind_name_def)

section \<open>Parsing model input\<close>

datatype disposition_error =
    Must_be_object string
  | Must_be_nonempty_string string
  | Must_be_boolean string
  | Unsupported_outcome string
  | Dependencies_not_array
  | Required_without_external_dependency
  | External_dependency_without_required
  | Blocked_without_dependency
  | Achieved_with_dependencies
  | Suggestions_not_three
  | Suggestion_titles_repeat
  | Unsupported_dependency_kind string
  | Unsupported_goal_state string
  | Waiting_without_required_state
  | Required_state_when_not_waiting
  | Already_recorded
  | Before_record_failed string

type_synonym 'a dres = "(disposition_error, 'a) res"

definition need_record :: "json \<Rightarrow> string \<Rightarrow> json dres" where
  "need_record v label = ensure (is_record v) (Must_be_object label) (Inr v)"

definition required_string :: "json option \<Rightarrow> string \<Rightarrow> string dres" where
  "required_string v label =
     rbind (need (as_string v) (Must_be_nonempty_string label)) (\<lambda>s.
     ensure (js_trim s \<noteq> []) (Must_be_nonempty_string label) (Inr (js_trim s)))"

definition required_boolean :: "json option \<Rightarrow> string \<Rightarrow> bool dres" where
  "required_boolean v label = need (as_bool v) (Must_be_boolean label)"

definition optional_string :: "json option \<Rightarrow> string \<Rightarrow> string option dres" where
  "optional_string v label =
     (if v = None then Inr None else rbind (required_string v label) (\<lambda>s. Inr (Some s)))"

definition parse_dependency :: "json \<Rightarrow> dependency dres" where
  "parse_dependency v =
     rbind (need_record v ''blocker dependency'') (\<lambda>input.
     rbind (required_string (jget input ''kind'') ''dependency kind'') (\<lambda>name.
     rbind (need (kind_of_name name) (Unsupported_dependency_kind name)) (\<lambda>k.
     rbind (required_string (jget input ''description'') ''dependency description'') (\<lambda>desc.
     rbind (required_string (jget input ''requiredState'') ''dependency requiredState'') (\<lambda>st.
     rbind (required_boolean (jget input ''external'') ''dependency external'') (\<lambda>ext.
     Inr \<lparr>dep_kind = k, dep_description = desc, dep_requiredState = st, dep_external = ext\<rparr>))))))"

text \<open>The candidates in turn; \<open>seen\<close> holds the identities of the titles so far.\<close>

fun parse_suggestions :: "string list \<Rightarrow> json list \<Rightarrow> suggestion list dres" where
  "parse_suggestions seen [] = Inr []"
| "parse_suggestions seen (v # vs) =
     rbind (need_record v ''next prompt suggestion'') (\<lambda>input.
     rbind (required_string (jget input ''title'') ''suggestion title'') (\<lambda>title.
     ensure (js_lower title \<notin> set seen) Suggestion_titles_repeat (
     rbind (required_string (jget input ''promptMarkdown'') ''suggestion promptMarkdown'') (\<lambda>md.
     rbind (optional_string (jget input ''rationale'') ''suggestion rationale'') (\<lambda>rat.
     rbind (parse_suggestions (js_lower title # seen) vs) (\<lambda>rest.
     Inr (\<lparr>sug_title = title, sug_promptMarkdown = md, sug_rationale = rat\<rparr> # rest)))))))"

definition parse_next_prompt_suggestions :: "json \<Rightarrow> suggestion list dres" where
  "parse_next_prompt_suggestions v =
     rbind (need (as_array (Some v)) Suggestions_not_three) (\<lambda>xs.
       ensure (length xs = 3) Suggestions_not_three (parse_suggestions [] xs))"

definition state_achieved :: string where
  "state_achieved = ''achieved''"

definition state_continue :: string where
  "state_continue = ''continue''"

definition state_waiting :: string where
  "state_waiting = ''waiting_on_external_state''"

definition achieved_text :: string where
  "achieved_text = ''Goal achieved.''"

definition continues_text :: string where
  "continues_text = ''Goal research continues.''"

definition waiting_text :: string where
  "waiting_text = ''Waiting for external state: ''"

text \<open>The disposition a goal signal stands for, given which of the first two states it names.\<close>

definition goal_signal_disposition ::
  "string \<Rightarrow> bool \<Rightarrow> bool \<Rightarrow> string option \<Rightarrow> string option \<Rightarrow> disposition" where
  "goal_signal_disposition now achieved continues reason requiredState =
     (let deps = (case requiredState of
            Some st \<Rightarrow> [\<lparr>dep_kind = Other_dependency,
                         dep_description = (case reason of Some r \<Rightarrow> r | None \<Rightarrow> st),
                         dep_requiredState = st, dep_external = True\<rparr>]
          | None \<Rightarrow> [])
      in \<lparr>d_outcome = (if achieved then Objective_achieved
                       else if continues then Objective_partially_achieved else Outcome_blocked),
          d_summary = (case reason of Some r \<Rightarrow> r | None \<Rightarrow>
             (if achieved then achieved_text else if continues then continues_text
              else waiting_text @ the requiredState)),
          d_blockerDependencies = deps,
          d_externalStateRequired = (0 < length deps),
          d_nextPromptSuggestions = None,
          d_recordedAt = now\<rparr>)"

definition parse_goal_signal :: "string \<Rightarrow> json \<Rightarrow> disposition dres" where
  "parse_goal_signal now input =
     rbind (required_string (jget input ''state'') ''state'') (\<lambda>state.
     rbind (optional_string (jget input ''reason'') ''reason'') (\<lambda>reason.
     rbind (optional_string (jget input ''requiredState'') ''requiredState'') (\<lambda>requiredState.
     ensure (state = state_achieved \<or> state = state_continue \<or> state = state_waiting)
       (Unsupported_goal_state state) (
     ensure (\<not> (state = state_waiting \<and> requiredState = None))
       Waiting_without_required_state (
     ensure (\<not> (state \<noteq> state_waiting \<and> requiredState \<noteq> None))
       Required_state_when_not_waiting (
     Inr (goal_signal_disposition now (state = state_achieved) (state = state_continue)
            reason requiredState)))))))"

definition any_external :: "dependency list \<Rightarrow> bool" where
  "any_external deps \<longleftrightarrow> list_ex dep_external deps"

definition parse_disposition :: "string \<Rightarrow> json \<Rightarrow> disposition dres" where
  "parse_disposition now v =
     rbind (need_record v ''session disposition'') (\<lambda>input.
     if jget input ''state'' \<noteq> None then parse_goal_signal now input else
     rbind (required_string (jget input ''outcome'') ''outcome'') (\<lambda>name.
     rbind (need (find (\<lambda>oc. outcome_name oc = name) (take 4 outcomes))
       (Unsupported_outcome name)) (\<lambda>oc.
     rbind (required_string (jget input ''summary'') ''summary'') (\<lambda>summary.
     rbind (need (as_array (jget input ''blockerDependencies'')) Dependencies_not_array) (\<lambda>raw.
     rbind (rmap parse_dependency raw) (\<lambda>deps.
     rbind (required_boolean (jget input ''externalStateRequired'') ''externalStateRequired'') (\<lambda>ext.
     ensure (\<not> (ext \<and> \<not> any_external deps)) Required_without_external_dependency (
     ensure (\<not> (\<not> ext \<and> any_external deps)) External_dependency_without_required (
     ensure (\<not> (oc = Outcome_blocked \<and> length deps = 0)) Blocked_without_dependency (
     ensure (\<not> (oc = Objective_achieved \<and> length deps > 0)) Achieved_with_dependencies (
     rbind (case jget input ''nextPromptSuggestions'' of
              None \<Rightarrow> Inr None
            | Some w \<Rightarrow> rbind (parse_next_prompt_suggestions w) (\<lambda>xs. Inr (Some xs))) (\<lambda>sugs.
     Inr \<lparr>d_outcome = oc, d_summary = summary, d_blockerDependencies = deps,
          d_externalStateRequired = ext, d_nextPromptSuggestions = sugs, d_recordedAt = now\<rparr>))))))))))))"


section \<open>The recorder and its tool\<close>

type_synonym recorder = "disposition option"

definition recorder_init :: recorder where
  "recorder_init = None"

definition recorder_record :: "string \<Rightarrow> json \<Rightarrow> recorder \<Rightarrow> recorder \<times> disposition dres" where
  "recorder_record now v s = (case s of
     Some _ \<Rightarrow> (s, Inl Already_recorded)
   | None \<Rightarrow> (case parse_disposition now v of
       Inl e \<Rightarrow> (s, Inl e)
     | Inr d \<Rightarrow> (Some d, Inr d)))"

text \<open>\<open>get\<close> returns a clone: a value of the model.\<close>

definition recorder_get :: "recorder \<Rightarrow> disposition option" where
  "recorder_get s = s"

definition recorder_reset :: "recorder \<Rightarrow> recorder" where
  "recorder_reset s = None"

record tool_result =
  tr_status :: string
  tr_output :: "disposition option"
  tr_error :: "disposition_error option"
  tr_followUpActions :: "string list"

text \<open>\<open>before\<close> is the optional hook, which may throw.\<close>

definition disposition_execute ::
  "(json \<Rightarrow> unit dres) option \<Rightarrow> string \<Rightarrow> json \<Rightarrow> recorder \<Rightarrow> recorder \<times> tool_result" where
  "disposition_execute before now v s =
     (let failed = (\<lambda>t e. (t, \<lparr>tr_status = ''error'', tr_output = None, tr_error = Some e,
            tr_followUpActions = [''Correct and record Goal status before responding.'']\<rparr>))
      in case (case before of None \<Rightarrow> Inr () | Some h \<Rightarrow> h v) of
           Inl e \<Rightarrow> failed s e
         | Inr _ \<Rightarrow> (case recorder_record now v s of
             (t, Inl e) \<Rightarrow> failed t e
           | (t, Inr d) \<Rightarrow> (t, \<lparr>tr_status = ''complete'', tr_output = Some d, tr_error = None,
                               tr_followUpActions = []\<rparr>)))"

datatype session_end = End_complete | End_error | End_stopped

definition fallback_disposition :: "string \<Rightarrow> session_end \<Rightarrow> string \<Rightarrow> disposition" where
  "fallback_disposition now status txt =
     \<lparr>d_outcome = (if status = End_error then Outcome_failed else Inconclusive),
      d_summary = (if js_trim txt \<noteq> [] then js_trim txt
        else if status = End_error then ''The research session failed without a final response.''
        else if status = End_stopped then
          ''The research session was stopped by the host before recording a structured final disposition.''
        else ''The research session ended without a structured final disposition.''),
      d_blockerDependencies = [], d_externalStateRequired = False,
      d_nextPromptSuggestions = None, d_recordedAt = now\<rparr>"

section \<open>The invariant of recorded dispositions\<close>

definition trimmed :: "string \<Rightarrow> bool" where
  "trimmed s \<longleftrightarrow> s \<noteq> [] \<and> js_trim s = s"

definition wf_dependency :: "dependency \<Rightarrow> bool" where
  "wf_dependency d \<longleftrightarrow> trimmed (dep_description d) \<and> trimmed (dep_requiredState d)"

definition wf_suggestions :: "suggestion list \<Rightarrow> bool" where
  "wf_suggestions xs \<longleftrightarrow> length xs = 3 \<and> distinct (map (\<lambda>x. js_lower (sug_title x)) xs)
     \<and> (\<forall>x\<in>set xs. trimmed (sug_title x) \<and> trimmed (sug_promptMarkdown x)
           \<and> (\<forall>r. sug_rationale x = Some r \<longrightarrow> trimmed r))"

definition wf_disposition :: "disposition \<Rightarrow> bool" where
  "wf_disposition d \<longleftrightarrow> trimmed (d_summary d)
     \<and> list_all wf_dependency (d_blockerDependencies d)
     \<and> d_externalStateRequired d = any_external (d_blockerDependencies d)
     \<and> (d_outcome d = Outcome_blocked \<longrightarrow> d_blockerDependencies d \<noteq> [])
     \<and> (d_outcome d = Objective_achieved \<longrightarrow> d_blockerDependencies d = [])
     \<and> (\<forall>xs. d_nextPromptSuggestions d = Some xs \<longrightarrow> wf_suggestions xs)"

lemma required_string_Inr: "required_string v l = Inr s \<Longrightarrow> trimmed s"
  by (auto simp: required_string_def trimmed_def guard_simps)

lemma optional_string_Inr: "optional_string v l = Inr (Some s) \<Longrightarrow> trimmed s"
  by (auto simp: optional_string_def guard_simps intro: required_string_Inr split: if_splits)

lemma parse_dependency_wf: "parse_dependency v = Inr d \<Longrightarrow> wf_dependency d"
  by (auto simp: parse_dependency_def guard_simps wf_dependency_def intro: required_string_Inr)

lemma rmap_parse_dependency_wf: "rmap parse_dependency vs = Inr ds \<Longrightarrow> list_all wf_dependency ds"
  by (induction vs arbitrary: ds) (auto simp: guard_simps parse_dependency_wf)

lemma parse_suggestions_wf:
  "parse_suggestions seen vs = Inr xs \<Longrightarrow> length xs = length vs
     \<and> distinct (map (\<lambda>x. js_lower (sug_title x)) xs)
     \<and> (\<forall>x\<in>set xs. js_lower (sug_title x) \<notin> set seen)
     \<and> (\<forall>x\<in>set xs. trimmed (sug_title x) \<and> trimmed (sug_promptMarkdown x)
           \<and> (\<forall>r. sug_rationale x = Some r \<longrightarrow> trimmed r))"
proof (induction vs arbitrary: seen xs)
  case (Cons v vs)
  then obtain input t m r rest where
    "need_record v ''next prompt suggestion'' = Inr input"
    and t: "required_string (jget input ''title'') ''suggestion title'' = Inr t"
    and new: "js_lower t \<notin> set seen"
    and m: "required_string (jget input ''promptMarkdown'') ''suggestion promptMarkdown'' = Inr m"
    and r: "optional_string (jget input ''rationale'') ''suggestion rationale'' = Inr r"
    and rest: "parse_suggestions (js_lower t # seen) vs = Inr rest"
    and xs: "xs = \<lparr>sug_title = t, sug_promptMarkdown = m, sug_rationale = r\<rparr> # rest"
    by (auto simp: guard_simps)
  have "trimmed t" "trimmed m" "\<And>q. r = Some q \<Longrightarrow> trimmed q"
    using t m r required_string_Inr optional_string_Inr by blast+
  with Cons.IH [OF rest] new show ?case by (auto simp: xs)
qed simp

lemma parse_next_prompt_suggestions_wf:
  "parse_next_prompt_suggestions v = Inr xs \<Longrightarrow> wf_suggestions xs"
  using parse_suggestions_wf [of "[]"]
  by (auto simp: parse_next_prompt_suggestions_def wf_suggestions_def guard_simps)

lemma trimmed_texts: "trimmed achieved_text" "trimmed continues_text"
  by code_simp+

lemma trimmed_waiting: "trimmed s \<Longrightarrow> trimmed (waiting_text @ s)"
proof -
  assume s: "trimmed s"
  then have "\<not> is_ws (last s)"
    using js_trim_ends(2) [of s] by (simp add: trimmed_def)
  moreover have "\<not> is_ws (hd waiting_text)" "waiting_text \<noteq> []"
    by code_simp+
  ultimately show ?thesis
    using s unfolding trimmed_def by (intro conjI js_trim_id disjI2) auto
qed

lemma goal_signal_disposition_wf:
  assumes "\<And>x. reason = Some x \<Longrightarrow> trimmed x" "\<And>x. st = Some x \<Longrightarrow> trimmed x"
    and "st = None \<longleftrightarrow> achieved \<or> continues"
  shows "wf_disposition (goal_signal_disposition now achieved continues reason st)"
  using assms trimmed_texts trimmed_waiting
  by (cases reason; cases st)
    (auto simp: goal_signal_disposition_def wf_disposition_def wf_dependency_def any_external_def)

lemma goal_states_distinct [simp]:
  "state_achieved \<noteq> state_waiting" "state_continue \<noteq> state_waiting" "state_achieved \<noteq> state_continue"
  "state_waiting \<noteq> state_achieved" "state_waiting \<noteq> state_continue" "state_continue \<noteq> state_achieved"
  by (simp_all add: state_achieved_def state_continue_def state_waiting_def)

lemma parse_goal_signal_wf:
  assumes "parse_goal_signal now v = Inr d" shows "wf_disposition d"
proof -
  obtain state reason st where
    r: "optional_string (jget v ''reason'') ''reason'' = Inr reason"
    and s: "optional_string (jget v ''requiredState'') ''requiredState'' = Inr st"
    and "state = state_achieved \<or> state = state_continue \<or> state = state_waiting"
    and "st = None \<longleftrightarrow> state \<noteq> state_waiting"
    and d: "d = goal_signal_disposition now (state = state_achieved) (state = state_continue) reason st"
    using assms by (auto simp: parse_goal_signal_def guard_simps)
  then have "st = None \<longleftrightarrow> state = state_achieved \<or> state = state_continue"
    by auto
  then show ?thesis
    unfolding d using r s optional_string_Inr by (intro goal_signal_disposition_wf) auto
qed

lemma parse_disposition_wf:
  assumes "parse_disposition now v = Inr d" shows "wf_disposition d"
proof (cases "jget v ''state'' = None")
  case False
  then show ?thesis
    using assms parse_goal_signal_wf
    by (auto simp: parse_disposition_def need_record_def guard_simps)
next
  case True
  with assms obtain oc summary raw deps ext sugs where
    "required_string (jget v ''summary'') ''summary'' = Inr summary"
    and deps: "rmap parse_dependency raw = Inr deps"
    and "ext = any_external deps" "oc = Outcome_blocked \<longrightarrow> deps \<noteq> []"
    "oc = Objective_achieved \<longrightarrow> deps = []"
    and sugs: "(case jget v ''nextPromptSuggestions'' of None \<Rightarrow> Inr None
       | Some w \<Rightarrow> rbind (parse_next_prompt_suggestions w) (\<lambda>xs. Inr (Some xs))) = Inr sugs"
    and d: "d = \<lparr>d_outcome = oc, d_summary = summary, d_blockerDependencies = deps,
      d_externalStateRequired = ext, d_nextPromptSuggestions = sugs, d_recordedAt = now\<rparr>"
    by (auto simp: parse_disposition_def need_record_def guard_simps)
  have "\<forall>xs. sugs = Some xs \<longrightarrow> wf_suggestions xs"
    using sugs parse_next_prompt_suggestions_wf by (auto simp: guard_simps split: option.splits)
  then show ?thesis
    using d rmap_parse_dependency_wf [OF deps] required_string_Inr \<open>required_string _ _ = _\<close>
      \<open>ext = _\<close> \<open>oc = Outcome_blocked \<longrightarrow> _\<close> \<open>oc = Objective_achieved \<longrightarrow> _\<close>
    by (auto simp: wf_disposition_def)
qed

section \<open>The contract with the goal runtime\<close>

text \<open>
  What \<open>ResearchGoalRuntime\<close> is given: \<open>getDisposition\<close> returns well-formed
  dispositions only, and nothing after \<open>resetDisposition\<close>.
\<close>

locale disposition_source =
  fixes get :: "'s \<Rightarrow> disposition option"
    and reset :: "'s \<Rightarrow> 's"
    and inv :: "'s \<Rightarrow> bool"
  assumes get_wf: "inv s \<Longrightarrow> get s = Some d \<Longrightarrow> wf_disposition d"
    and get_reset: "inv s \<Longrightarrow> get (reset s) = None"
    and inv_reset: "inv s \<Longrightarrow> inv (reset s)"

definition recorder_inv :: "recorder \<Rightarrow> bool" where
  "recorder_inv s \<longleftrightarrow> (\<forall>d. s = Some d \<longrightarrow> wf_disposition d)"

lemma recorder_inv_init [keeps_inv]: "recorder_inv recorder_init"
  by (simp add: recorder_inv_def recorder_init_def)

lemma recorder_inv_record [keeps_inv]:
  "recorder_inv s \<Longrightarrow> recorder_inv (fst (recorder_record now v s))"
  by (auto simp: recorder_inv_def recorder_record_def parse_disposition_wf split: option.splits sum.splits)

lemma recorder_inv_execute [keeps_inv]:
  "recorder_inv s \<Longrightarrow> recorder_inv (fst (disposition_execute before now v s))"
  using recorder_inv_record [of s now v]
  by (auto simp: disposition_execute_def Let_def split: sum.splits prod.splits option.splits)

interpretation recorder: disposition_source recorder_get recorder_reset recorder_inv
  by unfold_locales (auto simp: recorder_inv_def recorder_get_def recorder_reset_def)

end
