(* ===== verification/Steering.thy ===== *)
theory Steering
  imports Beale_Prelude
begin

text \<open>
  The bounded queue of authoritative user steering.  \<open>ResearchGoalRuntime\<close> and
  \<open>ResearchFocusGuard\<close> each keep one with the same loops
  (\<open>noteAuthoritativeUserSteering\<close>, \<open>replaceAuthoritativeUserSteering\<close>), with their own
  normalisation and limits.  The loops are modelled once; \<open>steering_limits\<close> is what a
  normalisation must promise, and the two components interpret it.
\<close>

text \<open>\<open>while (p(queue)) queue.shift()\<close>\<close>

fun shift_while :: "('a list \<Rightarrow> bool) \<Rightarrow> 'a list \<Rightarrow> 'a list" where
  "shift_while p [] = []"
| "shift_while p (x # xs) = (if p (x # xs) then shift_while p xs else x # xs)"

definition total_chars :: "string list \<Rightarrow> nat" where
  "total_chars q = sum_list (map length q)"

fun push_normalized :: "(string \<Rightarrow> string) \<Rightarrow> string list \<Rightarrow> string list \<Rightarrow> string list" where
  "push_normalized nrm [] q = q"
| "push_normalized nrm (m # ms) q =
     (let n = nrm m in
      push_normalized nrm ms (if n = [] then q else q @ [n]))"

definition note_steering ::
  "(string \<Rightarrow> string) \<Rightarrow> nat \<Rightarrow> nat \<Rightarrow> string list \<Rightarrow> string list \<Rightarrow> string list" where
  "note_steering nrm max_count max_chars ms q =
     shift_while (\<lambda>q. length q > 1 \<and> total_chars q > max_chars)
       (shift_while (\<lambda>q. length q > max_count) (push_normalized nrm ms q))"

lemma push_normalized_eq:
  "push_normalized nrm ms q = q @ filter (\<lambda>n. n \<noteq> []) (map nrm ms)"
  by (induction ms arbitrary: q) (auto simp: Let_def)

lemma shift_while_suffix: "\<exists>ps. xs = ps @ shift_while p xs"
proof (induction xs)
  case (Cons x xs)
  then show ?case
    by (cases "p (x # xs)") (auto, metis append_Cons)
qed simp

lemma set_shift_while: "set (shift_while p xs) \<subseteq> set xs"
  using shift_while_suffix [of xs p] by (metis Un_iff set_append subsetI)

lemma shift_while_stops: "shift_while p xs = [] \<or> \<not> p (shift_while p xs)"
  by (induction xs) auto

lemma shift_while_id: "\<not> p xs \<Longrightarrow> shift_while p xs = xs"
  by (cases xs) auto

lemma shift_while_nonempty:
  "xs \<noteq> [] \<Longrightarrow> (\<And>x. \<not> p [x]) \<Longrightarrow> shift_while p xs \<noteq> [] \<and> last (shift_while p xs) = last xs"
proof (induction xs)
  case (Cons x xs)
  then show ?case by (cases xs) auto
qed simp

lemma length_shift_while: "length (shift_while p xs) \<le> length xs"
  using shift_while_suffix [of xs p] by (metis length_append le_add2)

lemma total_chars_simps [simp]:
  "total_chars [] = 0" "total_chars (x # xs) = length x + total_chars xs"
  "total_chars (xs @ ys) = total_chars xs + total_chars ys"
  by (simp_all add: total_chars_def)

text \<open>The state invariant of such a queue.\<close>

definition steering_ok ::
  "(string \<Rightarrow> string) \<Rightarrow> nat \<Rightarrow> nat \<Rightarrow> string list \<Rightarrow> bool" where
  "steering_ok nrm max_count max_chars q \<longleftrightarrow>
     length q \<le> max_count \<and> total_chars q \<le> max_chars
     \<and> (\<forall>m\<in>set q. m \<noteq> [] \<and> nrm m = m)"

locale steering_limits =
  fixes nrm :: "string \<Rightarrow> string" and max_count max_chars message_chars :: nat
  assumes nrm_length: "length (nrm m) \<le> message_chars"
    and nrm_idem: "nrm (nrm m) = nrm m"
    and one_message: "0 < max_count"
    and message_fits: "message_chars \<le> max_chars"
begin

abbreviation noted :: "string list \<Rightarrow> string list \<Rightarrow> string list" where
  "noted \<equiv> note_steering nrm max_count max_chars"

abbreviation ok :: "string list \<Rightarrow> bool" where
  "ok \<equiv> steering_ok nrm max_count max_chars"

lemma note_suffix:
  "\<exists>ps. q @ filter (\<lambda>n. n \<noteq> []) (map nrm ms) = ps @ noted ms q"
proof -
  let ?c = "shift_while (\<lambda>q. length q > max_count) (push_normalized nrm ms q)"
  obtain ps where "push_normalized nrm ms q = ps @ ?c"
    using shift_while_suffix by blast
  moreover obtain qs where "?c = qs @ noted ms q"
    unfolding note_steering_def using shift_while_suffix by blast
  ultimately have "push_normalized nrm ms q = (ps @ qs) @ noted ms q"
    by simp
  then show ?thesis unfolding push_normalized_eq by blast
qed

lemma note_sources:
  "m \<in> set (noted ms q) \<Longrightarrow> m \<in> set q \<or> m \<noteq> [] \<and> (\<exists>x. m = nrm x)"
proof -
  assume "m \<in> set (noted ms q)"
  then have "m \<in> set q \<union> set (filter (\<lambda>n. n \<noteq> []) (map nrm ms))"
    using note_suffix [of q ms] by (metis UnI2 set_append)
  then show ?thesis by auto
qed

lemma note_elements:
  assumes "ok q" "m \<in> set (noted ms q)" shows "m \<noteq> [] \<and> nrm m = m"
  using note_sources [OF assms(2)] assms(1) nrm_idem by (auto simp: steering_ok_def)

lemma note_sizes:
  assumes "\<And>m. m \<in> set q \<Longrightarrow> length m \<le> message_chars"
  shows "length (noted ms q) \<le> max_count" "total_chars (noted ms q) \<le> max_chars"
proof -
  let ?p = "\<lambda>q. length q > 1 \<and> total_chars q > max_chars"
  let ?c = "shift_while (\<lambda>q. length q > max_count) (push_normalized nrm ms q)"
  have "length ?c \<le> max_count"
    using shift_while_stops [of "\<lambda>q. length q > max_count" "push_normalized nrm ms q"]
    by (auto simp: not_less)
  then show "length (noted ms q) \<le> max_count"
    using length_shift_while [of ?p ?c] by (simp add: note_steering_def)
  show "total_chars (noted ms q) \<le> max_chars"
  proof (cases "1 < length (noted ms q)")
    case True
    then show ?thesis
      using shift_while_stops [of ?p ?c] by (auto simp: note_steering_def not_less)
  next
    case False
    then consider "noted ms q = []" | m where "noted ms q = [m]"
      by (cases "noted ms q") auto
    then show ?thesis
    proof cases
      case (2 m)
      then have "length m \<le> message_chars"
        using note_sources [of m ms q] assms nrm_length by auto
      with 2 message_fits show ?thesis by simp
    qed simp
  qed
qed

lemma note_ok:
  assumes "ok q" shows "ok (noted ms q)"
proof -
  have "length m \<le> message_chars" if "m \<in> set q" for m
    using assms that nrm_length [of m] by (auto simp: steering_ok_def)
  then show ?thesis
    using note_sizes [of q ms] note_elements [OF assms] by (auto simp: steering_ok_def)
qed

lemma ok_empty: "ok []"
  by (simp add: steering_ok_def)

text \<open>The newest non-empty message always survives, at the end of the queue.\<close>

lemma note_keeps_newest:
  assumes "nrm m \<noteq> []" shows "noted (ms @ [m]) q \<noteq> [] \<and> last (noted (ms @ [m]) q) = nrm m"
proof -
  let ?all = "push_normalized nrm (ms @ [m]) q"
  let ?c = "shift_while (\<lambda>q. length q > max_count) ?all"
  have "?all \<noteq> []" "last ?all = nrm m"
    using assms by (simp_all add: push_normalized_eq)
  then have "?c \<noteq> []" "last ?c = nrm m"
    using shift_while_nonempty [of ?all "\<lambda>q. length q > max_count"] one_message by auto
  then show ?thesis
    using shift_while_nonempty [of ?c "\<lambda>q. length q > 1 \<and> total_chars q > max_chars"]
    by (simp add: note_steering_def)
qed

text \<open>A queue that is already within its limits takes part unchanged.\<close>

lemma note_nothing: "ok q \<Longrightarrow> noted [] q = q"
  by (simp add: note_steering_def shift_while_id steering_ok_def not_less)

lemma note_replay: "ok q \<Longrightarrow> noted q [] = q"
proof -
  assume q: "ok q"
  then have "filter (\<lambda>n. n \<noteq> []) (map nrm q) = q"
    unfolding steering_ok_def by (induction q) auto
  with q show ?thesis
    by (simp add: note_steering_def push_normalized_eq shift_while_id steering_ok_def not_less)
qed

end

end
