(* ===== verification/Goal_Runtime.thy ===== *)
theory Goal_Runtime
  imports Disposition Steering
begin

text \<open>
  \<open>packages/research-agent/src/goal-runtime.ts\<close>: the persistent research goal of a
  session.  The class \<open>ResearchGoalRuntime\<close> is the record \<open>goal\<close>; its methods take the
  goal and return the next one.  \<open>sha\<close> is the hexadecimal SHA-256 digest of
  \<open>node:crypto\<close>, a parameter.  Time stamps are ISO strings passed in where the code reads the
  clock.  A continuation prompt is the list of its lines: one constructor per fixed text, with
  the data the line interpolates.
\<close>

section \<open>State\<close>

datatype goal_status = Goal_active | Goal_complete | Goal_blocked

record goal_snapshot =
  gs_objective :: string
  gs_status :: goal_status
  gs_turnsUsed :: nat
  gs_consecutiveBlockedTurns :: nat
  gs_lastDisposition :: "disposition option"
  gs_createdAt :: string
  gs_updatedAt :: string

record persisted_goal =
  pg_objective :: string
  pg_status :: goal_status
  pg_turnsUsed :: nat
  pg_consecutiveBlockedTurns :: nat
  pg_blockerFingerprint :: "string option"
  pg_lastDisposition :: "disposition option"
  pg_createdAt :: string
  pg_updatedAt :: string

datatype maturity = Maturity_observed | Maturity_reproduced

record finding_progress =
  fp_id :: string
  fp_maturity :: maturity
  fp_progressBlocker :: "string option"

record goal =
  g_objective :: string
  g_currentRequest :: "string option"
  g_status :: goal_status
  g_turnsUsed :: nat
  g_consecutiveBlockedTurns :: nat
  g_blockerFingerprint :: "string option"
  g_lastDisposition :: "disposition option"
  g_createdAt :: string
  g_updatedAt :: string
  g_steering :: "string list"
  g_pendingAudit :: "string option"
  g_pendingFindings :: "finding_progress list"

section \<open>Normalisation\<close>

definition goal_objective_max_chars :: nat where
  "goal_objective_max_chars = 500"

definition goal_requirement_max_chars :: nat where
  "goal_requirement_max_chars = 1000"

definition goal_requirements_max_chars :: nat where
  "goal_requirements_max_chars = 4000"

definition goal_requirements_max_count :: nat where
  "goal_requirements_max_count = 8"

definition goal_audit_response_max_chars :: nat where
  "goal_audit_response_max_chars = 4000"

definition normalize_goal_objective :: "string \<Rightarrow> string" where
  "normalize_goal_objective v = compact_text v goal_objective_max_chars"

definition normalize_goal_requirement :: "string \<Rightarrow> string" where
  "normalize_goal_requirement v = compact_text v goal_requirement_max_chars"

definition normalize_fingerprint_text :: "string \<Rightarrow> string" where
  "normalize_fingerprint_text v = js_trim (collapse_ws (js_lower v))"

definition select_goal_objective :: "string option \<Rightarrow> persisted_goal option \<Rightarrow> string \<Rightarrow> string" where
  "select_goal_objective explicit resumed prompt =
     (case explicit of Some s \<Rightarrow> s
      | None \<Rightarrow> (case resumed of Some p \<Rightarrow> pg_objective p | None \<Rightarrow> prompt))"

section \<open>Dispositions seen by the goal\<close>

definition blocker_fingerprint :: "(string \<Rightarrow> string) \<Rightarrow> disposition option \<Rightarrow> string option" where
  "blocker_fingerprint sha dopt = (case dopt of None \<Rightarrow> None | Some d \<Rightarrow>
     if d_outcome d \<noteq> Outcome_blocked \<or> \<not> d_externalStateRequired d then None else
     (let deps = js_sort cmp_units
            (map (\<lambda>x. js_join '':'' [kind_name (dep_kind x),
                     normalize_fingerprint_text (dep_description x),
                     normalize_fingerprint_text (dep_requiredState x)])
               (filter dep_external (d_blockerDependencies d)))
      in if length deps = 0 then None else Some (sha (js_join [char_of (10::nat)] deps))))"

definition is_achieved_disposition :: "disposition option \<Rightarrow> bool" where
  "is_achieved_disposition dopt = (case dopt of None \<Rightarrow> False | Some d \<Rightarrow>
     d_outcome d = Objective_achieved \<and> length (d_blockerDependencies d) = 0
     \<and> \<not> d_externalStateRequired d)"

definition is_blocked_disposition :: "disposition option \<Rightarrow> bool" where
  "is_blocked_disposition dopt = (case dopt of None \<Rightarrow> False | Some d \<Rightarrow>
     d_outcome d = Outcome_blocked \<and> d_externalStateRequired d
     \<and> list_ex dep_external (d_blockerDependencies d))"

lemma no_disposition [simp]:
  "blocker_fingerprint sha None = None" "\<not> is_achieved_disposition None"
  "\<not> is_blocked_disposition None"
  by (simp_all add: blocker_fingerprint_def is_achieved_disposition_def is_blocked_disposition_def)

datatype goal_signal = Signal_achieved | Signal_continue | Signal_waiting

definition goal_signal_state :: "disposition \<Rightarrow> goal_signal" where
  "goal_signal_state d =
     (if d_outcome d = Objective_achieved then Signal_achieved
      else if d_outcome d = Outcome_blocked \<and> d_externalStateRequired d then Signal_waiting
      else Signal_continue)"

section \<open>Persistence\<close>

definition status_name :: "goal_status \<Rightarrow> string" where
  "status_name st = (case st of Goal_active \<Rightarrow> ''active'' | Goal_complete \<Rightarrow> ''complete''
     | Goal_blocked \<Rightarrow> ''blocked'')"

definition goal_status_of_name :: "string \<Rightarrow> goal_status option" where
  "goal_status_of_name s = find (\<lambda>st. status_name st = s) [Goal_active, Goal_complete, Goal_blocked]"

definition is_hex64 :: "string \<Rightarrow> bool" where
  "is_hex64 s \<longleftrightarrow> length s = 64
     \<and> list_all (\<lambda>c. let n = (of_char c :: nat) in 48 \<le> n \<and> n \<le> 57 \<or> 97 \<le> n \<and> n \<le> 102) s"

definition iso_timestamp :: "json option \<Rightarrow> string option" where
  "iso_timestamp v = Option.bind (as_string v) (\<lambda>s. oguard (iso_valid s) (Some s))"

definition nonblank_string :: "json option \<Rightarrow> string option" where
  "nonblank_string v = Option.bind (as_string v) (\<lambda>s. oguard (js_trim s \<noteq> []) (Some s))"

text \<open>
  Each parser reads its properties and hands them to a check of the values; \<open>None\<close> as an
  argument of a check is an absent property.
\<close>

definition check_dependency ::
  "json option \<Rightarrow> json option \<Rightarrow> json option \<Rightarrow> json option \<Rightarrow> dependency option" where
  "check_dependency kind description state external =
     Option.bind (Option.bind (as_string kind) kind_of_name) (\<lambda>k.
     Option.bind (nonblank_string description) (\<lambda>desc.
     Option.bind (nonblank_string state) (\<lambda>st.
     Option.bind (as_bool external) (\<lambda>ext.
     Some \<lparr>dep_kind = k, dep_description = js_trim desc, dep_requiredState = js_trim st,
           dep_external = ext\<rparr>))))"

definition parse_persisted_dependency :: "json \<Rightarrow> dependency option" where
  "parse_persisted_dependency v =
     oguard (is_record v) (check_dependency (jget v ''kind'') (jget v ''description'')
       (jget v ''requiredState'') (jget v ''external''))"

definition check_disposition ::
  "json option \<Rightarrow> json option \<Rightarrow> json option \<Rightarrow> json option \<Rightarrow> json option \<Rightarrow> disposition option" where
  "check_disposition oc_field summary_field deps_field ext_field at_field =
     Option.bind (Option.bind (as_string oc_field) outcome_of_name) (\<lambda>oc.
     Option.bind (nonblank_string summary_field) (\<lambda>summary.
     Option.bind (as_array deps_field) (\<lambda>raw.
     Option.bind (omap parse_persisted_dependency raw) (\<lambda>deps.
     Option.bind (as_bool ext_field) (\<lambda>ext.
     Option.bind (iso_timestamp at_field) (\<lambda>at.
     oguard (ext = any_external deps) (
     oguard (\<not> (oc = Outcome_blocked \<and> length deps = 0)) (
     oguard (\<not> (oc = Objective_achieved \<and> length deps > 0)) (
     Some \<lparr>d_outcome = oc, d_summary = js_trim summary, d_blockerDependencies = deps,
           d_externalStateRequired = ext, d_nextPromptSuggestions = None,
           d_recordedAt = at\<rparr>)))))))))"

definition parse_persisted_disposition :: "json \<Rightarrow> disposition option" where
  "parse_persisted_disposition v =
     oguard (is_record v) (check_disposition (jget v ''outcome'') (jget v ''summary'')
       (jget v ''blockerDependencies'') (jget v ''externalStateRequired'') (jget v ''recordedAt''))"

text \<open>The field \<open>lastDisposition\<close>: \<open>null\<close>, or a disposition that parses.\<close>

definition parse_last_disposition :: "json option \<Rightarrow> disposition option option" where
  "parse_last_disposition v = (case v of
     Some JNull \<Rightarrow> Some None
   | Some w \<Rightarrow> Option.bind (parse_persisted_disposition w) (\<lambda>d. Some (Some d))
   | None \<Rightarrow> None)"

definition parse_fingerprint_field :: "json option \<Rightarrow> string option option" where
  "parse_fingerprint_field v = (case v of
     Some JNull \<Rightarrow> Some None
   | Some (JStr s) \<Rightarrow> oguard (is_hex64 s) (Some (Some s))
   | _ \<Rightarrow> None)"

definition check_goal ::
  "(string \<Rightarrow> string) \<Rightarrow> json option \<Rightarrow> json option \<Rightarrow> json option \<Rightarrow> json option \<Rightarrow> json option
     \<Rightarrow> json option \<Rightarrow> json option \<Rightarrow> json option \<Rightarrow> persisted_goal option" where
  "check_goal sha obj_f status_f turns_f blocked_f fp_f last_f created_f updated_f =
     Option.bind (as_string obj_f) (\<lambda>raw.
     let objective = normalize_goal_objective raw in
     oguard (objective \<noteq> []) (
     Option.bind (Option.bind (as_string status_f) goal_status_of_name) (\<lambda>status.
     Option.bind (safe_nat turns_f) (\<lambda>turns.
     Option.bind (safe_nat blocked_f) (\<lambda>blocked_turns.
     Option.bind (parse_fingerprint_field fp_f) (\<lambda>fp.
     Option.bind (parse_last_disposition last_f) (\<lambda>last.
     Option.bind (iso_timestamp created_f) (\<lambda>created.
     Option.bind (iso_timestamp updated_f) (\<lambda>updated.
     oguard (\<not> iso_before updated created) (
     oguard (\<not> (turns = 0 \<and> last \<noteq> None)) (
     oguard (fp = blocker_fingerprint sha last) (
     oguard (\<not> (fp = None \<and> blocked_turns \<noteq> 0 \<or> fp \<noteq> None \<and> blocked_turns < 1)) (
     oguard (\<not> (status = Goal_complete \<and> \<not> is_achieved_disposition last
               \<or> status = Goal_blocked \<and> \<not> is_blocked_disposition last
               \<or> status = Goal_active \<and> (is_achieved_disposition last \<or> is_blocked_disposition last))) (
     Some \<lparr>pg_objective = objective, pg_status = status, pg_turnsUsed = turns,
           pg_consecutiveBlockedTurns = blocked_turns, pg_blockerFingerprint = fp,
           pg_lastDisposition = last, pg_createdAt = created, pg_updatedAt = updated\<rparr>))))))))))))))"

definition parse_persisted_goal :: "(string \<Rightarrow> string) \<Rightarrow> json option \<Rightarrow> persisted_goal option" where
  "parse_persisted_goal sha value =
     Option.bind value (\<lambda>v.
     oguard (is_record v \<and> jget v ''schemaVersion'' = Some (JInt 1))
       (check_goal sha (jget v ''objective'') (jget v ''status'') (jget v ''turnsUsed'')
         (jget v ''consecutiveBlockedTurns'') (jget v ''blockerFingerprint'')
         (jget v ''lastDisposition'') (jget v ''createdAt'') (jget v ''updatedAt'')))"

section \<open>Construction and projections\<close>

definition reactivate_goal :: "string \<Rightarrow> persisted_goal \<Rightarrow> persisted_goal" where
  "reactivate_goal now p = p\<lparr>pg_status := Goal_active, pg_consecutiveBlockedTurns := 0,
     pg_blockerFingerprint := None, pg_lastDisposition := None, pg_updatedAt := now\<rparr>"

text \<open>The constructor; \<open>None\<close> is the error for an empty objective.\<close>

definition new_goal ::
  "(string \<Rightarrow> string) \<Rightarrow> string \<Rightarrow> string \<Rightarrow> string option \<Rightarrow> json option \<Rightarrow> bool \<Rightarrow> goal option" where
  "new_goal sha now objective_text request initial reactivate =
     (let objective = normalize_goal_objective objective_text in
      oguard (objective \<noteq> []) (
      let req = normalize_goal_requirement (case request of Some r \<Rightarrow> r | None \<Rightarrow> []);
          current = (if req \<noteq> [] \<and> normalize_fingerprint_text req \<noteq> normalize_fingerprint_text objective
                     then Some req else None);
          matching = (case parse_persisted_goal sha initial of
                        Some p \<Rightarrow> if pg_objective p = objective then Some p else None
                      | None \<Rightarrow> None);
          restored = (case matching of
                        Some p \<Rightarrow> Some (if reactivate \<and> pg_status p \<noteq> Goal_active
                                       then reactivate_goal now p else p)
                      | None \<Rightarrow> None)
      in Some (case restored of
           Some p \<Rightarrow> \<lparr>g_objective = objective, g_currentRequest = current, g_status = pg_status p,
              g_turnsUsed = pg_turnsUsed p,
              g_consecutiveBlockedTurns = pg_consecutiveBlockedTurns p,
              g_blockerFingerprint = pg_blockerFingerprint p,
              g_lastDisposition = pg_lastDisposition p, g_createdAt = pg_createdAt p,
              g_updatedAt = pg_updatedAt p, g_steering = [], g_pendingAudit = None,
              g_pendingFindings = []\<rparr>
         | None \<Rightarrow> \<lparr>g_objective = objective, g_currentRequest = current, g_status = Goal_active,
              g_turnsUsed = 0, g_consecutiveBlockedTurns = 0, g_blockerFingerprint = None,
              g_lastDisposition = None, g_createdAt = now, g_updatedAt = now,
              g_steering = [], g_pendingAudit = None, g_pendingFindings = []\<rparr>)))"

definition goal_snapshot_of :: "goal \<Rightarrow> goal_snapshot" where
  "goal_snapshot_of g = \<lparr>gs_objective = g_objective g, gs_status = g_status g,
     gs_turnsUsed = g_turnsUsed g, gs_consecutiveBlockedTurns = g_consecutiveBlockedTurns g,
     gs_lastDisposition = g_lastDisposition g, gs_createdAt = g_createdAt g,
     gs_updatedAt = g_updatedAt g\<rparr>"

definition export_goal :: "goal \<Rightarrow> persisted_goal" where
  "export_goal g = \<lparr>pg_objective = g_objective g, pg_status = g_status g,
     pg_turnsUsed = g_turnsUsed g, pg_consecutiveBlockedTurns = g_consecutiveBlockedTurns g,
     pg_blockerFingerprint = g_blockerFingerprint g, pg_lastDisposition = g_lastDisposition g,
     pg_createdAt = g_createdAt g, pg_updatedAt = g_updatedAt g\<rparr>"

text \<open>The JSON object that \<open>exportState\<close> builds.\<close>

definition opt_json :: "('a \<Rightarrow> json) \<Rightarrow> 'a option \<Rightarrow> json" where
  "opt_json f v = (case v of None \<Rightarrow> JNull | Some x \<Rightarrow> f x)"

definition dependency_json :: "dependency \<Rightarrow> json" where
  "dependency_json d = JObj [(''kind'', JStr (kind_name (dep_kind d))),
     (''description'', JStr (dep_description d)), (''requiredState'', JStr (dep_requiredState d)),
     (''external'', JBool (dep_external d))]"

definition suggestion_json :: "suggestion \<Rightarrow> json" where
  "suggestion_json x = JObj ([(''title'', JStr (sug_title x)),
     (''promptMarkdown'', JStr (sug_promptMarkdown x))]
     @ (case sug_rationale x of None \<Rightarrow> [] | Some r \<Rightarrow> [(''rationale'', JStr r)]))"

definition disposition_json :: "disposition \<Rightarrow> json" where
  "disposition_json d = JObj ([(''outcome'', JStr (outcome_name (d_outcome d))),
     (''summary'', JStr (d_summary d)),
     (''blockerDependencies'', JArr (map dependency_json (d_blockerDependencies d))),
     (''externalStateRequired'', JBool (d_externalStateRequired d))]
     @ (case d_nextPromptSuggestions d of None \<Rightarrow> []
        | Some xs \<Rightarrow> [(''nextPromptSuggestions'', JArr (map suggestion_json xs))])
     @ [(''recordedAt'', JStr (d_recordedAt d))])"

definition goal_json :: "persisted_goal \<Rightarrow> json" where
  "goal_json p = JObj [(''schemaVersion'', JInt 1),
     (''objective'', JStr (pg_objective p)),
     (''status'', JStr (status_name (pg_status p))),
     (''turnsUsed'', JInt (int (pg_turnsUsed p))),
     (''consecutiveBlockedTurns'', JInt (int (pg_consecutiveBlockedTurns p))),
     (''blockerFingerprint'', opt_json JStr (pg_blockerFingerprint p)),
     (''lastDisposition'', opt_json disposition_json (pg_lastDisposition p)),
     (''createdAt'', JStr (pg_createdAt p)),
     (''updatedAt'', JStr (pg_updatedAt p))]"

section \<open>Steering and binding requirements\<close>

definition goal_note_steering :: "string list \<Rightarrow> goal \<Rightarrow> goal" where
  "goal_note_steering ms g = g\<lparr>g_steering := note_steering normalize_goal_requirement
     goal_requirements_max_count goal_requirements_max_chars ms (g_steering g)\<rparr>"

definition goal_replace_steering :: "string list \<Rightarrow> goal \<Rightarrow> goal" where
  "goal_replace_steering ms g = goal_note_steering ms (g\<lparr>g_steering := []\<rparr>)"

definition binding_requirements :: "goal \<Rightarrow> string list" where
  "binding_requirements g = (case g_currentRequest g of None \<Rightarrow> [] | Some r \<Rightarrow> [r]) @ g_steering g"

definition maturity_name :: "maturity \<Rightarrow> string" where
  "maturity_name m = (case m of Maturity_observed \<Rightarrow> ''observed'' | Maturity_reproduced \<Rightarrow> ''reproduced'')"

definition finding_progress_json :: "finding_progress \<Rightarrow> json" where
  "finding_progress_json f = JObj [(''id'', JStr (fp_id f)),
     (''maturity'', JStr (maturity_name (fp_maturity f))),
     (''progressBlocker'', opt_json JStr (fp_progressBlocker f))]"

definition completion_audit_fingerprint ::
  "(string \<Rightarrow> string) \<Rightarrow> goal \<Rightarrow> finding_progress list \<Rightarrow> string option" where
  "completion_audit_fingerprint sha g findings =
     (let requirements = binding_requirements g in
      if length requirements = 0 \<and> length findings = 0 then None
      else Some (sha (stringify (JObj [(''objective'', JStr (g_objective g)),
             (''requirements'', JArr (map JStr requirements)),
             (''findings'', JArr (map finding_progress_json findings))]))))"

section \<open>Prompts\<close>

datatype prompt_line =
    Continue_toward string
  | Requirements_header
  | Requirements_json "string list"
  | Last_goal_state goal_signal
  | No_goal_state_recorded
  | Resume_next_action
  | Requests_are_binding
  | Record_status_before_response
  | Audit_required
  | Persistent_objective string
  | Findings_header
  | Findings_json "finding_progress list"
  | Reconcile_prior_data
  | Prior_data_json goal_signal string string
  | Unmet_requirement_notice
  | Advanced_finding_notice
  | Only_record_achieved_again

definition binding_requirements_prompt :: "goal \<Rightarrow> prompt_line list" where
  "binding_requirements_prompt g =
     (let rs = binding_requirements g in
      if length rs = 0 then [] else [Requirements_header, Requirements_json rs])"

definition finding_progress_prompt :: "finding_progress list \<Rightarrow> prompt_line list" where
  "finding_progress_prompt fs =
     (if length fs = 0 then [] else [Findings_header, Findings_json (take 12 fs)])"

definition continuation_prompt :: "goal \<Rightarrow> disposition option \<Rightarrow> prompt_line list" where
  "continuation_prompt g dopt =
     [Continue_toward (g_objective g)] @ binding_requirements_prompt g
     @ [(case dopt of Some d \<Rightarrow> Last_goal_state (goal_signal_state d) | None \<Rightarrow> No_goal_state_recorded),
        Resume_next_action, Requests_are_binding, Record_status_before_response]"

definition completion_audit_prompt :: "goal \<Rightarrow> disposition \<Rightarrow> string \<Rightarrow> prompt_line list" where
  "completion_audit_prompt g d final_response =
     [Audit_required, Persistent_objective (g_objective g)]
     @ binding_requirements_prompt g
     @ finding_progress_prompt (g_pendingFindings g)
     @ [Reconcile_prior_data,
        Prior_data_json (goal_signal_state d) (d_summary d)
          (compact_text final_response goal_audit_response_max_chars),
        Unmet_requirement_notice]
     @ (if g_pendingFindings g \<noteq> [] then [Advanced_finding_notice] else [])
     @ [Only_record_achieved_again]"

section \<open>One root response\<close>

definition update_blocker_audit :: "(string \<Rightarrow> string) \<Rightarrow> disposition option \<Rightarrow> goal \<Rightarrow> goal" where
  "update_blocker_audit sha dopt g = (case blocker_fingerprint sha dopt of
     None \<Rightarrow> g\<lparr>g_blockerFingerprint := None, g_consecutiveBlockedTurns := 0\<rparr>
   | Some fp \<Rightarrow>
       if g_blockerFingerprint g = Some fp
       then g\<lparr>g_consecutiveBlockedTurns := g_consecutiveBlockedTurns g + 1\<rparr>
       else g\<lparr>g_blockerFingerprint := Some fp, g_consecutiveBlockedTurns := 1\<rparr>)"

text \<open>\<open>applyTerminalDisposition\<close>; the flag asks for a completion audit.\<close>

definition apply_terminal_disposition ::
  "(string \<Rightarrow> string) \<Rightarrow> finding_progress list \<Rightarrow> disposition option \<Rightarrow> goal \<Rightarrow> goal \<times> bool" where
  "apply_terminal_disposition sha findings dopt g =
     (if is_achieved_disposition dopt then
        (let fp = completion_audit_fingerprint sha g findings in
         if fp \<noteq> None \<and> fp \<noteq> Some [] \<and> g_pendingAudit g \<noteq> fp
         then (g\<lparr>g_pendingAudit := fp, g_pendingFindings := findings\<rparr>, True)
         else (g\<lparr>g_pendingAudit := None, g_pendingFindings := [], g_status := Goal_complete\<rparr>, False))
      else
        (let g' = g\<lparr>g_pendingAudit := None, g_pendingFindings := []\<rparr> in
         if is_blocked_disposition dopt then (g'\<lparr>g_status := Goal_blocked\<rparr>, False)
         else (g', False)))"

text \<open>
  \<open>continueAfterRootResponse\<close>.  \<open>Some lines\<close> is the follow-up message, and then the
  runtime has called \<open>resetDisposition\<close>; \<open>None\<close> is the empty list of messages.
\<close>

definition continue_after_root_response ::
  "(string \<Rightarrow> string) \<Rightarrow> string \<Rightarrow> finding_progress list \<Rightarrow> disposition option \<Rightarrow> string \<Rightarrow> goal
     \<Rightarrow> goal \<times> prompt_line list option" where
  "continue_after_root_response sha now findings dopt final_response g =
     (if g_status g \<noteq> Goal_active then (g, None)
      else
        (let g1 = g\<lparr>g_turnsUsed := g_turnsUsed g + 1, g_lastDisposition := dopt\<rparr>;
             g2 = update_blocker_audit sha dopt g1;
             (g3, audit) = apply_terminal_disposition sha findings dopt g2;
             g4 = g3\<lparr>g_updatedAt := now\<rparr>
         in if g_status g4 \<noteq> Goal_active then (g4, None)
            else (g4, Some (case (audit, dopt) of
                   (True, Some d) \<Rightarrow> completion_audit_prompt g4 d final_response
                 | _ \<Rightarrow> continuation_prompt g4 dopt))))"

text \<open>The turn together with the source of dispositions it reads and resets.\<close>

definition goal_turn ::
  "('s \<Rightarrow> disposition option) \<Rightarrow> ('s \<Rightarrow> 's) \<Rightarrow> (string \<Rightarrow> string) \<Rightarrow> string \<Rightarrow> finding_progress list
     \<Rightarrow> string \<Rightarrow> goal \<times> 's \<Rightarrow> (goal \<times> 's) \<times> prompt_line list option" where
  "goal_turn get reset sha now findings final_response st =
     (let (g', prompt) = continue_after_root_response sha now findings (get (snd st)) final_response (fst st)
      in ((g', if prompt = None then snd st else reset (snd st)), prompt))"


section \<open>The steering queue of the goal\<close>

lemma compact_requirement_length: "length (normalize_goal_requirement m) \<le> goal_requirement_max_chars"
  by (simp add: normalize_goal_requirement_def length_compact_text goal_requirement_max_chars_def)

interpretation goal_steering: steering_limits normalize_goal_requirement
  goal_requirements_max_count goal_requirements_max_chars goal_requirement_max_chars
proof
  show "normalize_goal_requirement (normalize_goal_requirement m) = normalize_goal_requirement m" for m
    by (simp add: normalize_goal_requirement_def compact_text_idem goal_requirement_max_chars_def)
qed (use compact_requirement_length in \<open>simp_all add: goal_requirements_max_count_def
      goal_requirement_max_chars_def goal_requirements_max_chars_def\<close>)

lemma normalize_goal_objective_idem [simp]:
  "normalize_goal_objective (normalize_goal_objective s) = normalize_goal_objective s"
  by (simp add: normalize_goal_objective_def compact_text_idem goal_objective_max_chars_def)

section \<open>Facts about fingerprints and persistence\<close>

text \<open>What the code relies on: a digest is 64 lower-case hexadecimal digits.\<close>

definition digest_ok :: "(string \<Rightarrow> string) \<Rightarrow> bool" where
  "digest_ok sha \<longleftrightarrow> (\<forall>x. is_hex64 (sha x))"

lemma digest_nonempty: "digest_ok sha \<Longrightarrow> sha x \<noteq> []"
  unfolding digest_ok_def is_hex64_def by (metis list.size(3) zero_neq_numeral)

lemma filter_Nil_iff_not_ex: "filter p xs = [] \<longleftrightarrow> \<not> list_ex p xs"
  by (induction xs) auto

lemma blocker_fingerprint_None_iff:
  "blocker_fingerprint sha dopt = None \<longleftrightarrow> \<not> is_blocked_disposition dopt"
  by (auto simp: blocker_fingerprint_def is_blocked_disposition_def Let_def filter_Nil_iff_not_ex
      split: option.split)

lemma blocker_fingerprint_hex:
  "digest_ok sha \<Longrightarrow> blocker_fingerprint sha dopt = Some s \<Longrightarrow> is_hex64 s"
  by (auto simp: blocker_fingerprint_def digest_ok_def Let_def split: option.splits if_splits)

lemma achieved_not_blocked:
  "is_achieved_disposition dopt \<Longrightarrow> \<not> is_blocked_disposition dopt"
  by (auto simp: is_achieved_disposition_def is_blocked_disposition_def split: option.splits)

lemma goal_status_of_name_name [simp]: "goal_status_of_name (status_name st) = Some st"
  by (cases st) (simp_all add: goal_status_of_name_def status_name_def)

text \<open>What survives a round trip through storage: everything but the prompt suggestions.\<close>

definition forget_suggestions :: "disposition \<Rightarrow> disposition" where
  "forget_suggestions d = d\<lparr>d_nextPromptSuggestions := None\<rparr>"

lemma forget_suggestions_simps [simp]:
  "is_achieved_disposition (map_option forget_suggestions dopt) = is_achieved_disposition dopt"
  "is_blocked_disposition (map_option forget_suggestions dopt) = is_blocked_disposition dopt"
  "blocker_fingerprint sha (map_option forget_suggestions dopt) = blocker_fingerprint sha dopt"
  by (cases dopt; simp add: is_achieved_disposition_def is_blocked_disposition_def
      blocker_fingerprint_def forget_suggestions_def)+

lemma forget_suggestions_Some [simp]:
  "is_achieved_disposition (Some (forget_suggestions d)) = is_achieved_disposition (Some d)"
  "is_blocked_disposition (Some (forget_suggestions d)) = is_blocked_disposition (Some d)"
  "blocker_fingerprint sha (Some (forget_suggestions d)) = blocker_fingerprint sha (Some d)"
  using forget_suggestions_simps(1,2) [of "Some d"] forget_suggestions_simps(3) [of sha "Some d"]
  by simp_all

lemma parse_dependency_json:
  "wf_dependency d \<Longrightarrow> parse_persisted_dependency (dependency_json d) = Some d"
  by (simp add: parse_persisted_dependency_def check_dependency_def dependency_json_def
      wf_dependency_def trimmed_def nonblank_string_def)

lemma parse_dependencies_json:
  "list_all wf_dependency ds \<Longrightarrow> omap parse_persisted_dependency (map dependency_json ds) = Some ds"
  by (rule omap_map_Some) (auto simp: list_all_iff parse_dependency_json)

lemma jget_disposition_json:
  "jget (disposition_json d) ''outcome'' = Some (JStr (outcome_name (d_outcome d)))"
  "jget (disposition_json d) ''summary'' = Some (JStr (d_summary d))"
  "jget (disposition_json d) ''blockerDependencies''
     = Some (JArr (map dependency_json (d_blockerDependencies d)))"
  "jget (disposition_json d) ''externalStateRequired'' = Some (JBool (d_externalStateRequired d))"
  "jget (disposition_json d) ''recordedAt'' = Some (JStr (d_recordedAt d))"
  "is_record (disposition_json d)"
  by (simp_all add: disposition_json_def map_add_def split: option.split)

lemma parse_disposition_json:
  assumes "wf_disposition d" "iso_valid (d_recordedAt d)"
  shows "parse_persisted_disposition (disposition_json d) = Some (forget_suggestions d)"
  using assms
  by (auto simp: parse_persisted_disposition_def check_disposition_def jget_disposition_json parse_dependencies_json
      wf_disposition_def nonblank_string_def iso_timestamp_def trimmed_def forget_suggestions_def
      oguard_def)

lemma jget_goal_json:
  "is_record (goal_json p)"
  "jget (goal_json p) ''schemaVersion'' = Some (JInt 1)"
  "jget (goal_json p) ''objective'' = Some (JStr (pg_objective p))"
  "jget (goal_json p) ''status'' = Some (JStr (status_name (pg_status p)))"
  "jget (goal_json p) ''turnsUsed'' = Some (JInt (int (pg_turnsUsed p)))"
  "jget (goal_json p) ''consecutiveBlockedTurns'' = Some (JInt (int (pg_consecutiveBlockedTurns p)))"
  "jget (goal_json p) ''blockerFingerprint'' = Some (opt_json JStr (pg_blockerFingerprint p))"
  "jget (goal_json p) ''lastDisposition'' = Some (opt_json disposition_json (pg_lastDisposition p))"
  "jget (goal_json p) ''createdAt'' = Some (JStr (pg_createdAt p))"
  "jget (goal_json p) ''updatedAt'' = Some (JStr (pg_updatedAt p))"
  by (simp_all add: goal_json_def)

lemma parse_last_disposition_record:
  "is_record w \<Longrightarrow> parse_last_disposition (Some w) = Option.bind (parse_persisted_disposition w) (\<lambda>d. Some (Some d))"
  by (cases w) (simp_all add: parse_last_disposition_def)

lemma parse_last_disposition_json:
  assumes "\<forall>d. dopt = Some d \<longrightarrow> wf_disposition d \<and> iso_valid (d_recordedAt d)"
  shows "parse_last_disposition (Some (opt_json disposition_json dopt)) = Some (map_option forget_suggestions dopt)"
proof (cases dopt)
  case None
  then show ?thesis by (simp add: opt_json_def parse_last_disposition_def)
next
  case (Some d)
  then show ?thesis
    using assms by (simp add: opt_json_def parse_last_disposition_record jget_disposition_json
        parse_disposition_json)
qed

lemma parse_fingerprint_json:
  "(\<forall>s. fp = Some s \<longrightarrow> is_hex64 s) \<Longrightarrow> parse_fingerprint_field (Some (opt_json JStr fp)) = Some fp"
  by (cases fp) (simp_all add: parse_fingerprint_field_def opt_json_def)


section \<open>The invariant of a goal and its preservation\<close>

text \<open>
  A completion audit is pending exactly while an active goal has an achieved disposition; a
  terminal status agrees with the last disposition, and the blocker counter with the
  fingerprint.
\<close>

definition wf_goal :: "(string \<Rightarrow> string) \<Rightarrow> goal \<Rightarrow> bool" where
  "wf_goal sha g \<longleftrightarrow>
     g_objective g \<noteq> [] \<and> normalize_goal_objective (g_objective g) = g_objective g
     \<and> g_blockerFingerprint g = blocker_fingerprint sha (g_lastDisposition g)
     \<and> (g_consecutiveBlockedTurns g = 0 \<longleftrightarrow> \<not> is_blocked_disposition (g_lastDisposition g))
     \<and> (g_turnsUsed g = 0 \<longrightarrow> g_lastDisposition g = None)
     \<and> (g_status g = Goal_complete \<longrightarrow> is_achieved_disposition (g_lastDisposition g))
     \<and> (g_status g = Goal_blocked \<longleftrightarrow> is_blocked_disposition (g_lastDisposition g))
     \<and> (g_pendingAudit g \<noteq> None \<longleftrightarrow>
          g_status g = Goal_active \<and> is_achieved_disposition (g_lastDisposition g))
     \<and> steering_ok normalize_goal_requirement goal_requirements_max_count
          goal_requirements_max_chars (g_steering g)
     \<and> (\<forall>d. g_lastDisposition g = Some d \<longrightarrow> wf_disposition d)"

lemma parse_persisted_dependency_wf: "parse_persisted_dependency v = Some d \<Longrightarrow> wf_dependency d"
proof -
  assume "parse_persisted_dependency v = Some d"
  then obtain k de st ext where "check_dependency k de st ext = Some d"
    unfolding parse_persisted_dependency_def guard_simps by blast
  then show ?thesis
    by (auto simp: check_dependency_def guard_simps nonblank_string_def wf_dependency_def trimmed_def)
qed

lemma omap_parse_dependency_wf:
  "omap parse_persisted_dependency vs = Some ds \<Longrightarrow> list_all wf_dependency ds"
  by (induction vs arbitrary: ds) (auto simp: guard_simps parse_persisted_dependency_wf)

lemma parse_persisted_disposition_wf:
  assumes "parse_persisted_disposition v = Some d" shows "wf_disposition d"
proof -
  obtain oc_f sum_f deps_f ext_f at_f where "check_disposition oc_f sum_f deps_f ext_f at_f = Some d"
    using assms unfolding parse_persisted_disposition_def guard_simps by blast
  then obtain summary raw where "js_trim summary \<noteq> []" "d_summary d = js_trim summary"
    and deps: "omap parse_persisted_dependency raw = Some (d_blockerDependencies d)"
    and "d_externalStateRequired d = any_external (d_blockerDependencies d)"
    "d_outcome d = Outcome_blocked \<longrightarrow> d_blockerDependencies d \<noteq> []"
    "d_outcome d = Objective_achieved \<longrightarrow> d_blockerDependencies d = []"
    "d_nextPromptSuggestions d = None"
    by (auto simp: check_disposition_def guard_simps nonblank_string_def)
  with omap_parse_dependency_wf [OF deps] show ?thesis
    by (auto simp: wf_disposition_def trimmed_def)
qed

lemma parse_last_disposition_wf:
  "parse_last_disposition v = Some (Some d) \<Longrightarrow> wf_disposition d"
  by (auto simp: parse_last_disposition_def guard_simps parse_persisted_disposition_wf
      split: option.splits json.splits)

lemma parse_persisted_goal_facts:
  assumes "parse_persisted_goal sha v = Some p"
  shows "pg_objective p \<noteq> []" "normalize_goal_objective (pg_objective p) = pg_objective p"
    "pg_blockerFingerprint p = blocker_fingerprint sha (pg_lastDisposition p)"
    "pg_consecutiveBlockedTurns p = 0 \<longleftrightarrow> \<not> is_blocked_disposition (pg_lastDisposition p)"
    "pg_turnsUsed p = 0 \<longrightarrow> pg_lastDisposition p = None"
    "pg_status p = Goal_complete \<longrightarrow> is_achieved_disposition (pg_lastDisposition p)"
    "pg_status p = Goal_blocked \<longrightarrow> is_blocked_disposition (pg_lastDisposition p)"
    "pg_status p = Goal_active \<longrightarrow> \<not> is_achieved_disposition (pg_lastDisposition p)
       \<and> \<not> is_blocked_disposition (pg_lastDisposition p)"
    "\<forall>d. pg_lastDisposition p = Some d \<longrightarrow> wf_disposition d"
proof -
  obtain f1 f2 f3 f4 f5 f6 f7 f8 where "check_goal sha f1 f2 f3 f4 f5 f6 f7 f8 = Some p"
    using assms unfolding parse_persisted_goal_def guard_simps by blast
  then obtain raw status turns blocked fp lst created updated jl where
    obj: "normalize_goal_objective raw \<noteq> []"
    and last: "parse_last_disposition jl = Some lst"
    and turns: "\<not> (turns = 0 \<and> lst \<noteq> None)" and fp: "fp = blocker_fingerprint sha lst"
    and blocked: "\<not> (fp = None \<and> blocked \<noteq> 0 \<or> fp \<noteq> None \<and> blocked < 1)"
    and status: "\<not> (status = Goal_complete \<and> \<not> is_achieved_disposition lst
        \<or> status = Goal_blocked \<and> \<not> is_blocked_disposition lst
        \<or> status = Goal_active \<and> (is_achieved_disposition lst \<or> is_blocked_disposition lst))"
    and p: "\<lparr>pg_objective = normalize_goal_objective raw, pg_status = status, pg_turnsUsed = turns,
        pg_consecutiveBlockedTurns = blocked, pg_blockerFingerprint = fp,
        pg_lastDisposition = lst, pg_createdAt = created, pg_updatedAt = updated\<rparr> = p"
    unfolding check_goal_def Let_def guard_simps option.inject by blast
  show "pg_objective p \<noteq> []" "normalize_goal_objective (pg_objective p) = pg_objective p"
    "pg_blockerFingerprint p = blocker_fingerprint sha (pg_lastDisposition p)"
    "pg_turnsUsed p = 0 \<longrightarrow> pg_lastDisposition p = None"
    "pg_status p = Goal_complete \<longrightarrow> is_achieved_disposition (pg_lastDisposition p)"
    "pg_status p = Goal_blocked \<longrightarrow> is_blocked_disposition (pg_lastDisposition p)"
    "pg_status p = Goal_active \<longrightarrow> \<not> is_achieved_disposition (pg_lastDisposition p)
       \<and> \<not> is_blocked_disposition (pg_lastDisposition p)"
    using obj turns fp status by (auto simp: p [symmetric])
  show "pg_consecutiveBlockedTurns p = 0 \<longleftrightarrow> \<not> is_blocked_disposition (pg_lastDisposition p)"
    using blocked fp blocker_fingerprint_None_iff [of sha lst] by (auto simp: p [symmetric])
  show "\<forall>d. pg_lastDisposition p = Some d \<longrightarrow> wf_disposition d"
    using parse_last_disposition_wf last by (auto simp: p [symmetric])
qed

lemma new_goal_wf:
  assumes "new_goal sha now obj req initial reactivate = Some g" shows "wf_goal sha g"
proof -
  define p where "p = parse_persisted_goal sha initial"
  have obj: "g_objective g = normalize_goal_objective obj" "g_objective g \<noteq> []"
    and fresh: "g_steering g = []" "g_pendingAudit g = None"
    using assms by (auto simp: new_goal_def Let_def guard_simps split: option.splits)
  consider "g_status g = Goal_active" "g_lastDisposition g = None"
      "g_consecutiveBlockedTurns g = 0" "g_blockerFingerprint g = None"
    | q where "p = Some q" "g_status g = pg_status q" "g_lastDisposition g = pg_lastDisposition q"
      "g_consecutiveBlockedTurns g = pg_consecutiveBlockedTurns q"
      "g_blockerFingerprint g = pg_blockerFingerprint q" "g_turnsUsed g = pg_turnsUsed q"
    using assms unfolding p_def
    by (auto simp: new_goal_def Let_def guard_simps reactivate_goal_def split: option.splits if_splits)
  then show ?thesis
  proof cases
    case 1
    then show ?thesis
      using obj fresh by (simp add: wf_goal_def blocker_fingerprint_def is_blocked_disposition_def
          is_achieved_disposition_def goal_steering.ok_empty)
  next
    case (2 q)
    note facts = parse_persisted_goal_facts [OF 2(1) [unfolded p_def]]
    show ?thesis
      using 2 facts obj fresh achieved_not_blocked goal_steering.ok_empty
      by (cases "pg_status q") (auto simp: wf_goal_def)
  qed
qed

lemma goal_note_steering_wf [keeps_inv]: "wf_goal sha g \<Longrightarrow> wf_goal sha (goal_note_steering ms g)"
  by (simp add: wf_goal_def goal_note_steering_def goal_steering.note_ok)

lemma goal_replace_steering_wf [keeps_inv]:
  "wf_goal sha g \<Longrightarrow> wf_goal sha (goal_replace_steering ms g)"
  unfolding goal_replace_steering_def
  by (rule goal_note_steering_wf) (simp add: wf_goal_def goal_steering.ok_empty)


lemma update_blocker_audit_simps [simp]:
  "g_objective (update_blocker_audit sha dopt g) = g_objective g"
  "g_currentRequest (update_blocker_audit sha dopt g) = g_currentRequest g"
  "g_status (update_blocker_audit sha dopt g) = g_status g"
  "g_turnsUsed (update_blocker_audit sha dopt g) = g_turnsUsed g"
  "g_lastDisposition (update_blocker_audit sha dopt g) = g_lastDisposition g"
  "g_createdAt (update_blocker_audit sha dopt g) = g_createdAt g"
  "g_steering (update_blocker_audit sha dopt g) = g_steering g"
  "g_pendingAudit (update_blocker_audit sha dopt g) = g_pendingAudit g"
  "g_pendingFindings (update_blocker_audit sha dopt g) = g_pendingFindings g"
  "g_blockerFingerprint (update_blocker_audit sha dopt g) = blocker_fingerprint sha dopt"
  by (simp_all add: update_blocker_audit_def split: option.splits)

lemma update_blocker_audit_count:
  "g_consecutiveBlockedTurns (update_blocker_audit sha dopt g) = 0 \<longleftrightarrow> \<not> is_blocked_disposition dopt"
  using blocker_fingerprint_None_iff [of sha dopt]
  by (auto simp: update_blocker_audit_def split: option.splits)

lemma binding_requirements_cong:
  "g_currentRequest g = g_currentRequest h \<Longrightarrow> g_steering g = g_steering h \<Longrightarrow>
   binding_requirements g = binding_requirements h"
  by (simp add: binding_requirements_def)

lemma audit_fingerprint_cong:
  "g_objective g = g_objective h \<Longrightarrow> g_currentRequest g = g_currentRequest h \<Longrightarrow>
   g_steering g = g_steering h \<Longrightarrow>
   completion_audit_fingerprint sha g fs = completion_audit_fingerprint sha h fs"
  using binding_requirements_cong [of g h] unfolding completion_audit_fingerprint_def Let_def by simp

text \<open>The state after a response to an active goal, field by field.\<close>

definition needs_audit :: "(string \<Rightarrow> string) \<Rightarrow> finding_progress list \<Rightarrow> goal \<Rightarrow> bool" where
  "needs_audit sha findings g \<longleftrightarrow>
     (let fp = completion_audit_fingerprint sha g findings
      in fp \<noteq> None \<and> fp \<noteq> Some [] \<and> g_pendingAudit g \<noteq> fp)"

lemma continue_active:
  assumes "g_status g = Goal_active"
    and "continue_after_root_response sha now findings dopt final g = (g', prompt)"
  shows "g_objective g' = g_objective g" "g_currentRequest g' = g_currentRequest g"
    "g_steering g' = g_steering g" "g_createdAt g' = g_createdAt g" "g_updatedAt g' = now"
    "g_turnsUsed g' = g_turnsUsed g + 1" "g_lastDisposition g' = dopt"
    "g_blockerFingerprint g' = blocker_fingerprint sha dopt"
    "g_consecutiveBlockedTurns g' = 0 \<longleftrightarrow> \<not> is_blocked_disposition dopt"
    "g_status g' = (if is_achieved_disposition dopt \<and> \<not> needs_audit sha findings g then Goal_complete
       else if is_blocked_disposition dopt then Goal_blocked else Goal_active)"
    "g_pendingAudit g' = (if is_achieved_disposition dopt \<and> needs_audit sha findings g
       then completion_audit_fingerprint sha g findings else None)"
    "g_pendingFindings g' = (if is_achieved_disposition dopt \<and> needs_audit sha findings g
       then findings else [])"
    "prompt \<noteq> None \<longleftrightarrow> g_status g' = Goal_active"
proof -
  let ?g1 = "g\<lparr>g_turnsUsed := g_turnsUsed g + 1, g_lastDisposition := dopt\<rparr>"
  let ?g2 = "update_blocker_audit sha dopt ?g1"
  have fp: "completion_audit_fingerprint sha ?g2 findings = completion_audit_fingerprint sha g findings"
    by (rule audit_fingerprint_cong) simp_all
  have na: "needs_audit sha findings g \<longleftrightarrow> completion_audit_fingerprint sha ?g2 findings \<noteq> None
      \<and> completion_audit_fingerprint sha ?g2 findings \<noteq> Some []
      \<and> g_pendingAudit ?g2 \<noteq> completion_audit_fingerprint sha ?g2 findings"
    unfolding needs_audit_def Let_def fp by simp
  define r where "r = apply_terminal_disposition sha findings dopt ?g2"
  have r: "r = (if is_achieved_disposition dopt then
        (if needs_audit sha findings g
         then (?g2\<lparr>g_pendingAudit := completion_audit_fingerprint sha g findings,
                 g_pendingFindings := findings\<rparr>, True)
         else (?g2\<lparr>g_pendingAudit := None, g_pendingFindings := [], g_status := Goal_complete\<rparr>, False))
      else if is_blocked_disposition dopt
      then (?g2\<lparr>g_pendingAudit := None, g_pendingFindings := [], g_status := Goal_blocked\<rparr>, False)
      else (?g2\<lparr>g_pendingAudit := None, g_pendingFindings := []\<rparr>, False))"
    unfolding r_def apply_terminal_disposition_def Let_def na fp by (simp only: if_cancel split: if_splits)
  have g': "g' = (fst r)\<lparr>g_updatedAt := now\<rparr>"
    and prompt: "prompt \<noteq> None \<longleftrightarrow> g_status (fst r) = Goal_active"
    using assms unfolding continue_after_root_response_def Let_def r_def [symmetric]
    by (cases r; auto split: if_splits)+
  have "g_status ?g2 = Goal_active"
    using assms by simp
  then show "g_objective g' = g_objective g" "g_currentRequest g' = g_currentRequest g"
    "g_steering g' = g_steering g" "g_createdAt g' = g_createdAt g" "g_updatedAt g' = now"
    "g_turnsUsed g' = g_turnsUsed g + 1" "g_lastDisposition g' = dopt"
    "g_blockerFingerprint g' = blocker_fingerprint sha dopt"
    "g_consecutiveBlockedTurns g' = 0 \<longleftrightarrow> \<not> is_blocked_disposition dopt"
    "g_status g' = (if is_achieved_disposition dopt \<and> \<not> needs_audit sha findings g then Goal_complete
       else if is_blocked_disposition dopt then Goal_blocked else Goal_active)"
    "g_pendingAudit g' = (if is_achieved_disposition dopt \<and> needs_audit sha findings g
       then completion_audit_fingerprint sha g findings else None)"
    "g_pendingFindings g' = (if is_achieved_disposition dopt \<and> needs_audit sha findings g
       then findings else [])"
    "prompt \<noteq> None \<longleftrightarrow> g_status g' = Goal_active"
    unfolding g' prompt r using achieved_not_blocked
    by (simp_all add: update_blocker_audit_count)
qed

lemma continue_inactive:
  "g_status g \<noteq> Goal_active \<Longrightarrow> continue_after_root_response sha now findings dopt final g = (g, None)"
  by (simp add: continue_after_root_response_def)

lemma continue_wf [keeps_inv]:
  assumes g: "wf_goal sha g" and d: "\<And>d. dopt = Some d \<Longrightarrow> wf_disposition d"
  shows "wf_goal sha (fst (continue_after_root_response sha now findings dopt final g))"
proof (cases "g_status g = Goal_active")
  case True
  obtain g' prompt where r: "continue_after_root_response sha now findings dopt final g = (g', prompt)"
    by fastforce
  note fields = continue_active [OF True r]
  have "is_achieved_disposition dopt \<and> needs_audit sha findings g \<Longrightarrow>
      completion_audit_fingerprint sha g findings \<noteq> None"
    by (auto simp: needs_audit_def Let_def)
  then show ?thesis
    using g d fields achieved_not_blocked [of dopt] unfolding r fst_conv
    by (auto simp: wf_goal_def)
next
  case False
  with g show ?thesis by (simp add: continue_inactive)
qed

end
