(* ===== verification/Goal_Properties.thy ===== *)
theory Goal_Properties
  imports Goal_Runtime
begin

text \<open>
  The properties of the goal runtime and of the disposition tool it depends on: the system of
  one goal and one recorder as a transition relation with its invariant, when a goal completes,
  and what survives storage.
\<close>

section \<open>The goal with its disposition source\<close>

context disposition_source
begin

lemma goal_turn_keeps:
  assumes "wf_goal sha (fst st)" "inv (snd st)"
  shows "wf_goal sha (fst (fst (goal_turn get reset sha now findings final st)))"
    "inv (snd (fst (goal_turn get reset sha now findings final st)))"
  using continue_wf [OF assms(1), of "get (snd st)" now findings final] get_wf [OF assms(2)]
    inv_reset [OF assms(2)] assms(2)
  by (auto simp: goal_turn_def Let_def split: prod.splits)

lemma goal_turn_prompt:
  assumes "inv (snd st)" "goal_turn get reset sha now findings final st = (st', Some lines)"
  shows "g_status (fst st') = Goal_active \<and> get (snd st') = None
    \<and> g_turnsUsed (fst st') = g_turnsUsed (fst st) + 1"
proof -
  obtain g' where r: "continue_after_root_response sha now findings (get (snd st)) final (fst st) = (g', Some lines)"
    and st': "st' = (g', reset (snd st))"
    using assms(2) by (auto simp: goal_turn_def Let_def split: prod.splits)
  have act: "g_status (fst st) = Goal_active"
    using r continue_inactive by fastforce
  show ?thesis
    using continue_active(6,13) [OF act r] get_reset [OF assms(1)] by (simp add: st')
qed

lemma goal_turn_terminal:
  "g_status (fst st) \<noteq> Goal_active \<Longrightarrow> goal_turn get reset sha now findings final st = (st, None)"
  by (simp add: goal_turn_def continue_inactive)

end

text \<open>Everything that can happen to a goal and its recorder.\<close>

inductive goal_system :: "(string \<Rightarrow> string) \<Rightarrow> goal \<times> recorder \<Rightarrow> bool" for sha where
  created: "new_goal sha now objective request initial reactivate = Some g \<Longrightarrow>
     goal_system sha (g, recorder_init)"
| recorded: "goal_system sha (g, r) \<Longrightarrow>
     goal_system sha (g, fst (disposition_execute before now input r))"
| steered: "goal_system sha (g, r) \<Longrightarrow> goal_system sha (goal_note_steering ms g, r)"
| resteered: "goal_system sha (g, r) \<Longrightarrow> goal_system sha (goal_replace_steering ms g, r)"
| responded: "goal_system sha st \<Longrightarrow>
     goal_system sha (fst (goal_turn recorder_get recorder_reset sha now findings final st))"

text \<open>
  C1. In every reachable state of a goal and its recorder the goal is well formed: its
  objective is normalised and non-empty, the blocker fingerprint and counter agree with the last
  disposition, a terminal status is justified by that disposition, a completion audit is pending
  exactly while an active goal has an achieved disposition, and the steering queue is within its
  limits; and the recorder holds a well-formed disposition.
\<close>

theorem goal_system_invariant:
  assumes "goal_system sha st"
  shows "wf_goal sha (fst st) \<and> recorder_inv (snd st)"
  using assms
proof (induction rule: goal_system.induct)
  case (created now objective request initial reactivate g)
  then show ?case by (simp add: new_goal_wf recorder_inv_init)
next
  case (responded st now findings final)
  then show ?case
    using recorder.goal_turn_keeps [of sha st] by simp
qed (simp_all add: keeps_inv)

theorem goal_system_invariant_witness:
  "\<exists>g. new_goal (\<lambda>_. []) epoch_iso ''find the bug'' None None False = Some g
     \<and> wf_goal (\<lambda>_. []) (fst (g, recorder_init)) \<and> recorder_inv (snd (g, recorder_init))"
proof -
  have "normalize_goal_objective ''find the bug'' \<noteq> []"
    by code_simp
  then obtain g where g: "new_goal (\<lambda>_. []) epoch_iso ''find the bug'' None None False = Some g"
    by (simp add: new_goal_def Let_def)
  show ?thesis
    using g goal_system_invariant [OF goal_system.created [OF g]] by blast
qed

text \<open>
  C2. A response completes an active goal exactly when its disposition is an achieved one and no
  audit is owed: either nothing binds the goal beyond its objective (no request, no steering, no
  open finding), or the audit for exactly these requirements and findings has been issued.
\<close>

theorem goal_completes_iff:
  assumes "g_status g = Goal_active" "digest_ok sha"
  shows "g_status (fst (continue_after_root_response sha now findings dopt final g)) = Goal_complete
    \<longleftrightarrow> is_achieved_disposition dopt
      \<and> (binding_requirements g = [] \<and> findings = []
         \<or> g_pendingAudit g = completion_audit_fingerprint sha g findings)"
proof -
  obtain g' prompt where r: "continue_after_root_response sha now findings dopt final g = (g', prompt)"
    by fastforce
  have "needs_audit sha findings g \<longleftrightarrow> \<not> (binding_requirements g = [] \<and> findings = [])
      \<and> g_pendingAudit g \<noteq> completion_audit_fingerprint sha g findings"
    using digest_nonempty [OF assms(2)]
    unfolding needs_audit_def completion_audit_fingerprint_def Let_def by simp
  then show ?thesis
    using continue_active(10) [OF assms(1) r] achieved_not_blocked [of dopt] unfolding r by auto
qed

definition demo_digest :: "string \<Rightarrow> string" where
  "demo_digest s = replicate 64 (CHR ''0'')"

lemma demo_digest_ok: "digest_ok demo_digest"
proof -
  have "is_hex64 (replicate 64 (CHR ''0''))" by code_simp
  then show ?thesis by (simp add: digest_ok_def demo_digest_def)
qed

definition demo_goal :: goal where
  "demo_goal = \<lparr>g_objective = ''find the bug'', g_currentRequest = None, g_status = Goal_active,
     g_turnsUsed = 0, g_consecutiveBlockedTurns = 0, g_blockerFingerprint = None,
     g_lastDisposition = None, g_createdAt = epoch_iso, g_updatedAt = epoch_iso,
     g_steering = [], g_pendingAudit = None, g_pendingFindings = []\<rparr>"

definition demo_achieved :: disposition where
  "demo_achieved = \<lparr>d_outcome = Objective_achieved, d_summary = ''done'', d_blockerDependencies = [],
     d_externalStateRequired = False, d_nextPromptSuggestions = None, d_recordedAt = epoch_iso\<rparr>"

theorem goal_completes_iff_witness:
  "g_status (fst (continue_after_root_response demo_digest epoch_iso [] (Some demo_achieved) [] demo_goal))
     = Goal_complete"
proof -
  have "g_status demo_goal = Goal_active" "is_achieved_disposition (Some demo_achieved)"
    "binding_requirements demo_goal = []"
    by (simp_all add: demo_goal_def is_achieved_disposition_def demo_achieved_def binding_requirements_def)
  then show ?thesis
    using goal_completes_iff [OF _ demo_digest_ok, of demo_goal] by blast
qed

text \<open>
  C3. The audit cannot loop: two achieved responses in a row, with no new steering and the same
  open findings, complete the goal, whatever the prose of the responses says.
\<close>

theorem goal_audit_bounded:
  assumes active: "g_status g = Goal_active"
    and d1: "is_achieved_disposition d1" and d2: "is_achieved_disposition d2"
  shows "g_status (fst (continue_after_root_response sha now2 findings d2 final2
     (fst (continue_after_root_response sha now1 findings d1 final1 g)))) = Goal_complete"
proof -
  obtain g1 p1 where r1: "continue_after_root_response sha now1 findings d1 final1 g = (g1, p1)"
    by fastforce
  obtain g2 p2 where r2: "continue_after_root_response sha now2 findings d2 final2 g1 = (g2, p2)"
    by fastforce
  note f1 = continue_active [OF active r1]
  show ?thesis
  proof (cases "needs_audit sha findings g")
    case False
    then have "g_status g1 = Goal_complete"
      using f1(10) d1 by simp
    then show ?thesis
      by (simp add: r1 continue_inactive)
  next
    case True
    then have act: "g_status g1 = Goal_active"
      using f1(10) d1 achieved_not_blocked by simp
    have "completion_audit_fingerprint sha g1 findings = completion_audit_fingerprint sha g findings"
      by (rule audit_fingerprint_cong) (simp_all add: f1)
    then have "\<not> needs_audit sha findings g1"
      using f1(11) d1 True by (simp add: needs_audit_def Let_def)
    then have "g_status g2 = Goal_complete"
      using continue_active(10) [OF act r2] d2 by simp
    then show ?thesis by (simp add: r1 r2)
  qed
qed

theorem goal_audit_bounded_witness:
  "g_status (fst (continue_after_root_response demo_digest epoch_iso
      [\<lparr>fp_id = ''f1'', fp_maturity = Maturity_observed, fp_progressBlocker = None\<rparr>]
      (Some demo_achieved) []
      (fst (continue_after_root_response demo_digest epoch_iso
         [\<lparr>fp_id = ''f1'', fp_maturity = Maturity_observed, fp_progressBlocker = None\<rparr>]
         (Some demo_achieved) [] demo_goal)))) = Goal_complete"
proof -
  have "is_achieved_disposition (Some demo_achieved)" "g_status demo_goal = Goal_active"
    by (simp_all add: is_achieved_disposition_def demo_achieved_def demo_goal_def)
  then show ?thesis by (intro goal_audit_bounded)
qed

text \<open>
  A prompt is sent exactly when the goal stays active, and then the recorder has been emptied
  so that the next response must record its own disposition; a complete or blocked goal and its
  recorder never change again.
\<close>

theorem goal_turn_contract:
  assumes "recorder_inv (snd st)"
  shows "(let (st', prompt) = goal_turn recorder_get recorder_reset sha now findings final st in
     (if g_status (fst st) \<noteq> Goal_active then st' = st \<and> prompt = None
      else g_turnsUsed (fst st') = g_turnsUsed (fst st) + 1
        \<and> g_lastDisposition (fst st') = recorder_get (snd st)
        \<and> (prompt \<noteq> None \<longleftrightarrow> g_status (fst st') = Goal_active)
        \<and> (if prompt \<noteq> None then recorder_get (snd st') = None else snd st' = snd st)))"
proof (cases "g_status (fst st) = Goal_active")
  case False
  then show ?thesis by (simp add: recorder.goal_turn_terminal)
next
  case True
  obtain g' prompt where r:
    "continue_after_root_response sha now findings (recorder_get (snd st)) final (fst st) = (g', prompt)"
    by fastforce
  show ?thesis
    using continue_active(6,7,13) [OF True r] True r recorder.get_reset [OF assms]
    by (cases prompt) (simp_all add: goal_turn_def Let_def)
qed

theorem goal_turn_contract_witness:
  "recorder_inv (snd (demo_goal, recorder_init)) \<and>
   snd (goal_turn recorder_get recorder_reset demo_digest epoch_iso [] [] (demo_goal, recorder_init)) \<noteq> None"
proof -
  have "recorder_inv (snd (demo_goal, recorder_init))"
    by (simp add: recorder_inv_init)
  then show ?thesis
    using goal_turn_contract [of "(demo_goal, recorder_init)" demo_digest epoch_iso "[]" "[]"]
    by (auto simp: goal_turn_def continue_after_root_response_def demo_goal_def recorder_init_def
        recorder_get_def Let_def update_blocker_audit_def blocker_fingerprint_def
        apply_terminal_disposition_def is_achieved_disposition_def is_blocked_disposition_def)
qed


section \<open>Storage\<close>

lemma stored_goal_parts:
  assumes "parse_persisted_goal sha (Some (goal_json q)) = Some p"
  shows "pg_status p = pg_status q"
    "parse_last_disposition (Some (opt_json disposition_json (pg_lastDisposition q))) = Some (pg_lastDisposition p)"
proof -
  have "check_goal sha (Some (JStr (pg_objective q))) (Some (JStr (status_name (pg_status q))))
      (Some (JInt (int (pg_turnsUsed q)))) (Some (JInt (int (pg_consecutiveBlockedTurns q))))
      (Some (opt_json JStr (pg_blockerFingerprint q)))
      (Some (opt_json disposition_json (pg_lastDisposition q)))
      (Some (JStr (pg_createdAt q))) (Some (JStr (pg_updatedAt q))) = Some p"
    using assms by (simp add: parse_persisted_goal_def jget_goal_json)
  then show "pg_status p = pg_status q"
    "parse_last_disposition (Some (opt_json disposition_json (pg_lastDisposition q))) = Some (pg_lastDisposition p)"
    unfolding check_goal_def Let_def guard_simps by auto
qed

lemma parse_disposition_json_outcome:
  assumes "wf_disposition d" "parse_persisted_disposition (disposition_json d) = Some e"
  shows "e = forget_suggestions d"
proof -
  have "check_disposition (Some (JStr (outcome_name (d_outcome d)))) (Some (JStr (d_summary d)))
      (Some (JArr (map dependency_json (d_blockerDependencies d))))
      (Some (JBool (d_externalStateRequired d))) (Some (JStr (d_recordedAt d))) = Some e"
    using assms(2) by (simp add: parse_persisted_disposition_def jget_disposition_json)
  then show ?thesis
    using assms(1) unfolding check_disposition_def guard_simps
    by (auto simp: wf_disposition_def parse_dependencies_json nonblank_string_def trimmed_def
        iso_timestamp_def forget_suggestions_def guard_simps)
qed

lemma stored_last_disposition:
  assumes "\<forall>d. dopt = Some d \<longrightarrow> wf_disposition d"
    and "parse_last_disposition (Some (opt_json disposition_json dopt)) = Some l"
  shows "l = map_option forget_suggestions dopt"
proof (cases dopt)
  case None
  with assms(2) show ?thesis by (simp add: opt_json_def parse_last_disposition_def)
next
  case (Some d)
  with assms obtain e where "parse_persisted_disposition (disposition_json d) = Some e" "l = Some e"
    by (auto simp: opt_json_def parse_last_disposition_record jget_disposition_json guard_simps)
  with assms(1) Some show ?thesis
    using parse_disposition_json_outcome by simp
qed

text \<open>
  C4. Storage round trip: exporting a well-formed goal with valid, ordered time stamps and
  parsing the exported object gives the same state back, up to the prompt suggestions of the
  last disposition; except that a goal whose completion audit is pending is refused.
\<close>

theorem goal_roundtrip:
  assumes wf: "wf_goal sha g" and sha: "digest_ok sha"
    and small: "g_turnsUsed g \<le> 9007199254740991" "g_consecutiveBlockedTurns g \<le> 9007199254740991"
    and times: "iso_valid (g_createdAt g)" "iso_valid (g_updatedAt g)"
      "\<not> iso_before (g_updatedAt g) (g_createdAt g)"
      "\<And>d. g_lastDisposition g = Some d \<Longrightarrow> iso_valid (d_recordedAt d)"
  shows "parse_persisted_goal sha (Some (goal_json (export_goal g))) =
    (if g_pendingAudit g = None
     then Some ((export_goal g)\<lparr>pg_lastDisposition :=
                  map_option forget_suggestions (g_lastDisposition g)\<rparr>)
     else None)"
proof -
  have fp: "\<forall>s. g_blockerFingerprint g = Some s \<longrightarrow> is_hex64 s"
    using wf blocker_fingerprint_hex [OF sha] by (simp add: wf_goal_def)
  have last: "\<forall>d. g_lastDisposition g = Some d \<longrightarrow> wf_disposition d \<and> iso_valid (d_recordedAt d)"
    using wf times(4) by (simp add: wf_goal_def)
  have none: "g_blockerFingerprint g = None \<longleftrightarrow> g_consecutiveBlockedTurns g = 0"
    using wf blocker_fingerprint_None_iff by (simp add: wf_goal_def)
  have norm: "normalize_goal_objective (g_objective g) = g_objective g" "g_objective g \<noteq> []"
    using wf by (simp_all add: wf_goal_def)
  let ?last = "map_option forget_suggestions (g_lastDisposition g)"
  have "parse_persisted_goal sha (Some (goal_json (export_goal g))) =
      oguard (\<not> (g_turnsUsed g = 0 \<and> ?last \<noteq> None)) (
      oguard (g_blockerFingerprint g = blocker_fingerprint sha ?last) (
      oguard (\<not> (g_blockerFingerprint g = None \<and> g_consecutiveBlockedTurns g \<noteq> 0
          \<or> g_blockerFingerprint g \<noteq> None \<and> g_consecutiveBlockedTurns g < 1)) (
      oguard (\<not> (g_status g = Goal_complete \<and> \<not> is_achieved_disposition ?last
          \<or> g_status g = Goal_blocked \<and> \<not> is_blocked_disposition ?last
          \<or> g_status g = Goal_active \<and> (is_achieved_disposition ?last \<or> is_blocked_disposition ?last)))
        (Some ((export_goal g)\<lparr>pg_lastDisposition := ?last\<rparr>)))))"
    using small times(1-3) norm
    by (simp add: parse_persisted_goal_def jget_goal_json check_goal_def export_goal_def
        Let_def iso_timestamp_def parse_fingerprint_json [OF fp] parse_last_disposition_json [OF last])
  then show ?thesis
    using wf none achieved_not_blocked [of "g_lastDisposition g"]
    by (cases "g_lastDisposition g"; cases "g_status g") (auto simp: wf_goal_def oguard_def)
qed

theorem goal_roundtrip_witness:
  "parse_persisted_goal demo_digest (Some (goal_json (export_goal demo_goal)))
     = Some (export_goal demo_goal)"
proof -
  have n: "normalize_goal_objective ''find the bug'' = ''find the bug''"
    by code_simp
  have wf: "wf_goal demo_digest demo_goal"
    using n goal_steering.ok_empty
    by (simp add: wf_goal_def demo_goal_def blocker_fingerprint_def is_blocked_disposition_def)
  have t: "iso_valid epoch_iso"
    by (simp add: iso_valid_def iso_parse_epoch)
  show ?thesis
    using goal_roundtrip [OF wf demo_digest_ok] t by (simp add: demo_goal_def export_goal_def)
qed

text \<open>
  C5. What the exception costs: when an achieved response schedules a completion audit and the
  session is stored before the audit is answered, the stored state is refused on resume, so the
  resumed goal starts over with no turns used and a new creation time.
\<close>

theorem pending_audit_loses_goal:
  assumes wf: "wf_goal sha g" and active: "g_status g = Goal_active"
    and d: "is_achieved_disposition (Some d)" "wf_disposition d"
    and audit: "needs_audit sha findings g"
    and turn: "continue_after_root_response sha now findings (Some d) final g = (g', prompt)"
    and resumed: "new_goal sha now' objective request (Some (goal_json (export_goal g'))) reactivate = Some h"
  shows "g_turnsUsed g' = g_turnsUsed g + 1 \<and> prompt \<noteq> None
    \<and> g_turnsUsed h = 0 \<and> g_createdAt h = now' \<and> g_status h = Goal_active"
proof -
  note f = continue_active [OF active turn]
  have st: "g_status g' = Goal_active"
    using f(10) d(1) audit achieved_not_blocked by simp
  have "parse_persisted_goal sha (Some (goal_json (export_goal g'))) = None"
  proof (rule ccontr)
    assume "\<not> ?thesis"
    then obtain p where p: "parse_persisted_goal sha (Some (goal_json (export_goal g'))) = Some p"
      by blast
    have "pg_status p = Goal_active"
      using stored_goal_parts(1) [OF p] st by (simp add: export_goal_def)
    moreover have "pg_lastDisposition p = Some (forget_suggestions d)"
      using stored_goal_parts(2) [OF p] stored_last_disposition [of "Some d"] d(2) f(7)
      by (simp add: export_goal_def)
    ultimately show False
      using parse_persisted_goal_facts(8) [OF p] d(1) forget_suggestions_simps(1) [of "Some d"] by simp
  qed
  then have "g_turnsUsed h = 0 \<and> g_createdAt h = now' \<and> g_status h = Goal_active"
    using resumed by (auto simp: new_goal_def Let_def guard_simps)
  then show ?thesis
    using f(6,13) st by simp
qed

theorem pending_audit_loses_goal_witness:
  "\<exists>g' prompt h. continue_after_root_response demo_digest epoch_iso
      [\<lparr>fp_id = ''f1'', fp_maturity = Maturity_observed, fp_progressBlocker = None\<rparr>]
      (Some demo_achieved) [] demo_goal = (g', prompt)
    \<and> new_goal demo_digest epoch_iso ''find the bug'' None (Some (goal_json (export_goal g'))) True = Some h
    \<and> g_turnsUsed g' = 1 \<and> g_turnsUsed h = 0"
proof -
  let ?fs = "[\<lparr>fp_id = ''f1'', fp_maturity = Maturity_observed, fp_progressBlocker = None\<rparr>]"
  have n: "normalize_goal_objective ''find the bug'' = ''find the bug''" and tr: "trimmed ''done''"
    by code_simp+
  have wf: "wf_goal demo_digest demo_goal"
    using n goal_steering.ok_empty
    by (simp add: wf_goal_def demo_goal_def blocker_fingerprint_def is_blocked_disposition_def)
  have active: "g_status demo_goal = Goal_active" and turns: "g_turnsUsed demo_goal = 0"
    by (simp_all add: demo_goal_def)
  have d: "is_achieved_disposition (Some demo_achieved)" "wf_disposition demo_achieved"
    using tr by (simp_all add: is_achieved_disposition_def wf_disposition_def demo_achieved_def any_external_def)
  have audit: "needs_audit demo_digest ?fs demo_goal"
    using digest_nonempty [OF demo_digest_ok]
    by (simp add: needs_audit_def completion_audit_fingerprint_def Let_def demo_goal_def)
  obtain g' prompt where t: "continue_after_root_response demo_digest epoch_iso ?fs (Some demo_achieved) [] demo_goal = (g', prompt)"
    by fastforce
  obtain h where h: "new_goal demo_digest epoch_iso ''find the bug'' None (Some (goal_json (export_goal g'))) True = Some h"
    using n by (simp add: new_goal_def Let_def)
  show ?thesis
    using pending_audit_loses_goal [OF wf active d audit t h] t h turns by auto
qed

end
