(* ===== verification/Focus_Tools.thy ===== *)
theory Focus_Tools
  imports Json_Value Steering
begin

text \<open>
  The pure parts of \<open>packages/research-agent/src/research-focus-guard.ts\<close>: the bounded
  texts, the canonical form of tool inputs and outcomes behind the fingerprints, the tool
  classes, and the rendering of compaction checkpoints.  \<open>sha\<close> is the hexadecimal SHA-256
  digest of \<open>node:crypto\<close>.  Object properties whose names are array indices, which
  JavaScript enumerates first, are outside the model.
\<close>

section \<open>Bounded texts\<close>

definition is_blank :: "char \<Rightarrow> bool" where
  "is_blank c \<longleftrightarrow> (of_char c :: nat) = 32 \<or> (of_char c :: nat) = 9"

text \<open>\<open>replace(/[ \\t]+/g, " ")\<close>\<close>

fun collapse_blanks :: "bool \<Rightarrow> string \<Rightarrow> string" where
  "collapse_blanks b [] = []"
| "collapse_blanks b (c # cs) =
     (if is_blank c then (if b then collapse_blanks True cs else space # collapse_blanks True cs)
      else c # collapse_blanks False cs)"

definition bounded_text :: "string \<Rightarrow> nat \<Rightarrow> string" where
  "bounded_text v n = (let t = collapse_blanks False (js_trim v) in
     if length t \<le> n then t else take (n - 1) t @ [ellipsis])"

lemma length_bounded_text: "0 < n \<Longrightarrow> length (bounded_text v n) \<le> n"
  by (auto simp: bounded_text_def Let_def min_def)

definition newline :: char where
  "newline = char_of (10 :: nat)"

fun split_lines :: "string \<Rightarrow> string list" where
  "split_lines [] = [[]]"
| "split_lines (c # cs) =
     (if c = newline then [] # split_lines cs
      else (case split_lines cs of [] \<Rightarrow> [[c]] | l # ls \<Rightarrow> (c # l) # ls))"

definition strip_heading :: "string \<Rightarrow> string" where
  "strip_heading l = (case l of
     c # cs \<Rightarrow> if c = CHR ''#'' then trim_start (dropWhile (\<lambda>d. d = CHR ''#'') cs) else l
   | [] \<Rightarrow> l)"

text \<open>The prefix up to the first sentence end \<open>/[.!?](?=\\s|$)/\<close>, the whole line if there is none.\<close>

fun first_sentence :: "string \<Rightarrow> string" where
  "first_sentence [] = []"
| "first_sentence (c # cs) =
     (if c \<in> set ''.!?'' \<and> (case cs of [] \<Rightarrow> True | d # _ \<Rightarrow> is_ws d) then [c]
      else c # first_sentence cs)"

definition concise_objective :: "string \<Rightarrow> string" where
  "concise_objective v =
     (let line = (case find (\<lambda>l. l \<noteq> []) (map (\<lambda>l. js_trim (strip_heading l)) (split_lines v)) of
                    Some l \<Rightarrow> l | None \<Rightarrow> [])
      in bounded_text (first_sentence line) 240)"

definition max_steering_messages :: nat where
  "max_steering_messages = 8"

definition max_steering_chars :: nat where
  "max_steering_chars = 16000"

definition max_steering_message_chars :: nat where
  "max_steering_message_chars = 8000"

definition omission_marker :: string where
  "omission_marker = [newline] @ ''[...middle omitted by host...]'' @ [newline]"

definition bounded_user_steering :: "string \<Rightarrow> string" where
  "bounded_user_steering v = (let t = js_trim v in
     if length t \<le> max_steering_message_chars then t
     else (let retained = max_steering_message_chars - length omission_marker;
               leading = (retained + 1) div 2;
               trailing = retained div 2
           in take leading t @ omission_marker @ drop (length t - trailing) t))"

definition positive_integer :: "int option \<Rightarrow> nat \<Rightarrow> nat" where
  "positive_integer v fallback = (case v of
     Some n \<Rightarrow> if n > 0 then nat n else fallback
   | None \<Rightarrow> fallback)"

section \<open>Canonical values and digests\<close>

fun sort_value :: "json \<Rightarrow> json" where
  "sort_value (JArr xs) = JArr (map sort_value xs)"
| "sort_value (JObj kvs) =
     JObj (js_sort (cmp_on fst cmp_units) (map (\<lambda>(k, v). (k, sort_value v)) kvs))"
| "sort_value v = v"

definition stable_stringify :: "json option \<Rightarrow> string" where
  "stable_stringify v = (case v of Some w \<Rightarrow> stringify (sort_value w) | None \<Rightarrow> ''null'')"

definition volatile_keys :: "string list" where
  "volatile_keys = [''timestamp'', ''startedAt'', ''completedAt'', ''createdAt'', ''updatedAt'']"

fun strip_volatile_fields :: "json \<Rightarrow> json" where
  "strip_volatile_fields (JArr xs) = JArr (map strip_volatile_fields xs)"
| "strip_volatile_fields (JObj kvs) =
     JObj (filter (\<lambda>(k, v). k \<notin> set volatile_keys)
            (map (\<lambda>(k, v). (k, strip_volatile_fields v)) kvs))"
| "strip_volatile_fields v = v"

definition tool_fingerprint :: "(string \<Rightarrow> string) \<Rightarrow> string \<Rightarrow> json \<Rightarrow> string" where
  "tool_fingerprint sha tool input = sha (tool @ [newline] @ stable_stringify (Some input))"

record artifact_ref =
  ar_id :: "string option"
  ar_summary :: "string option"

record tool_outcome =
  o_callId :: string
  o_status :: string
  o_summary :: "string option"
  o_artifactRefs :: "artifact_ref list option"
  o_result :: "json option"

definition artifact_json :: "artifact_ref \<Rightarrow> json" where
  "artifact_json a = JObj (
     (case ar_id a of None \<Rightarrow> [] | Some s \<Rightarrow> [(''id'', JStr s)])
     @ (case ar_summary a of None \<Rightarrow> [] | Some s \<Rightarrow> [(''summary'', JStr s)]))"

definition outcome_digest :: "(string \<Rightarrow> string) \<Rightarrow> tool_outcome \<Rightarrow> string" where
  "outcome_digest sha oc = sha (stable_stringify (Some (JObj (
     [(''status'', JStr (o_status oc)),
      (''summary'', JStr (case o_summary oc of Some s \<Rightarrow> s | None \<Rightarrow> [])),
      (''artifactRefs'', JArr (map artifact_json (case o_artifactRefs oc of Some xs \<Rightarrow> xs | None \<Rightarrow> [])))]
     @ (case o_result oc of None \<Rightarrow> [] | Some r \<Rightarrow> [(''result'', strip_volatile_fields r)])))))"

definition preferred_keys :: "string list" where
  "preferred_keys = [''id'', ''path'', ''query'', ''utility'', ''args'', ''argv'', ''cwd'', ''action'',
     ''operation'', ''target'', ''status'', ''task_name'']"

definition summarize_input :: "json \<Rightarrow> string" where
  "summarize_input input =
     (let selected = map (\<lambda>k. (k, the (jget input k))) (filter (\<lambda>k. jget input k \<noteq> None) preferred_keys);
          v = (if length selected > 0 then JObj selected else input)
      in bounded_text (stable_stringify (Some v)) 280)"

section \<open>Classes of tools\<close>

definition normalized_tool :: "string \<Rightarrow> string" where
  "normalized_tool n = js_lower (map (\<lambda>c. if c = CHR ''.'' then CHR ''_'' else c) n)"

definition is_source_exploration_tool :: "string \<Rightarrow> bool" where
  "is_source_exploration_tool n \<longleftrightarrow> (let t = normalized_tool n in
     t = ''repository_search'' \<or> t = ''repository_history'' \<or> t = ''file_read''
     \<or> starts_with t ''code_'' \<or> t = ''shell_run'')"

definition convergence_resolution_tools :: "string list" where
  "convergence_resolution_tools = [''runbook_create'', ''runbook_prepare'', ''runbook_append'',
     ''runbook_edit'', ''runbook_configure'', ''runbook_run'']"

definition is_convergence_resolution_tool :: "string \<Rightarrow> bool" where
  "is_convergence_resolution_tool n \<longleftrightarrow> normalized_tool n \<in> set convergence_resolution_tools"

definition durable_progress_tools :: "string list" where
  "durable_progress_tools = [''memory_save'', ''memory_correct'', ''memory_link'', ''lead_create'',
     ''finding_revise'', ''finding_transition'', ''runbook_create'', ''runbook_prepare'',
     ''runbook_append'', ''runbook_edit'', ''runbook_configure'', ''runbook_run'',
     ''report_create'', ''report_revise'']"

definition is_durable_progress_tool :: "string \<Rightarrow> bool" where
  "is_durable_progress_tool n \<longleftrightarrow> normalized_tool n \<in> set durable_progress_tools"

definition operational_suffixes :: "string list" where
  "operational_suffixes = [''_inspect_tart_vm'', ''_start_tart_vm'', ''_stop_tart_vm'',
     ''_copy_to_tart_vm'', ''_copy_from_tart_vm'']"

definition is_operational_support_tool :: "string \<Rightarrow> bool" where
  "is_operational_support_tool n \<longleftrightarrow> (let t = normalized_tool n in
     list_ex (ends_with t) operational_suffixes \<or> list_ex (\<lambda>s. t = tl s) operational_suffixes)"

definition is_evidence_activity_tool :: "string \<Rightarrow> bool" where
  "is_evidence_activity_tool n \<longleftrightarrow> \<not> is_operational_support_tool n
     \<and> normalized_tool n \<noteq> ''history_mark_duplicate'' \<and> normalized_tool n \<noteq> ''history_undo_duplicate''"

definition is_session_disposition_tool :: "string \<Rightarrow> bool" where
  "is_session_disposition_tool n \<longleftrightarrow> normalized_tool n = ''session_disposition''"

text \<open>Every tool that resolves a convergence checkpoint also counts as durable progress, and none explores.\<close>

lemma resolution_tool_durable: "is_convergence_resolution_tool n \<Longrightarrow> is_durable_progress_tool n"
  by (auto simp: is_convergence_resolution_tool_def is_durable_progress_tool_def
      convergence_resolution_tools_def durable_progress_tools_def)

lemma resolution_tools_do_not_explore:
  "list_all (\<lambda>t. \<not> starts_with t ''code_'' \<and> t \<notin> set [''repository_search'', ''repository_history'',
     ''file_read'', ''shell_run'']) convergence_resolution_tools"
  by code_simp

lemma resolution_tool_not_exploration:
  "is_convergence_resolution_tool n \<Longrightarrow> \<not> is_source_exploration_tool n"
  using resolution_tools_do_not_explore
  unfolding is_convergence_resolution_tool_def is_source_exploration_tool_def Let_def list_all_iff
  by auto

section \<open>The steering queue of the guard\<close>

lemma length_omission_marker: "length omission_marker = 32"
  by code_simp

lemma newline_not_ws_pos: "is_ws newline"
  by code_simp

lemma bounded_user_steering_cut:
  assumes "max_steering_message_chars < length (js_trim v)"
  shows "length (bounded_user_steering v) = max_steering_message_chars"
    "bounded_user_steering v \<noteq> []"
    "hd (bounded_user_steering v) = hd (js_trim v)"
    "last (bounded_user_steering v) = last (js_trim v)"
proof -
  let ?t = "js_trim v"
  have e: "bounded_user_steering v = take 3984 ?t @ omission_marker @ drop (length ?t - 3984) ?t"
    using assms unfolding bounded_user_steering_def Let_def max_steering_message_chars_def
      length_omission_marker by simp
  have l: "8000 < length ?t"
    using assms by (simp add: max_steering_message_chars_def)
  then have ne: "take 3984 ?t \<noteq> []" "drop (length ?t - 3984) ?t \<noteq> []"
    by (auto simp: take_eq_Nil2)
  show "length (bounded_user_steering v) = max_steering_message_chars"
    unfolding e using l by (simp add: length_omission_marker max_steering_message_chars_def)
  show "bounded_user_steering v \<noteq> []"
    unfolding e using ne by simp
  show "hd (bounded_user_steering v) = hd ?t"
    unfolding e using l ne(1) by (simp add: hd_append)
  show "last (bounded_user_steering v) = last ?t"
    unfolding e using l ne(2) by (simp add: last_append last_drop)
qed

lemma bounded_user_steering_short:
  "length (js_trim v) \<le> max_steering_message_chars \<Longrightarrow> bounded_user_steering v = js_trim v"
  by (simp add: bounded_user_steering_def Let_def)

lemma bounded_user_steering_length: "length (bounded_user_steering v) \<le> max_steering_message_chars"
  using bounded_user_steering_cut(1) [of v] bounded_user_steering_short [of v]
  by (cases "length (js_trim v) \<le> max_steering_message_chars") simp_all

lemma bounded_user_steering_trimmed: "js_trim (bounded_user_steering v) = bounded_user_steering v"
proof (cases "length (js_trim v) \<le> max_steering_message_chars")
  case True
  then show ?thesis by (simp add: bounded_user_steering_short)
next
  case False
  then have cut: "max_steering_message_chars < length (js_trim v)" by simp
  then have "js_trim v \<noteq> []" by auto
  with bounded_user_steering_cut(3,4) [OF cut] js_trim_ends [of v] show ?thesis
    by (intro js_trim_id) simp
qed

lemma bounded_user_steering_idem:
  "bounded_user_steering (bounded_user_steering v) = bounded_user_steering v"
  using bounded_user_steering_short [of "bounded_user_steering v"]
  by (simp add: bounded_user_steering_trimmed bounded_user_steering_length)

interpretation focus_steering: steering_limits bounded_user_steering
  max_steering_messages max_steering_chars max_steering_message_chars
  by unfold_locales
    (rule bounded_user_steering_length bounded_user_steering_idem,
      simp_all add: max_steering_messages_def max_steering_message_chars_def max_steering_chars_def
        bounded_user_steering_idem)

end
