(* ===== verification/Focus_Guard.thy ===== *)
theory Focus_Guard
  imports Focus_Tools
begin

text \<open>
  The class \<open>ResearchFocusGuard\<close> of
  \<open>packages/research-agent/src/research-focus-guard.ts\<close>: it counts repeated reads per
  progress epoch, holds tool calls back while a convergence or durable-progress checkpoint is
  pending, steers turns that make no progress, and keeps a bounded log of progress that
  survives compaction.  Each method is a function on the record \<open>guard\<close>.  The JavaScript
  maps are association lists in insertion order; \<open>None\<close> as a turn number is minus infinity.
\<close>

section \<open>State\<close>

datatype tool_kind = Kind_recall | Kind_research | Kind_control

record tool_request =
  r_callId :: string
  r_turn :: int
  r_toolName :: string
  r_input :: json
  r_kind :: tool_kind

record tracked_call = tool_request +
  t_fingerprint :: string
  t_blocked :: bool

record tracked_turn =
  tt_calls :: "tracked_call list"
  tt_madeProgress :: bool
  tt_duplicateCallCount :: nat
  tt_convergenceBlockedCount :: nat

record progress_entry =
  pe_key :: string
  pe_toolName :: string
  pe_inputSummary :: string
  pe_summary :: string
  pe_evidence :: string
  pe_artifactRefs :: "string list"

record read_count =
  rc_epoch :: nat
  rc_count :: nat
  rc_lastAllowedTurn :: int

record guard_options =
  go_objective :: string
  go_maxDuplicateReads :: nat
  go_recallProbeInterval :: nat
  go_sustainedRecallOnlyTurns :: nat
  go_steeringCooldownTurns :: nat
  go_checkpointEntries :: nat
  go_checkpointMaxChars :: nat
  go_convergenceCalls :: nat
  go_convergenceEnabled :: bool
  go_durableCalls :: nat
  go_durableEnabled :: bool

record guard =
  f_options :: guard_options
  f_progressEpoch :: nat
  f_readCounts :: "(string \<times> read_count) list"
  f_calls :: "(string \<times> tracked_call) list"
  f_turns :: "(int \<times> tracked_turn) list"
  f_outcomeDigests :: "(string \<times> string) list"
  f_progressEntries :: "progress_entry list"
  f_steering :: "string list"
  f_externalProbe :: bool
  f_recallOnlyTurns :: nat
  f_lastSteeringTurn :: "int option"
  f_explorationCalls :: nat
  f_convergencePending :: bool
  f_convergenceSteered :: bool
  f_activityCalls :: nat
  f_durablePending :: bool
  f_durableSteered :: bool

record focus_state =
  fs_objective :: string
  fs_progressEpoch :: nat
  fs_recallOnlyTurns :: nat
  fs_outcomeDigests :: "(string \<times> string) list"
  fs_progressEntries :: "progress_entry list"
  fs_explorationCalls :: "nat option"
  fs_convergencePending :: "bool option"
  fs_activityCalls :: "nat option"
  fs_durablePending :: "bool option"
  fs_steering :: "string list option"

section \<open>Configuration and construction\<close>

record guard_config =
  gc_objective :: "string option"
  gc_maxDuplicateReads :: "int option"
  gc_recallProbeInterval :: "int option"
  gc_sustainedRecallOnlyTurns :: "int option"
  gc_steeringCooldownTurns :: "int option"
  gc_checkpointEntries :: "int option"
  gc_checkpointMaxChars :: "int option"
  gc_convergenceCalls :: "int option"
  gc_convergenceEnabled :: "bool option"
  gc_durableCalls :: "int option"
  gc_durableEnabled :: "bool option"

definition guard_options_of :: "guard_config \<Rightarrow> guard_options" where
  "guard_options_of c = \<lparr>
     go_objective = concise_objective (case gc_objective c of Some s \<Rightarrow> s | None \<Rightarrow> []),
     go_maxDuplicateReads = positive_integer (gc_maxDuplicateReads c) 2,
     go_recallProbeInterval = positive_integer (gc_recallProbeInterval c) 4,
     go_sustainedRecallOnlyTurns = positive_integer (gc_sustainedRecallOnlyTurns c) 4,
     go_steeringCooldownTurns = positive_integer (gc_steeringCooldownTurns c) 4,
     go_checkpointEntries = positive_integer (gc_checkpointEntries c) 8,
     go_checkpointMaxChars = max 900 (positive_integer (gc_checkpointMaxChars c) 4800),
     go_convergenceCalls = positive_integer (gc_convergenceCalls c) 24,
     go_convergenceEnabled = (gc_convergenceEnabled c \<noteq> Some False),
     go_durableCalls = positive_integer (gc_durableCalls c) 8,
     go_durableEnabled = (gc_durableEnabled c = Some True)\<rparr>"

definition entry_limit :: "guard_options \<Rightarrow> nat" where
  "entry_limit opt = max (go_checkpointEntries opt * 3) 24"

text \<open>\<open>xs.slice(-n)\<close> for a positive \<open>n\<close>\<close>

definition last_n :: "nat \<Rightarrow> 'a list \<Rightarrow> 'a list" where
  "last_n n xs = drop (length xs - n) xs"

definition empty_guard :: "guard_options \<Rightarrow> guard" where
  "empty_guard opt = \<lparr>f_options = opt, f_progressEpoch = 0, f_readCounts = [], f_calls = [],
     f_turns = [], f_outcomeDigests = [], f_progressEntries = [], f_steering = [],
     f_externalProbe = False, f_recallOnlyTurns = 0, f_lastSteeringTurn = None,
     f_explorationCalls = 0, f_convergencePending = False, f_convergenceSteered = False,
     f_activityCalls = 0, f_durablePending = False, f_durableSteered = False\<rparr>"

definition set_entries :: "('a \<times> 'b) list \<Rightarrow> ('a \<times> 'b) list \<Rightarrow> ('a \<times> 'b) list" where
  "set_entries kvs m = foldl (\<lambda>m (k, v). AList.update k v m) m kvs"

definition restore_guard :: "focus_state \<Rightarrow> guard \<Rightarrow> guard" where
  "restore_guard st g =
     (if fs_objective st \<noteq> go_objective (f_options g) then g
      else g\<lparr>f_progressEpoch := fs_progressEpoch st,
        f_recallOnlyTurns := fs_recallOnlyTurns st,
        f_outcomeDigests := set_entries (last_n 96 (fs_outcomeDigests st)) (f_outcomeDigests g),
        f_progressEntries := f_progressEntries g
          @ last_n (entry_limit (f_options g)) (fs_progressEntries st),
        f_explorationCalls := (case fs_explorationCalls st of Some n \<Rightarrow> n | None \<Rightarrow> 0),
        f_convergencePending := (fs_convergencePending st = Some True),
        f_activityCalls := (case fs_activityCalls st of Some n \<Rightarrow> n | None \<Rightarrow> 0),
        f_durablePending := (fs_durablePending st = Some True),
        f_steering := f_steering g @ (case fs_steering st of Some ms \<Rightarrow> ms | None \<Rightarrow> [])\<rparr>)"

section \<open>Turns\<close>

text \<open>\<open>turn(turnNumber)\<close>: find or create; creating one forgets turns more than 32 back.\<close>

definition empty_turn :: tracked_turn where
  "empty_turn = \<lparr>tt_calls = [], tt_madeProgress = False, tt_duplicateCallCount = 0,
     tt_convergenceBlockedCount = 0\<rparr>"

definition ensure_turn :: "int \<Rightarrow> guard \<Rightarrow> guard" where
  "ensure_turn n g = (case map_of (f_turns g) n of
     Some _ \<Rightarrow> g
   | None \<Rightarrow> g\<lparr>f_turns := filter (\<lambda>(k, t). \<not> k < n - 32) (AList.update n empty_turn (f_turns g))\<rparr>)"

definition turn_of :: "int \<Rightarrow> guard \<Rightarrow> tracked_turn" where
  "turn_of n g = (case map_of (f_turns g) n of Some t \<Rightarrow> t | None \<Rightarrow> empty_turn)"

definition update_turn :: "int \<Rightarrow> (tracked_turn \<Rightarrow> tracked_turn) \<Rightarrow> guard \<Rightarrow> guard" where
  "update_turn n f g = g\<lparr>f_turns := AList.update n (f (turn_of n g)) (f_turns g)\<rparr>"

section \<open>Before a tool call\<close>

definition track_call :: "tool_request \<Rightarrow> string \<Rightarrow> bool \<Rightarrow> tracked_call" where
  "track_call r fp blocked = \<lparr>r_callId = r_callId r, r_turn = r_turn r, r_toolName = r_toolName r,
     r_input = r_input r, r_kind = r_kind r, t_fingerprint = fp, t_blocked = blocked\<rparr>"

definition record_call :: "tracked_call \<Rightarrow> guard \<Rightarrow> guard" where
  "record_call c g = update_turn (r_turn c) (\<lambda>t. t\<lparr>tt_calls := tt_calls t @ [c]\<rparr>)
     (g\<lparr>f_calls := AList.update (r_callId c) c (f_calls g)\<rparr>)"

datatype block_reason =
    Durable_progress_required nat
  | Evidence_checkpoint_required nat
  | Repeated_read string nat int

definition durable_gate :: "guard \<Rightarrow> tool_request \<Rightarrow> bool" where
  "durable_gate g r \<longleftrightarrow> go_durableEnabled (f_options g) \<and> f_durablePending g
     \<and> (is_session_disposition_tool (r_toolName r)
        \<or> r_kind r = Kind_research \<and> \<not> is_durable_progress_tool (r_toolName r)
          \<and> \<not> is_operational_support_tool (r_toolName r))"

definition convergence_gate :: "guard \<Rightarrow> tool_request \<Rightarrow> bool" where
  "convergence_gate g r \<longleftrightarrow> go_convergenceEnabled (f_options g) \<and> f_convergencePending g
     \<and> is_source_exploration_tool (r_toolName r)"

text \<open>The count and the last allowed turn of a fingerprint in the current epoch.\<close>

definition current_read :: "guard \<Rightarrow> string \<Rightarrow> nat \<times> int option" where
  "current_read g fp = (case map_of (f_readCounts g) fp of
     Some rc \<Rightarrow> if rc_epoch rc = f_progressEpoch g then (rc_count rc, Some (rc_lastAllowedTurn rc))
                else (0, None)
   | None \<Rightarrow> (0, None))"

definition interval_probe_due :: "guard \<Rightarrow> string \<Rightarrow> int \<Rightarrow> bool" where
  "interval_probe_due g fp turn = (let (count, last_turn) = current_read g fp in
     count \<ge> go_maxDuplicateReads (f_options g)
     \<and> (case last_turn of None \<Rightarrow> True
        | Some l \<Rightarrow> turn - l \<ge> int (go_recallProbeInterval (f_options g))))"

definition external_probe_due :: "guard \<Rightarrow> string \<Rightarrow> int \<Rightarrow> bool" where
  "external_probe_due g fp turn \<longleftrightarrow>
     fst (current_read g fp) \<ge> go_maxDuplicateReads (f_options g)
     \<and> \<not> interval_probe_due g fp turn \<and> f_externalProbe g"

definition before_recall :: "guard \<Rightarrow> tool_request \<Rightarrow> string \<Rightarrow> guard \<times> block_reason option" where
  "before_recall g r fp =
     (let (count, last_turn) = current_read g fp;
          external = external_probe_due g fp (r_turn r);
          probe = interval_probe_due g fp (r_turn r) \<or> external;
          limit = go_maxDuplicateReads (f_options g)
      in if count \<ge> limit \<and> \<not> probe then
           (update_turn (r_turn r) (\<lambda>t. t\<lparr>tt_duplicateCallCount := tt_duplicateCallCount t + 1\<rparr>)
              (record_call (track_call r fp True) g),
            Some (Repeated_read (r_toolName r) count
              ((case last_turn of Some l \<Rightarrow> l | None \<Rightarrow> 0) + int (go_recallProbeInterval (f_options g)))))
         else
           (record_call (track_call r fp False)
              (g\<lparr>f_externalProbe := (if external then False else f_externalProbe g),
                 f_readCounts := AList.update fp
                   \<lparr>rc_epoch = f_progressEpoch g, rc_count = (if probe then limit else count + 1),
                    rc_lastAllowedTurn = r_turn r\<rparr> (f_readCounts g)\<rparr>),
            None))"

definition before_tool_call ::
  "(string \<Rightarrow> string) \<Rightarrow> guard \<Rightarrow> tool_request \<Rightarrow> guard \<times> block_reason option" where
  "before_tool_call sha g0 r =
     (let fp = tool_fingerprint sha (r_toolName r) (r_input r);
          g = ensure_turn (r_turn r) g0
      in if durable_gate g r then
           (record_call (track_call r fp True) g, Some (Durable_progress_required (f_activityCalls g)))
         else if convergence_gate g r then
           (update_turn (r_turn r) (\<lambda>t. t\<lparr>tt_convergenceBlockedCount := tt_convergenceBlockedCount t + 1\<rparr>)
              (record_call (track_call r fp True) g),
            Some (Evidence_checkpoint_required (f_explorationCalls g)))
         else if r_kind r \<noteq> Kind_recall then (record_call (track_call r fp False) g, None)
         else before_recall g r fp)"

section \<open>After a tool call\<close>

definition completed_status :: "string \<Rightarrow> bool" where
  "completed_status s \<longleftrightarrow> js_lower s \<in> set [''complete'', ''completed'', ''success'']"

definition note_exploration :: "string \<Rightarrow> guard \<Rightarrow> guard" where
  "note_exploration tool g =
     (if go_convergenceEnabled (f_options g) \<and> is_convergence_resolution_tool tool then
        g\<lparr>f_explorationCalls := 0, f_convergencePending := False, f_convergenceSteered := False\<rparr>
      else if go_convergenceEnabled (f_options g) \<and> is_source_exploration_tool tool then
        g\<lparr>f_explorationCalls := f_explorationCalls g + 1,
          f_convergencePending := (f_convergencePending g
            \<or> f_explorationCalls g + 1 \<ge> go_convergenceCalls (f_options g))\<rparr>
      else g)"

definition note_durable_activity :: "tracked_call \<Rightarrow> bool \<Rightarrow> guard \<Rightarrow> guard" where
  "note_durable_activity c changed g =
     (if go_durableEnabled (f_options g) \<and> is_durable_progress_tool (r_toolName c) then
        g\<lparr>f_activityCalls := 0, f_durablePending := False, f_durableSteered := False\<rparr>
      else if go_durableEnabled (f_options g) \<and> r_kind c = Kind_research \<and> changed
        \<and> is_evidence_activity_tool (r_toolName c) then
        g\<lparr>f_activityCalls := f_activityCalls g + 1,
          f_durablePending := (f_durablePending g
            \<or> f_activityCalls g + 1 \<ge> go_durableCalls (f_options g))\<rparr>
      else g)"

text \<open>\<open>rememberProgress\<close>: newest last, one entry per key, the oldest dropped.\<close>

definition remember_progress :: "progress_entry \<Rightarrow> guard \<Rightarrow> guard" where
  "remember_progress e g =
     (let old = f_progressEntries g;
          without = (if list_ex (\<lambda>x. pe_key x = pe_key e) old
                     then takeWhile (\<lambda>x. pe_key x \<noteq> pe_key e) old
                          @ tl (dropWhile (\<lambda>x. pe_key x \<noteq> pe_key e) old)
                     else old);
          new = without @ [e]; limit = entry_limit (f_options g)
      in g\<lparr>f_progressEntries := (if length new > limit then drop (length new - limit) new else new)\<rparr>)"

definition artifact_labels :: "tool_outcome \<Rightarrow> string list" where
  "artifact_labels oc = filter (\<lambda>s. s \<noteq> [])
     (map (\<lambda>a. let i = (case ar_id a of Some s \<Rightarrow> js_trim s | None \<Rightarrow> []);
                   s = (case ar_summary a of Some s \<Rightarrow> js_trim s | None \<Rightarrow> [])
               in if i \<noteq> [] then i else s)
        (case o_artifactRefs oc of Some xs \<Rightarrow> xs | None \<Rightarrow> []))"

definition default_outcome_summary :: "tracked_call \<Rightarrow> string" where
  "default_outcome_summary c = r_toolName c @ '' completed for '' @ summarize_input (r_input c) @ ''.''"

definition progress_of :: "tracked_call \<Rightarrow> string \<Rightarrow> tool_outcome \<Rightarrow> progress_entry" where
  "progress_of c digest oc = \<lparr>pe_key = t_fingerprint c @ '':'' @ digest,
     pe_toolName = r_toolName c, pe_inputSummary = summarize_input (r_input c),
     pe_summary = bounded_text (case o_summary oc of
         Some s \<Rightarrow> if s \<noteq> [] then s else default_outcome_summary c
       | None \<Rightarrow> default_outcome_summary c) 320,
     pe_evidence = bounded_text (stable_stringify (map_option strip_volatile_fields (o_result oc))) 480,
     pe_artifactRefs = take 4 (artifact_labels oc)\<rparr>"

definition after_progress ::
  "tracked_call \<Rightarrow> bool \<Rightarrow> string \<Rightarrow> tool_outcome \<Rightarrow> guard \<Rightarrow> guard" where
  "after_progress c changed digest oc g =
     (let g1 = note_durable_activity c changed g;
          g2 = update_turn (r_turn c) (\<lambda>t. t\<lparr>tt_madeProgress := True\<rparr>) (ensure_turn (r_turn c) g1);
          g3 = g2\<lparr>f_progressEpoch := f_progressEpoch g2 + 1, f_readCounts := [],
                  f_externalProbe := False, f_recallOnlyTurns := 0\<rparr>
      in remember_progress (progress_of c digest oc) g3)"

definition after_tool_call :: "(string \<Rightarrow> string) \<Rightarrow> guard \<Rightarrow> tool_outcome \<Rightarrow> guard" where
  "after_tool_call sha g oc = (case map_of (f_calls g) (o_callId oc) of
     None \<Rightarrow> g
   | Some c \<Rightarrow>
       if t_blocked c \<or> \<not> completed_status (o_status oc) then g
       else
         (let g1 = note_exploration (r_toolName c) g;
              digest = outcome_digest sha oc;
              previous = map_of (f_outcomeDigests g1) (t_fingerprint c);
              changed = (previous = None \<or> previous \<noteq> Some digest);
              g2 = g1\<lparr>f_outcomeDigests := AList.update (t_fingerprint c) digest (f_outcomeDigests g1)\<rparr>;
              changed_recall = (r_kind c = Kind_recall \<and> previous \<noteq> None \<and> changed);
              progress = (r_kind c = Kind_research \<and> changed \<or> changed_recall
                          \<or> length (artifact_labels oc) > 0)
          in if \<not> progress then g2 else after_progress c changed digest oc g2))"

definition note_potential_external_change :: "guard \<Rightarrow> guard" where
  "note_potential_external_change g = g\<lparr>f_externalProbe := True\<rparr>"

definition guard_note_steering :: "string list \<Rightarrow> guard \<Rightarrow> guard" where
  "guard_note_steering ms g = g\<lparr>f_steering := note_steering bounded_user_steering
     max_steering_messages max_steering_chars ms (f_steering g)\<rparr>"

definition guard_replace_steering :: "string list \<Rightarrow> guard \<Rightarrow> guard" where
  "guard_replace_steering ms g = guard_note_steering ms (g\<lparr>f_steering := []\<rparr>)"

definition has_progress :: "guard \<Rightarrow> bool" where
  "has_progress g \<longleftrightarrow> length (f_progressEntries g) > 0"

section \<open>Finishing a turn\<close>

datatype steering_reason =
    Duplicate_recall | Sustained_tool_only | Convergence_checkpoint | Durable_progress_checkpoint

datatype steering_line =
    Steering_prefix
  | Steering_blank
  | Exploration_paused nat
  | Execution_paused nat
  | Repeated_reads_notice
  | Tool_only_turns nat
  | Rank_candidates
  | Convert_to_canonical_state
  | Resume_research
  | Move_inspect_or_experiment
  | Move_synthesize
  | Move_record_disposition
  | No_goal_mechanics

record turn_result =
  tr_reason :: "steering_reason option"
  tr_duplicateCallCount :: nat
  tr_recallOnlyTurns :: nat
  tr_steering :: "steering_line list option"

definition focus_steering_lines :: "steering_reason \<Rightarrow> guard \<Rightarrow> steering_line list" where
  "focus_steering_lines reason g =
     [Steering_prefix, Steering_blank,
      (case reason of
         Convergence_checkpoint \<Rightarrow> Exploration_paused (f_explorationCalls g)
       | Durable_progress_checkpoint \<Rightarrow> Execution_paused (f_activityCalls g)
       | Duplicate_recall \<Rightarrow> Repeated_reads_notice
       | Sustained_tool_only \<Rightarrow> Tool_only_turns (f_recallOnlyTurns g)),
      Steering_blank,
      (case reason of
         Convergence_checkpoint \<Rightarrow> Rank_candidates
       | Durable_progress_checkpoint \<Rightarrow> Convert_to_canonical_state
       | _ \<Rightarrow> Resume_research)]
     @ (if reason = Convergence_checkpoint then []
        else [Move_inspect_or_experiment, Move_synthesize, Move_record_disposition])
     @ [No_goal_mechanics]"

definition turn_reason :: "guard \<Rightarrow> tracked_turn \<Rightarrow> steering_reason option" where
  "turn_reason g t =
     (if go_durableEnabled (f_options g) \<and> f_durablePending g \<and> \<not> f_durableSteered g
      then Some Durable_progress_checkpoint
      else if go_convergenceEnabled (f_options g) \<and> f_convergencePending g \<and> \<not> f_convergenceSteered g
      then Some Convergence_checkpoint
      else if tt_duplicateCallCount t > 0 then Some Duplicate_recall
      else if f_recallOnlyTurns g \<ge> go_sustainedRecallOnlyTurns (f_options g)
      then Some Sustained_tool_only else None)"

definition cooldown_satisfied :: "guard \<Rightarrow> steering_reason option \<Rightarrow> int \<Rightarrow> bool" where
  "cooldown_satisfied g reason n \<longleftrightarrow>
     reason = Some Convergence_checkpoint \<or> reason = Some Durable_progress_checkpoint
     \<or> (case f_lastSteeringTurn g of None \<Rightarrow> True
        | Some l \<Rightarrow> n - l \<ge> int (go_steeringCooldownTurns (f_options g)))"

definition finish_turn :: "int \<Rightarrow> bool \<Rightarrow> guard \<Rightarrow> guard \<times> turn_result" where
  "finish_turn n tool_only g =
     (let quiet = (\<lambda>d k. \<lparr>tr_reason = None, tr_duplicateCallCount = d, tr_recallOnlyTurns = k,
                          tr_steering = None\<rparr>) in
      case map_of (f_turns g) n of
        None \<Rightarrow> (g\<lparr>f_recallOnlyTurns := 0\<rparr>, quiet 0 0)
      | Some t \<Rightarrow>
          if length (tt_calls t) = 0 then (g\<lparr>f_recallOnlyTurns := 0\<rparr>, quiet 0 0)
          else
            (let g1 = g\<lparr>f_recallOnlyTurns :=
                          (if tool_only \<and> \<not> tt_madeProgress t then f_recallOnlyTurns g + 1 else 0)\<rparr>;
                 reason = turn_reason g1 t
             in case reason of
                  None \<Rightarrow> (g1, quiet (tt_duplicateCallCount t) (f_recallOnlyTurns g1))
                | Some why \<Rightarrow>
                    if \<not> cooldown_satisfied g1 reason n
                    then (g1, quiet (tt_duplicateCallCount t) (f_recallOnlyTurns g1))
                    else (let g2 = g1\<lparr>f_lastSteeringTurn := Some n,
                                f_convergenceSteered := (f_convergenceSteered g1 \<or> why = Convergence_checkpoint),
                                f_durableSteered := (f_durableSteered g1 \<or> why = Durable_progress_checkpoint)\<rparr>
                          in (g2, \<lparr>tr_reason = reason, tr_duplicateCallCount = tt_duplicateCallCount t,
                                   tr_recallOnlyTurns = f_recallOnlyTurns g2,
                                   tr_steering = Some (focus_steering_lines why g2)\<rparr>))))"

end
