(* ===== verification/Focus_Properties.thy ===== *)
theory Focus_Properties
  imports Focus_State
begin

text \<open>
  What the focus guard guarantees: the invariant of every reachable guard, the read budget of
  an epoch, when progress is credited, the two checkpoints, when a turn is steered, and what
  survives a compaction or a restart.
\<close>

section \<open>Frames\<close>

lemma update_turn_frame [simp]:
  "f_options (update_turn n h g) = f_options g" "f_progressEpoch (update_turn n h g) = f_progressEpoch g"
  "f_readCounts (update_turn n h g) = f_readCounts g" "f_calls (update_turn n h g) = f_calls g"
  "f_outcomeDigests (update_turn n h g) = f_outcomeDigests g"
  "f_progressEntries (update_turn n h g) = f_progressEntries g" "f_steering (update_turn n h g) = f_steering g"
  "f_externalProbe (update_turn n h g) = f_externalProbe g"
  "f_recallOnlyTurns (update_turn n h g) = f_recallOnlyTurns g"
  "f_lastSteeringTurn (update_turn n h g) = f_lastSteeringTurn g"
  "f_explorationCalls (update_turn n h g) = f_explorationCalls g"
  "f_convergencePending (update_turn n h g) = f_convergencePending g"
  "f_convergenceSteered (update_turn n h g) = f_convergenceSteered g"
  "f_activityCalls (update_turn n h g) = f_activityCalls g"
  "f_durablePending (update_turn n h g) = f_durablePending g"
  "f_durableSteered (update_turn n h g) = f_durableSteered g"
  by (simp_all add: update_turn_def)

lemma ensure_turn_frame [simp]:
  "f_options (ensure_turn n g) = f_options g" "f_progressEpoch (ensure_turn n g) = f_progressEpoch g"
  "f_readCounts (ensure_turn n g) = f_readCounts g" "f_calls (ensure_turn n g) = f_calls g"
  "f_outcomeDigests (ensure_turn n g) = f_outcomeDigests g"
  "f_progressEntries (ensure_turn n g) = f_progressEntries g" "f_steering (ensure_turn n g) = f_steering g"
  "f_externalProbe (ensure_turn n g) = f_externalProbe g"
  "f_recallOnlyTurns (ensure_turn n g) = f_recallOnlyTurns g"
  "f_lastSteeringTurn (ensure_turn n g) = f_lastSteeringTurn g"
  "f_explorationCalls (ensure_turn n g) = f_explorationCalls g"
  "f_convergencePending (ensure_turn n g) = f_convergencePending g"
  "f_convergenceSteered (ensure_turn n g) = f_convergenceSteered g"
  "f_activityCalls (ensure_turn n g) = f_activityCalls g"
  "f_durablePending (ensure_turn n g) = f_durablePending g"
  "f_durableSteered (ensure_turn n g) = f_durableSteered g"
  by (simp_all add: ensure_turn_def split: option.splits)

lemma record_call_frame [simp]:
  "f_options (record_call c g) = f_options g" "f_progressEpoch (record_call c g) = f_progressEpoch g"
  "f_readCounts (record_call c g) = f_readCounts g"
  "f_calls (record_call c g) = AList.update (r_callId c) c (f_calls g)"
  "f_outcomeDigests (record_call c g) = f_outcomeDigests g"
  "f_progressEntries (record_call c g) = f_progressEntries g" "f_steering (record_call c g) = f_steering g"
  "f_externalProbe (record_call c g) = f_externalProbe g"
  "f_recallOnlyTurns (record_call c g) = f_recallOnlyTurns g"
  "f_lastSteeringTurn (record_call c g) = f_lastSteeringTurn g"
  "f_explorationCalls (record_call c g) = f_explorationCalls g"
  "f_convergencePending (record_call c g) = f_convergencePending g"
  "f_convergenceSteered (record_call c g) = f_convergenceSteered g"
  "f_activityCalls (record_call c g) = f_activityCalls g"
  "f_durablePending (record_call c g) = f_durablePending g"
  "f_durableSteered (record_call c g) = f_durableSteered g"
  by (simp_all add: record_call_def)

lemma track_call_simps [simp]:
  "r_callId (track_call r fp b) = r_callId r" "r_turn (track_call r fp b) = r_turn r"
  "r_toolName (track_call r fp b) = r_toolName r" "r_kind (track_call r fp b) = r_kind r"
  "r_input (track_call r fp b) = r_input r"
  "t_fingerprint (track_call r fp b) = fp" "t_blocked (track_call r fp b) = b"
  by (simp_all add: track_call_def)

lemma gates_ensure_turn [simp]:
  "durable_gate (ensure_turn n g) r = durable_gate g r"
  "convergence_gate (ensure_turn n g) r = convergence_gate g r"
  by (simp_all add: durable_gate_def convergence_gate_def)

lemma current_read_ensure_turn [simp]: "current_read (ensure_turn n g) fp = current_read g fp"
  by (simp add: current_read_def split: option.split)

lemma current_read_cong:
  "f_readCounts g' = f_readCounts g \<Longrightarrow> f_progressEpoch g' = f_progressEpoch g \<Longrightarrow>
   current_read g' fp = current_read g fp"
  by (simp add: current_read_def cong: option.case_cong)

lemma probes_ensure_turn [simp]:
  "interval_probe_due (ensure_turn n g) fp t = interval_probe_due g fp t"
  "external_probe_due (ensure_turn n g) fp t = external_probe_due g fp t"
  by (simp_all add: interval_probe_due_def external_probe_due_def split: option.split prod.split)

lemma before_recall_frame [simp]:
  "f_options (fst (before_recall g r fp)) = f_options g"
  "f_progressEpoch (fst (before_recall g r fp)) = f_progressEpoch g"
  "f_outcomeDigests (fst (before_recall g r fp)) = f_outcomeDigests g"
  "f_progressEntries (fst (before_recall g r fp)) = f_progressEntries g"
  "f_steering (fst (before_recall g r fp)) = f_steering g"
  "f_explorationCalls (fst (before_recall g r fp)) = f_explorationCalls g"
  "f_convergencePending (fst (before_recall g r fp)) = f_convergencePending g"
  "f_convergenceSteered (fst (before_recall g r fp)) = f_convergenceSteered g"
  "f_activityCalls (fst (before_recall g r fp)) = f_activityCalls g"
  "f_durablePending (fst (before_recall g r fp)) = f_durablePending g"
  "f_durableSteered (fst (before_recall g r fp)) = f_durableSteered g"
  "f_lastSteeringTurn (fst (before_recall g r fp)) = f_lastSteeringTurn g"
  by (simp_all add: before_recall_def Let_def split: prod.splits)

lemma before_tool_call_frame [simp]:
  "f_options (fst (before_tool_call sha g r)) = f_options g"
  "f_progressEpoch (fst (before_tool_call sha g r)) = f_progressEpoch g"
  "f_outcomeDigests (fst (before_tool_call sha g r)) = f_outcomeDigests g"
  "f_progressEntries (fst (before_tool_call sha g r)) = f_progressEntries g"
  "f_steering (fst (before_tool_call sha g r)) = f_steering g"
  "f_explorationCalls (fst (before_tool_call sha g r)) = f_explorationCalls g"
  "f_convergencePending (fst (before_tool_call sha g r)) = f_convergencePending g"
  "f_convergenceSteered (fst (before_tool_call sha g r)) = f_convergenceSteered g"
  "f_activityCalls (fst (before_tool_call sha g r)) = f_activityCalls g"
  "f_durablePending (fst (before_tool_call sha g r)) = f_durablePending g"
  "f_durableSteered (fst (before_tool_call sha g r)) = f_durableSteered g"
  "f_lastSteeringTurn (fst (before_tool_call sha g r)) = f_lastSteeringTurn g"
  by (simp_all add: before_tool_call_def Let_def)

lemma note_exploration_frame [simp]:
  "f_options (note_exploration t g) = f_options g" "f_progressEpoch (note_exploration t g) = f_progressEpoch g"
  "f_readCounts (note_exploration t g) = f_readCounts g" "f_calls (note_exploration t g) = f_calls g"
  "f_turns (note_exploration t g) = f_turns g"
  "f_outcomeDigests (note_exploration t g) = f_outcomeDigests g"
  "f_progressEntries (note_exploration t g) = f_progressEntries g"
  "f_steering (note_exploration t g) = f_steering g" "f_externalProbe (note_exploration t g) = f_externalProbe g"
  "f_activityCalls (note_exploration t g) = f_activityCalls g"
  "f_durablePending (note_exploration t g) = f_durablePending g"
  by (simp_all add: note_exploration_def)

lemma note_durable_activity_frame [simp]:
  "f_options (note_durable_activity c b g) = f_options g"
  "f_progressEpoch (note_durable_activity c b g) = f_progressEpoch g"
  "f_readCounts (note_durable_activity c b g) = f_readCounts g"
  "f_calls (note_durable_activity c b g) = f_calls g" "f_turns (note_durable_activity c b g) = f_turns g"
  "f_outcomeDigests (note_durable_activity c b g) = f_outcomeDigests g"
  "f_progressEntries (note_durable_activity c b g) = f_progressEntries g"
  "f_steering (note_durable_activity c b g) = f_steering g"
  "f_explorationCalls (note_durable_activity c b g) = f_explorationCalls g"
  "f_convergencePending (note_durable_activity c b g) = f_convergencePending g"
  by (simp_all add: note_durable_activity_def)

lemma remember_progress_frame [simp]:
  "f_options (remember_progress e g) = f_options g" "f_progressEpoch (remember_progress e g) = f_progressEpoch g"
  "f_readCounts (remember_progress e g) = f_readCounts g" "f_calls (remember_progress e g) = f_calls g"
  "f_turns (remember_progress e g) = f_turns g"
  "f_outcomeDigests (remember_progress e g) = f_outcomeDigests g"
  "f_steering (remember_progress e g) = f_steering g"
  "f_externalProbe (remember_progress e g) = f_externalProbe g"
  "f_explorationCalls (remember_progress e g) = f_explorationCalls g"
  "f_convergencePending (remember_progress e g) = f_convergencePending g"
  "f_activityCalls (remember_progress e g) = f_activityCalls g"
  "f_durablePending (remember_progress e g) = f_durablePending g"
  "f_durableSteered (remember_progress e g) = f_durableSteered g"
  by (simp_all add: remember_progress_def Let_def)

text \<open>The fields a completed, unblocked call may change, one at a time.\<close>

lemma after_progress_fields [simp]:
  "f_options (after_progress c ch d oc g) = f_options g"
  "f_progressEpoch (after_progress c ch d oc g) = f_progressEpoch g + 1"
  "f_readCounts (after_progress c ch d oc g) = []"
  "f_externalProbe (after_progress c ch d oc g) = False"
  "f_outcomeDigests (after_progress c ch d oc g) = f_outcomeDigests g"
  "f_steering (after_progress c ch d oc g) = f_steering g"
  "f_calls (after_progress c ch d oc g) = f_calls g"
  "f_explorationCalls (after_progress c ch d oc g) = f_explorationCalls g"
  "f_convergencePending (after_progress c ch d oc g) = f_convergencePending g"
  "f_activityCalls (after_progress c ch d oc g) = f_activityCalls (note_durable_activity c ch g)"
  "f_durablePending (after_progress c ch d oc g) = f_durablePending (note_durable_activity c ch g)"
  by (simp_all add: after_progress_def Let_def)

lemma finish_turn_frame [simp]:
  "f_options (fst (finish_turn n b g)) = f_options g"
  "f_progressEpoch (fst (finish_turn n b g)) = f_progressEpoch g"
  "f_readCounts (fst (finish_turn n b g)) = f_readCounts g" "f_calls (fst (finish_turn n b g)) = f_calls g"
  "f_turns (fst (finish_turn n b g)) = f_turns g"
  "f_outcomeDigests (fst (finish_turn n b g)) = f_outcomeDigests g"
  "f_progressEntries (fst (finish_turn n b g)) = f_progressEntries g"
  "f_steering (fst (finish_turn n b g)) = f_steering g"
  "f_externalProbe (fst (finish_turn n b g)) = f_externalProbe g"
  "f_explorationCalls (fst (finish_turn n b g)) = f_explorationCalls g"
  "f_convergencePending (fst (finish_turn n b g)) = f_convergencePending g"
  "f_activityCalls (fst (finish_turn n b g)) = f_activityCalls g"
  "f_durablePending (fst (finish_turn n b g)) = f_durablePending g"
  by (simp_all add: finish_turn_def Let_def split: option.splits)


section \<open>Runs of the guard\<close>

datatype focus_event =
    Before tool_request
  | After tool_outcome
  | External_change
  | Note_user "string list"
  | Replace_user "string list"
  | Finish int bool

definition focus_step :: "(string \<Rightarrow> string) \<Rightarrow> guard \<Rightarrow> focus_event \<Rightarrow> guard" where
  "focus_step sha g ev = (case ev of
     Before r \<Rightarrow> fst (before_tool_call sha g r)
   | After oc \<Rightarrow> after_tool_call sha g oc
   | External_change \<Rightarrow> note_potential_external_change g
   | Note_user ms \<Rightarrow> guard_note_steering ms g
   | Replace_user ms \<Rightarrow> guard_replace_steering ms g
   | Finish n b \<Rightarrow> fst (finish_turn n b g))"

text \<open>The tools whose completed, unblocked calls the guard has counted.\<close>

definition counted_tool :: "guard \<Rightarrow> focus_event \<Rightarrow> string list" where
  "counted_tool g ev = (case ev of
     After oc \<Rightarrow> (case map_of (f_calls g) (o_callId oc) of
         Some c \<Rightarrow> if t_blocked c \<or> \<not> completed_status (o_status oc) then [] else [r_toolName c]
       | None \<Rightarrow> [])
   | _ \<Rightarrow> [])"

fun focus_run :: "(string \<Rightarrow> string) \<Rightarrow> guard \<Rightarrow> focus_event list \<Rightarrow> guard \<times> string list" where
  "focus_run sha g [] = (g, [])"
| "focus_run sha g (ev # evs) =
     (let (g', ts) = focus_run sha (focus_step sha g ev) evs in (g', counted_tool g ev @ ts))"

lemma focus_run_append:
  "focus_run sha g (evs @ evs') =
     (let (g1, ts) = focus_run sha g evs; (g2, ts') = focus_run sha g1 evs' in (g2, ts @ ts'))"
  by (induction evs arbitrary: g) (simp_all add: Let_def split: prod.splits)

text \<open>What a completed call does to a guard.\<close>

definition observed :: "(string \<Rightarrow> string) \<Rightarrow> guard \<Rightarrow> tracked_call \<Rightarrow> tool_outcome \<Rightarrow> guard" where
  "observed sha g c oc = (note_exploration (r_toolName c) g)
     \<lparr>f_outcomeDigests := AList.update (t_fingerprint c) (outcome_digest sha oc) (f_outcomeDigests g)\<rparr>"

definition outcome_changed :: "(string \<Rightarrow> string) \<Rightarrow> guard \<Rightarrow> tracked_call \<Rightarrow> tool_outcome \<Rightarrow> bool" where
  "outcome_changed sha g c oc \<longleftrightarrow>
     map_of (f_outcomeDigests g) (t_fingerprint c) \<noteq> Some (outcome_digest sha oc)"

text \<open>
  Progress is a research result that differs from the last one of the same call, a recall that
  differs from an earlier one, or any result that carries an artifact.
\<close>

definition is_progress :: "(string \<Rightarrow> string) \<Rightarrow> guard \<Rightarrow> tracked_call \<Rightarrow> tool_outcome \<Rightarrow> bool" where
  "is_progress sha g c oc \<longleftrightarrow>
     r_kind c = Kind_research \<and> outcome_changed sha g c oc
     \<or> r_kind c = Kind_recall \<and> outcome_changed sha g c oc
       \<and> map_of (f_outcomeDigests g) (t_fingerprint c) \<noteq> None
     \<or> artifact_labels oc \<noteq> []"

lemma after_tool_call_cases:
  "after_tool_call sha g oc = (case map_of (f_calls g) (o_callId oc) of
     None \<Rightarrow> g
   | Some c \<Rightarrow>
       if t_blocked c \<or> \<not> completed_status (o_status oc) then g
       else if is_progress sha g c oc
       then after_progress c (outcome_changed sha g c oc) (outcome_digest sha oc) oc (observed sha g c oc)
       else observed sha g c oc)"
proof -
  have "(v = None \<or> v \<noteq> Some d) = (v \<noteq> Some d)" for v and d :: string by auto
  then show ?thesis
    unfolding after_tool_call_def Let_def is_progress_def outcome_changed_def observed_def
    by (simp split: option.split) auto
qed

lemma observed_frame [simp]:
  "f_options (observed sha g c oc) = f_options g" "f_progressEpoch (observed sha g c oc) = f_progressEpoch g"
  "f_readCounts (observed sha g c oc) = f_readCounts g" "f_calls (observed sha g c oc) = f_calls g"
  "f_progressEntries (observed sha g c oc) = f_progressEntries g"
  "f_steering (observed sha g c oc) = f_steering g"
  "f_externalProbe (observed sha g c oc) = f_externalProbe g"
  "f_explorationCalls (observed sha g c oc) = f_explorationCalls (note_exploration (r_toolName c) g)"
  "f_convergencePending (observed sha g c oc) = f_convergencePending (note_exploration (r_toolName c) g)"
  "f_activityCalls (observed sha g c oc) = f_activityCalls g"
  "f_durablePending (observed sha g c oc) = f_durablePending g"
  "f_outcomeDigests (observed sha g c oc) =
     AList.update (t_fingerprint c) (outcome_digest sha oc) (f_outcomeDigests g)"
  by (simp_all add: observed_def)

section \<open>The invariant\<close>

definition reads_within :: "nat \<Rightarrow> nat \<Rightarrow> (string \<times> read_count) list \<Rightarrow> bool" where
  "reads_within limit epoch rcs \<longleftrightarrow> distinct (map fst rcs)
     \<and> (\<forall>x \<in> set rcs. rc_epoch (snd x) = epoch \<and> 1 \<le> rc_count (snd x) \<and> rc_count (snd x) \<le> limit)"

definition reads_ok :: "guard \<Rightarrow> bool" where
  "reads_ok g \<longleftrightarrow> reads_within (go_maxDuplicateReads (f_options g)) (f_progressEpoch g) (f_readCounts g)"

lemma reads_within_Nil [simp]: "reads_within limit epoch []"
  by (simp add: reads_within_def)

definition guard_inv :: "guard_options \<Rightarrow> guard \<Rightarrow> bool" where
  "guard_inv opt g \<longleftrightarrow> f_options g = opt
     \<and> reads_within (go_maxDuplicateReads opt) (f_progressEpoch g) (f_readCounts g)
     \<and> length (f_progressEntries g) \<le> entry_limit opt
     \<and> stored_steering_ok (f_steering g)
     \<and> distinct (map fst (f_outcomeDigests g))"

lemma guard_invI:
  assumes "f_options g = opt" "reads_ok g" "length (f_progressEntries g) \<le> entry_limit opt"
    "stored_steering_ok (f_steering g)" "distinct (map fst (f_outcomeDigests g))"
  shows "guard_inv opt g"
  using assms by (auto simp: guard_inv_def reads_ok_def)

lemma set_update_subset: "set (AList.update k v m) \<subseteq> insert (k, v) (set m)"
  by (induction m) auto

lemma reads_ok_update:
  assumes "reads_ok g" "1 \<le> n" "n \<le> go_maxDuplicateReads (f_options g)"
    "f_readCounts g' = AList.update fp \<lparr>rc_epoch = f_progressEpoch g, rc_count = n, rc_lastAllowedTurn = t\<rparr>
       (f_readCounts g)"
    "f_progressEpoch g' = f_progressEpoch g" "f_options g' = f_options g"
  shows "reads_ok g'"
proof -
  have "set (f_readCounts g') \<subseteq> insert (fp, \<lparr>rc_epoch = f_progressEpoch g, rc_count = n, rc_lastAllowedTurn = t\<rparr>)
      (set (f_readCounts g))"
    using assms(4) set_update_subset by simp
  then show ?thesis
    using assms by (auto simp: reads_ok_def reads_within_def distinct_update)
qed

lemma positive_integer_pos: "0 < d \<Longrightarrow> 0 < positive_integer v d"
  by (simp add: positive_integer_def split: option.split)

lemma before_recall_reads_ok:
  assumes "reads_ok g" "1 \<le> go_maxDuplicateReads (f_options g)"
  shows "reads_ok (fst (before_recall g r fp))"
proof -
  obtain n l where n: "current_read g fp = (n, l)" by fastforce
  show ?thesis
  proof (cases "go_maxDuplicateReads (f_options g) \<le> n
      \<and> \<not> (interval_probe_due g fp (r_turn r) \<or> external_probe_due g fp (r_turn r))")
    case True
    then show ?thesis using assms(1) n by (simp add: before_recall_def Let_def reads_ok_def)
  next
    case False
    let ?probe = "interval_probe_due g fp (r_turn r) \<or> external_probe_due g fp (r_turn r)"
    have bound: "(if ?probe then go_maxDuplicateReads (f_options g) else n + 1)
        \<le> go_maxDuplicateReads (f_options g)" using False by auto
    have pos: "1 \<le> (if ?probe then go_maxDuplicateReads (f_options g) else n + 1)"
      using assms(2) by simp
    show ?thesis
      by (rule reads_ok_update [OF assms(1) pos bound, of _ fp "r_turn r"])
        (use False n in \<open>auto simp: before_recall_def Let_def\<close>)
  qed
qed

lemma before_tool_call_inv [keeps_inv]:
  assumes "guard_inv opt g" "1 \<le> go_maxDuplicateReads opt"
  shows "guard_inv opt (fst (before_tool_call sha g r))"
proof -
  have "reads_ok (ensure_turn (r_turn r) g)"
    using assms by (simp add: guard_inv_def reads_ok_def)
  then have "reads_ok (fst (before_tool_call sha g r))"
    using assms before_recall_reads_ok [of "ensure_turn (r_turn r) g"]
    by (simp add: before_tool_call_def Let_def guard_inv_def) (simp add: reads_ok_def)
  with assms show ?thesis by (simp add: guard_inv_def reads_ok_def)
qed

lemma length_remember: "length (f_progressEntries (remember_progress e g)) \<le> entry_limit (f_options g)"
  by (auto simp: remember_progress_def Let_def entry_limit_def)

lemma after_tool_call_inv [keeps_inv]:
  assumes "guard_inv opt g" shows "guard_inv opt (after_tool_call sha g oc)"
proof -
  have obs: "guard_inv opt (observed sha g c oc)" for c
    using assms by (simp add: guard_inv_def reads_ok_def distinct_update)
  have "guard_inv opt (after_progress c b d oc h)" if h: "guard_inv opt h" for c b d h
  proof (rule guard_invI)
    show "length (f_progressEntries (after_progress c b d oc h)) \<le> entry_limit opt"
      unfolding after_progress_def Let_def
      by (rule order_trans [OF length_remember]) (use h in \<open>simp add: guard_inv_def\<close>)
  qed (use h in \<open>simp_all add: guard_inv_def reads_ok_def\<close>)
  with obs assms show ?thesis
    by (simp add: after_tool_call_cases split: option.split)
qed

lemma external_change_inv [keeps_inv]:
  "guard_inv opt g \<Longrightarrow> guard_inv opt (note_potential_external_change g)"
  by (simp add: guard_inv_def reads_ok_def note_potential_external_change_def)

lemma finish_turn_inv [keeps_inv]: "guard_inv opt g \<Longrightarrow> guard_inv opt (fst (finish_turn n b g))"
  by (simp add: guard_inv_def reads_ok_def)


lemma stored_steering_note:
  assumes "stored_steering_ok q"
  shows "stored_steering_ok (note_steering bounded_user_steering max_steering_messages max_steering_chars ms q)"
proof -
  have q: "length m \<le> max_steering_message_chars \<and> js_trim m \<noteq> []" if "m \<in> set q" for m
    using assms that by (simp add: stored_steering_ok_def list_all_iff)
  have "length m \<le> max_steering_message_chars \<and> js_trim m \<noteq> []"
    if "m \<in> set (focus_steering.noted ms q)" for m
    using focus_steering.note_sources [OF that] q bounded_user_steering_length bounded_user_steering_trimmed
    by auto
  then show ?thesis
    using focus_steering.note_sizes [of q ms] q by (auto simp: stored_steering_ok_def list_all_iff)
qed

lemma note_user_inv [keeps_inv]: "guard_inv opt g \<Longrightarrow> guard_inv opt (guard_note_steering ms g)"
  by (simp add: guard_inv_def guard_note_steering_def stored_steering_note)

lemma replace_user_inv [keeps_inv]: "guard_inv opt g \<Longrightarrow> guard_inv opt (guard_replace_steering ms g)"
  by (auto simp: guard_replace_steering_def guard_inv_def guard_note_steering_def
      intro!: stored_steering_note) (simp add: stored_steering_ok_def)

lemma focus_step_inv:
  "guard_inv opt g \<Longrightarrow> 1 \<le> go_maxDuplicateReads opt \<Longrightarrow> guard_inv opt (focus_step sha g ev)"
  by (cases ev) (simp_all add: focus_step_def keeps_inv)

lemma distinct_set_entries: "distinct (map fst m) \<Longrightarrow> distinct (map fst (set_entries kvs m))"
  unfolding set_entries_def by (induction kvs arbitrary: m) (auto simp: distinct_update)

lemma length_last_n [simp]: "length (last_n n xs) = min n (length xs)"
  by (simp add: last_n_def)

lemma last_n_all: "length xs \<le> n \<Longrightarrow> last_n n xs = xs"
  by (simp add: last_n_def)

lemma empty_guard_inv: "guard_inv opt (empty_guard opt)"
  by (simp add: guard_inv_def empty_guard_def stored_steering_ok_def)

lemma restore_guard_inv:
  assumes "\<And>ms. fs_steering st = Some ms \<Longrightarrow> stored_steering_ok ms"
  shows "guard_inv opt (restore_guard st (empty_guard opt))"
  using assms distinct_set_entries [of "[]"]
  by (auto simp: guard_inv_def restore_guard_def empty_guard_def stored_steering_ok_def split: option.split)

lemma new_guard_inv: "guard_inv (guard_options_of c) (new_guard c initial)"
proof (cases "Option.bind initial parse_focus_state")
  case None
  then show ?thesis by (simp add: new_guard_def empty_guard_inv)
next
  case (Some st)
  then obtain v where "parse_focus_state v = Some st" by (auto simp: bind_eq_Some_conv)
  with Some show ?thesis
    by (simp add: new_guard_def restore_guard_inv parse_focus_steering)
qed

lemma guard_options_pos:
  "1 \<le> go_maxDuplicateReads (guard_options_of c)" "1 \<le> go_recallProbeInterval (guard_options_of c)"
  "1 \<le> go_steeringCooldownTurns (guard_options_of c)" "1 \<le> go_convergenceCalls (guard_options_of c)"
  "1 \<le> go_durableCalls (guard_options_of c)" "1 \<le> go_checkpointEntries (guard_options_of c)"
  "900 \<le> go_checkpointMaxChars (guard_options_of c)"
  by (simp_all add: guard_options_of_def positive_integer_pos Suc_le_eq)

inductive focus_reachable :: "(string \<Rightarrow> string) \<Rightarrow> guard_config \<Rightarrow> guard \<Rightarrow> bool"
  for sha :: "string \<Rightarrow> string" and c :: guard_config where
  Created: "focus_reachable sha c (new_guard c initial)"
| Step: "focus_reachable sha c g \<Longrightarrow> focus_reachable sha c (focus_step sha g ev)"

lemma focus_reachable_inv: "focus_reachable sha c g \<Longrightarrow> guard_inv (guard_options_of c) g"
  by (induction rule: focus_reachable.induct) (auto intro: new_guard_inv focus_step_inv guard_options_pos)

lemma focus_reachable_run: "focus_reachable sha c g \<Longrightarrow> focus_reachable sha c (fst (focus_run sha g evs))"
  by (induction evs arbitrary: g) (auto split: prod.splits dest: Step, metis Step fst_conv)


section \<open>The read budget of an epoch\<close>

fun decisions :: "(string \<Rightarrow> string) \<Rightarrow> guard \<Rightarrow> tool_request list \<Rightarrow> block_reason option list" where
  "decisions sha g [] = []"
| "decisions sha g (r # rs) =
     (let (g', d) = before_tool_call sha g r in d # decisions sha g' rs)"

lemma gates_before [simp]:
  "durable_gate (fst (before_tool_call sha g r)) q = durable_gate g q"
  "convergence_gate (fst (before_tool_call sha g r)) q = convergence_gate g q"
  by (simp_all add: durable_gate_def convergence_gate_def)

text \<open>One recall that no gate holds back, below and at the limit.\<close>

definition ungated :: "guard \<Rightarrow> tool_request \<Rightarrow> bool" where
  "ungated g r \<longleftrightarrow> r_kind r = Kind_recall \<and> \<not> durable_gate g r \<and> \<not> convergence_gate g r"

lemma ungated_before [simp]: "ungated (fst (before_tool_call sha g r)) q = ungated g q"
  by (simp add: ungated_def)

lemma before_ungated:
  "ungated g r \<Longrightarrow> before_tool_call sha g r =
     before_recall (ensure_turn (r_turn r) g) r (tool_fingerprint sha (r_toolName r) (r_input r))"
  by (simp add: before_tool_call_def ungated_def Let_def)

lemma recall_below_limit:
  assumes "ungated g r" "tool_fingerprint sha (r_toolName r) (r_input r) = fp"
    "current_read g fp = (n, l)" "n < go_maxDuplicateReads (f_options g)"
  shows "snd (before_tool_call sha g r) = None"
    "current_read (fst (before_tool_call sha g r)) fp = (n + 1, Some (r_turn r))"
    "f_externalProbe (fst (before_tool_call sha g r)) = f_externalProbe g"
proof -
  let ?e = "ensure_turn (r_turn r) g"
  have probes: "\<not> interval_probe_due g fp (r_turn r)" "\<not> external_probe_due g fp (r_turn r)"
    using assms(3,4) by (simp_all add: interval_probe_due_def external_probe_due_def)
  have b: "before_tool_call sha g r = (record_call (track_call r fp False)
      (?e\<lparr>f_externalProbe := f_externalProbe g,
          f_readCounts := AList.update fp \<lparr>rc_epoch = f_progressEpoch g, rc_count = n + 1,
            rc_lastAllowedTurn = r_turn r\<rparr> (f_readCounts g)\<rparr>), None)"
    using assms probes by (simp add: before_ungated before_recall_def)
  show "snd (before_tool_call sha g r) = None"
    "current_read (fst (before_tool_call sha g r)) fp = (n + 1, Some (r_turn r))"
    "f_externalProbe (fst (before_tool_call sha g r)) = f_externalProbe g"
    unfolding b by (simp_all add: current_read_def map_of_update)
qed

lemma recall_at_limit:
  assumes "ungated g r" "tool_fingerprint sha (r_toolName r) (r_input r) = fp"
    "current_read g fp = (n, Some l)" "go_maxDuplicateReads (f_options g) \<le> n"
    "r_turn r < l + int (go_recallProbeInterval (f_options g))" "\<not> f_externalProbe g"
  shows "snd (before_tool_call sha g r) = Some (Repeated_read (r_toolName r) n
           (l + int (go_recallProbeInterval (f_options g))))"
    "f_readCounts (fst (before_tool_call sha g r)) = f_readCounts g"
    "f_externalProbe (fst (before_tool_call sha g r)) = f_externalProbe g"
proof -
  have "\<not> interval_probe_due g fp (r_turn r)" "\<not> external_probe_due g fp (r_turn r)"
    using assms(3-) by (simp_all add: interval_probe_due_def external_probe_due_def)
  then show "snd (before_tool_call sha g r) = Some (Repeated_read (r_toolName r) n
           (l + int (go_recallProbeInterval (f_options g))))"
    "f_readCounts (fst (before_tool_call sha g r)) = f_readCounts g"
    "f_externalProbe (fst (before_tool_call sha g r)) = f_externalProbe g"
    using assms by (simp_all add: before_ungated before_recall_def)
qed

lemma read_budget_from:
  assumes "\<forall>r \<in> set rs. ungated g r \<and> tool_fingerprint sha (r_toolName r) (r_input r) = fp
      \<and> t0 \<le> r_turn r \<and> r_turn r < t0 + int (go_recallProbeInterval (f_options g))"
    and "current_read g fp = (n, l)" "n \<le> go_maxDuplicateReads (f_options g)"
    and "n = 0 \<or> (\<exists>k. l = Some k \<and> t0 \<le> k)" "1 \<le> go_maxDuplicateReads (f_options g)"
    and "\<not> f_externalProbe g"
  shows "map (\<lambda>d. d = None) (decisions sha g rs) =
    replicate (min (length rs) (go_maxDuplicateReads (f_options g) - n)) True
      @ replicate (length rs - (go_maxDuplicateReads (f_options g) - n)) False"
  using assms
proof (induction rs arbitrary: g n l)
  case (Cons r rs)
  obtain g' d where step: "before_tool_call sha g r = (g', d)" by fastforce
  have g': "g' = fst (before_tool_call sha g r)" "d = snd (before_tool_call sha g r)"
    by (simp_all add: step)
  have r: "ungated g r" "tool_fingerprint sha (r_toolName r) (r_input r) = fp" "t0 \<le> r_turn r"
    "r_turn r < t0 + int (go_recallProbeInterval (f_options g))"
    using Cons.prems(1) by auto
  have rest: "\<forall>q \<in> set rs. ungated g' q \<and> tool_fingerprint sha (r_toolName q) (r_input q) = fp
      \<and> t0 \<le> r_turn q \<and> r_turn q < t0 + int (go_recallProbeInterval (f_options g'))"
    using Cons.prems(1) by (simp add: g')
  have opt: "f_options g' = f_options g" by (simp add: g')
  show ?case
  proof (cases "n < go_maxDuplicateReads (f_options g)")
    case True
    note b = recall_below_limit [OF r(1,2) Cons.prems(2) True]
    have "map (\<lambda>d. d = None) (decisions sha g' rs) =
      replicate (min (length rs) (go_maxDuplicateReads (f_options g') - (n + 1))) True
      @ replicate (length rs - (go_maxDuplicateReads (f_options g') - (n + 1))) False"
      by (rule Cons.IH [OF rest, of "n + 1" "Some (r_turn r)"])
        (use b r Cons.prems True in \<open>auto simp: g'\<close>)
    moreover have "go_maxDuplicateReads (f_options g) - n = Suc (go_maxDuplicateReads (f_options g) - (n + 1))"
      using True by simp
    ultimately show ?thesis
      using b(1) by (simp add: step g'(2) [symmetric] opt)
  next
    case False
    with Cons.prems(3,4,5) obtain k where k: "l = Some k" "t0 \<le> k" by auto
    have lim: "go_maxDuplicateReads (f_options g) \<le> n" "n = go_maxDuplicateReads (f_options g)"
      using False Cons.prems(3) by auto
    have "r_turn r < k + int (go_recallProbeInterval (f_options g))" using r k by simp
    note b = recall_at_limit [OF r(1,2) Cons.prems(2) [unfolded k(1)] lim(1) this Cons.prems(6)]
    have "current_read g' fp = (n, l)"
      using b(2) Cons.prems(2) current_read_cong [of g' g] by (simp add: g')
    then have "map (\<lambda>d. d = None) (decisions sha g' rs) =
      replicate (min (length rs) (go_maxDuplicateReads (f_options g') - n)) True
      @ replicate (length rs - (go_maxDuplicateReads (f_options g') - n)) False"
      using Cons.IH [OF rest] Cons.prems b(3) k by (auto simp: opt g'(1) [symmetric])
    then show ?thesis
      using b(1) lim by (simp add: step g'(2) [symmetric] opt)
  qed
qed simp


section \<open>The convergence checkpoint\<close>

definition explorations_since :: "string list \<Rightarrow> nat" where
  "explorations_since ts = length (filter is_source_exploration_tool
     (takeWhile (\<lambda>t. \<not> is_convergence_resolution_tool t) (rev ts)))"

lemma explorations_since_snoc:
  "explorations_since (ts @ [t]) =
     (if is_convergence_resolution_tool t then 0
      else if is_source_exploration_tool t then explorations_since ts + 1 else explorations_since ts)"
  by (simp add: explorations_since_def)

definition convergence_sync :: "guard_options \<Rightarrow> string list \<Rightarrow> guard \<Rightarrow> bool" where
  "convergence_sync opt ts g \<longleftrightarrow> f_options g = opt \<and> f_explorationCalls g = explorations_since ts
     \<and> (f_convergencePending g \<longleftrightarrow> go_convergenceCalls opt \<le> explorations_since ts)"

lemma note_exploration_sync:
  assumes "convergence_sync opt ts g" "go_convergenceEnabled opt" "1 \<le> go_convergenceCalls opt"
  shows "convergence_sync opt (ts @ [t]) (note_exploration t g)"
  using assms resolution_tool_not_exploration [of t]
  by (auto simp: convergence_sync_def note_exploration_def explorations_since_snoc)

lemma convergence_sync_cong:
  "f_options g' = f_options g \<Longrightarrow> f_explorationCalls g' = f_explorationCalls g \<Longrightarrow>
   f_convergencePending g' = f_convergencePending g \<Longrightarrow> convergence_sync opt ts g' = convergence_sync opt ts g"
  by (simp add: convergence_sync_def)

lemma focus_step_sync:
  assumes "convergence_sync opt ts g" "go_convergenceEnabled opt" "1 \<le> go_convergenceCalls opt"
  shows "convergence_sync opt (ts @ counted_tool g ev) (focus_step sha g ev)"
proof (cases ev)
  case (After oc)
  show ?thesis
  proof (cases "map_of (f_calls g) (o_callId oc)")
    case None
    with After assms(1) show ?thesis by (simp add: focus_step_def counted_tool_def after_tool_call_cases)
  next
    case (Some c)
    show ?thesis
    proof (cases "t_blocked c \<or> \<not> completed_status (o_status oc)")
      case True
      with After Some assms(1) show ?thesis
        by (auto simp: focus_step_def counted_tool_def after_tool_call_cases)
    next
      case False
      let ?n = "note_exploration (r_toolName c) g"
      have "convergence_sync opt (ts @ [r_toolName c]) (observed sha g c oc) =
          convergence_sync opt (ts @ [r_toolName c]) ?n"
        by (rule convergence_sync_cong) simp_all
      moreover have "convergence_sync opt (ts @ [r_toolName c]) (after_progress c b d oc (observed sha g c oc)) =
          convergence_sync opt (ts @ [r_toolName c]) ?n" for b d
        by (rule convergence_sync_cong) simp_all
      ultimately show ?thesis
        using After Some False note_exploration_sync [OF assms, of "r_toolName c"]
        by (simp add: focus_step_def counted_tool_def after_tool_call_cases)
    qed
  qed
qed (use assms(1) in \<open>simp_all add: focus_step_def counted_tool_def convergence_sync_def
       note_potential_external_change_def guard_note_steering_def guard_replace_steering_def\<close>)

lemma focus_run_sync:
  assumes "go_convergenceEnabled opt" "1 \<le> go_convergenceCalls opt" "convergence_sync opt ts g"
    "focus_run sha g evs = (g', ts')"
  shows "convergence_sync opt (ts @ ts') g'"
  using assms(3,4)
proof (induction evs arbitrary: g ts ts')
  case (Cons ev evs)
  then obtain us where us: "focus_run sha (focus_step sha g ev) evs = (g', us)"
    "ts' = counted_tool g ev @ us" by (auto split: prod.splits)
  then show ?case
    using Cons.IH [OF focus_step_sync [OF Cons.prems(1) assms(1,2)] us(1)] by simp
qed simp

lemma new_guard_sync: "convergence_sync (guard_options_of c) [] (new_guard c None)"
  using guard_options_pos(4) [of c]
  by (simp add: convergence_sync_def new_guard_def empty_guard_def explorations_since_def)

lemma convergence_block_iff:
  "snd (before_tool_call sha g r) = Some (Evidence_checkpoint_required n) \<longleftrightarrow>
     \<not> durable_gate g r \<and> convergence_gate g r \<and> n = f_explorationCalls g"
  by (auto simp: before_tool_call_def before_recall_def Let_def split: prod.splits)

lemma durable_block_iff:
  "snd (before_tool_call sha g r) = Some (Durable_progress_required n) \<longleftrightarrow>
     durable_gate g r \<and> n = f_activityCalls g"
  by (auto simp: before_tool_call_def before_recall_def Let_def split: prod.splits)

section \<open>Restarts\<close>

lemma set_entries_distinct:
  "distinct (map fst (m @ kvs)) \<Longrightarrow> set_entries kvs m = m @ kvs"
proof (induction kvs arbitrary: m)
  case (Cons kv kvs)
  obtain k v where kv: "kv = (k, v)" by fastforce
  have "k \<notin> fst ` set m" using Cons.prems by (auto simp: kv)
  then have "AList.update k v m = m @ [(k, v)]"
    by (induction m) auto
  with Cons.IH [of "m @ [(k, v)]"] Cons.prems kv show ?case
    by (simp add: set_entries_def)
qed (simp add: set_entries_def)

lemma distinct_last_n: "distinct (map fst xs) \<Longrightarrow> distinct (map fst (last_n n xs))"
  unfolding last_n_def by (metis distinct_drop drop_map)

lemma last_n_twice [simp]: "last_n n (last_n n xs) = last_n n xs"
  by (simp add: last_n_all)

lemma export_restores:
  assumes g: "guard_inv (guard_options_of c) g"
  shows "export_focus (new_guard c (Some (focus_json (export_focus g)))) = export_focus g"
proof -
  have opt: "f_options g = guard_options_of c" using g by (simp add: guard_inv_def)
  have "stored_steering_ok (f_steering g)" using g by (simp add: guard_inv_def)
  then have p: "parse_focus_state (focus_json (export_focus g)) = Some (export_focus g)"
    by (intro parse_focus_json) (auto simp: export_focus_def split: if_splits)
  have d: "set_entries (last_n 96 (f_outcomeDigests g)) [] = last_n 96 (f_outcomeDigests g)"
    using g distinct_last_n [of "f_outcomeDigests g" 96]
    by (simp add: guard_inv_def set_entries_distinct)
  have "new_guard c (Some (focus_json (export_focus g))) =
      restore_guard (export_focus g) (empty_guard (guard_options_of c))"
    by (simp add: new_guard_def p)
  then show ?thesis
    by (simp add: restore_guard_def empty_guard_def export_focus_def opt d)
qed


section \<open>Sizes of checkpoints\<close>

lemma length_nat_str: "n < 10 ^ k \<Longrightarrow> 1 \<le> k \<Longrightarrow> length (nat_str n) \<le> k"
proof (induction n arbitrary: k rule: nat_str.induct)
  case (1 n)
  show ?case
  proof (cases "n < 10")
    case False
    then obtain j where j: "k = Suc j" "1 \<le> j"
      using 1(2,3) by (cases k; cases "k - 1") auto
    have "n div 10 < 10 ^ j" using 1(2) j(1) by (simp add: less_mult_imp_div_less mult.commute)
    with 1(1) [of j] False j show ?thesis by (simp add: nat_str.simps [of n])
  qed (use 1(3) in \<open>simp add: nat_str.simps [of n]\<close>)
qed

lemma length_int_str: "\<bar>i\<bar> < 10 ^ k \<Longrightarrow> 1 \<le> k \<Longrightarrow> length (int_str i) \<le> Suc k"
  using length_nat_str [of "nat i" k] length_nat_str [of "nat (- i)" k]
  by (auto simp: int_str_def nat_less_iff)

definition printable :: "string \<Rightarrow> bool" where
  "printable s \<longleftrightarrow> (\<forall>c \<in> set s. 32 \<le> (of_char c :: nat))"

lemma length_quote:
  assumes "printable s" shows "length (quote s) \<le> 2 * length s + 2"
proof -
  have e: "length (escape_char c) \<le> 2" if "32 \<le> (of_char c :: nat)" for c
    using that by (simp add: escape_char_def Let_def)
  have "length (concat (map escape_char s)) \<le> 2 * length s"
    using assms unfolding printable_def
  proof (induction s)
    case (Cons c cs)
    then show ?case using e [of c] by auto
  qed simp
  then show ?thesis by (simp add: quote_def)
qed

lemma set_collapse_blanks: "set (collapse_blanks b s) \<subseteq> insert space (set s)"
  by (induction b s rule: collapse_blanks.induct) auto

lemma set_js_trim: "set (js_trim s) \<subseteq> set s"
  unfolding js_trim_def trim_end_def trim_start_def
  by (metis (no_types, lifting) set_dropWhileD set_rev subsetI)

lemma printable_bounded_text: "printable s \<Longrightarrow> printable (bounded_text s n)"
proof -
  assume s: "printable s"
  have "set (collapse_blanks False (js_trim s)) \<subseteq> insert space (set s)"
    using set_collapse_blanks set_js_trim by blast
  moreover have "set (take k xs) \<subseteq> set xs" for k and xs :: string by (rule set_take_subset)
  ultimately have "set (bounded_text s n) \<subseteq> insert ellipsis (insert space (set s))"
    unfolding bounded_text_def Let_def by (auto dest!: in_set_takeD)
  then show ?thesis
    using s unfolding printable_def by (auto simp: ellipsis_def space_def)
qed

lemma length_js_join: "length (js_join sep (x # xs)) = length x + length (concat (map (\<lambda>z. sep @ z) xs))"
  by (simp add: js_join_def)

lemma length_minimal_checkpoint:
  assumes "printable obj" "epoch < 10 ^ 20" "\<bar>turn\<bar> < 10 ^ 20"
  shows "length (render_minimal_checkpoint obj epoch reason turn) \<le> 900"
proof -
  have q: "length (quote (bounded_text obj 120)) \<le> 242"
    using length_quote [OF printable_bounded_text [OF assms(1)], of 120] length_bounded_text [of 120 obj] by simp
  have e: "length (int_str (int epoch)) \<le> 21"
    using length_int_str [of "int epoch" 20] assms(2) by simp
  have t: "length (int_str turn) \<le> 21"
    using length_int_str [of turn 20] assms(3) by simp
  have r: "length (compaction_name reason) \<le> 20" "printable (compaction_name reason)"
    by (cases reason; simp add: printable_def)+
  have r': "length (quote (compaction_name reason)) \<le> 42"
    using length_quote [OF r(2)] r(1) by simp
  have "length (int_str 1) = 1" by code_simp
  then show ?thesis
    using q e t r'
    by (cases "obj = []") (simp_all add: render_minimal_checkpoint_def js_join_def checkpoint_prefix_def minimal_notice_def
        minimal_continue_def nat_json_def quote_def escape_char_def)
qed


section \<open>Properties\<close>

text \<open>A small guard for the witnesses; the identity function stands for the digest.\<close>

definition demo_focus_config :: guard_config where
  "demo_focus_config = \<lparr>gc_objective = Some ''Find a bug.'', gc_maxDuplicateReads = None,
     gc_recallProbeInterval = None, gc_sustainedRecallOnlyTurns = None, gc_steeringCooldownTurns = None,
     gc_checkpointEntries = None, gc_checkpointMaxChars = None, gc_convergenceCalls = Some 1,
     gc_convergenceEnabled = None, gc_durableCalls = Some 1, gc_durableEnabled = Some True\<rparr>"

definition demo_request :: "string \<Rightarrow> tool_kind \<Rightarrow> int \<Rightarrow> tool_request" where
  "demo_request tool k n = \<lparr>r_callId = ''c'' @ nat_str (nat n), r_turn = n, r_toolName = tool,
     r_input = JObj [], r_kind = k\<rparr>"

definition demo_outcome :: "int \<Rightarrow> string \<Rightarrow> tool_outcome" where
  "demo_outcome n res = \<lparr>o_callId = ''c'' @ nat_str (nat n), o_status = ''completed'', o_summary = None,
     o_artifactRefs = None, o_result = Some (JStr res)\<rparr>"

definition demo_run :: "guard_config \<Rightarrow> focus_event list \<Rightarrow> guard" where
  "demo_run c evs = fst (focus_run (\<lambda>s. s) (new_guard c None) evs)"

lemma demo_run_reachable: "focus_reachable (\<lambda>s. s) c (demo_run c evs)"
  unfolding demo_run_def by (rule focus_reachable_run [OF Created])

definition demo_events :: "focus_event list" where
  "demo_events = [Before (demo_request ''memory_search'' Kind_recall 1)]"

lemma demo_options:
  "guard_options_of demo_focus_config = \<lparr>go_objective = ''Find a bug.'', go_maxDuplicateReads = 2,
     go_recallProbeInterval = 4, go_sustainedRecallOnlyTurns = 4, go_steeringCooldownTurns = 4,
     go_checkpointEntries = 8, go_checkpointMaxChars = 4800, go_convergenceCalls = 1,
     go_convergenceEnabled = True, go_durableCalls = 1, go_durableEnabled = True\<rparr>"
proof -
  have "concise_objective ''Find a bug.'' = ''Find a bug.''" by code_simp
  then show ?thesis by (simp add: guard_options_of_def demo_focus_config_def positive_integer_def)
qed

lemma demo_run_options: "f_options (demo_run demo_focus_config evs) = guard_options_of demo_focus_config"
  using focus_reachable_inv [OF demo_run_reachable [of demo_focus_config evs]] by (simp add: guard_inv_def)

lemma demo_empty: "demo_run demo_focus_config [] = empty_guard (guard_options_of demo_focus_config)"
  by (simp add: demo_run_def new_guard_def)

lemma demo_recall:
  "demo_run demo_focus_config demo_events =
     fst (before_tool_call (\<lambda>s. s) (empty_guard (guard_options_of demo_focus_config))
       (demo_request ''memory_search'' Kind_recall 1))"
  by (simp add: demo_run_def demo_events_def focus_step_def new_guard_def)

lemma demo_ungated:
  "r_kind r = Kind_recall \<Longrightarrow> ungated (empty_guard opt) r"
  by (simp add: ungated_def durable_gate_def convergence_gate_def empty_guard_def)

lemma demo_request_simps [simp]:
  "r_turn (demo_request t k n) = n" "r_kind (demo_request t k n) = k"
  "r_toolName (demo_request t k n) = t" "r_input (demo_request t k n) = JObj []"
  "r_callId (demo_request t k n) = ''c'' @ nat_str (nat n)"
  by (simp_all add: demo_request_def)

lemma demo_recall_facts:
  "length (f_readCounts (demo_run demo_focus_config demo_events)) = 1"
  "f_progressEpoch (demo_run demo_focus_config demo_events) = 0"
  "f_durableSteered (demo_run demo_focus_config demo_events) = False"
  "f_activityCalls (demo_run demo_focus_config demo_events) = 0"
  "\<exists>t. map_of (f_turns (demo_run demo_focus_config demo_events)) 1 = Some t \<and> tt_calls t \<noteq> []"
  by (simp_all add: demo_recall before_ungated demo_ungated before_recall_def current_read_def
      interval_probe_due_def external_probe_due_def demo_options)
    (simp_all add: empty_guard_def ensure_turn_def record_call_def update_turn_def map_of_update)

text \<open>
  C6. In every reachable guard, whatever state it was restored from and whatever calls, outcomes,
  steering and turn ends it has seen, the options are those of its configuration, every read
  count belongs to the current progress epoch and is at most the permitted number, the progress
  log is within its limit, the steering queue would pass the validator of the persisted state,
  and no fingerprint has two digests.
\<close>

theorem focus_invariant:
  assumes "focus_reachable sha c g"
  shows "f_options g = guard_options_of c
     \<and> reads_within (go_maxDuplicateReads (guard_options_of c)) (f_progressEpoch g) (f_readCounts g)
     \<and> length (f_progressEntries g) \<le> entry_limit (guard_options_of c)
     \<and> stored_steering_ok (f_steering g)
     \<and> distinct (map fst (f_outcomeDigests g))"
  using focus_reachable_inv [OF assms] by (simp add: guard_inv_def)

theorem focus_invariant_witness:
  "reads_within 2 0 (f_readCounts (demo_run demo_focus_config demo_events))
   \<and> length (f_readCounts (demo_run demo_focus_config demo_events)) = 1"
  using focus_invariant [OF demo_run_reachable, of demo_focus_config demo_events]
  by (simp add: demo_recall_facts demo_options)

text \<open>
  C7. Within one epoch and one probe interval, a guard lets a recall of unchanged state through
  exactly as often as the configured number of reads, and blocks every repetition after that.
\<close>

theorem read_budget:
  assumes "focus_reachable sha c g" "fst (current_read g fp) = 0" "\<not> f_externalProbe g"
    and "\<forall>r \<in> set rs. ungated g r \<and> tool_fingerprint sha (r_toolName r) (r_input r) = fp
      \<and> t0 \<le> r_turn r \<and> r_turn r < t0 + int (go_recallProbeInterval (f_options g))"
  shows "map (\<lambda>d. d = None) (decisions sha g rs) =
    replicate (min (length rs) (go_maxDuplicateReads (f_options g))) True
      @ replicate (length rs - go_maxDuplicateReads (f_options g)) False"
proof -
  have "1 \<le> go_maxDuplicateReads (f_options g)"
    using focus_reachable_inv [OF assms(1)] guard_options_pos(1) by (simp add: guard_inv_def)
  then show ?thesis
    using read_budget_from [of rs g sha fp t0 0 "snd (current_read g fp)"] assms
    by (metis diff_zero le0 prod.collapse)
qed

theorem read_budget_witness:
  "map (\<lambda>d. d = None) (decisions (\<lambda>s. s) (demo_run demo_focus_config [])
     (map (demo_request ''memory_search'' Kind_recall) [1, 2, 3, 4])) = [True, True, False, False]"
proof -
  let ?g = "demo_run demo_focus_config []"
  have f: "f_readCounts ?g = []" "\<not> f_externalProbe ?g"
    by (simp_all add: demo_empty empty_guard_def)
  then have z: "fst (current_read ?g (tool_fingerprint (\<lambda>s. s) ''memory_search'' (JObj []))) = 0"
    by (simp add: current_read_def)
  have "\<forall>r \<in> set (map (demo_request ''memory_search'' Kind_recall) [1, 2, 3, 4]).
      ungated ?g r
      \<and> tool_fingerprint (\<lambda>s. s) (r_toolName r) (r_input r) = tool_fingerprint (\<lambda>s. s) ''memory_search'' (JObj [])
      \<and> 1 \<le> r_turn r \<and> r_turn r < 1 + int (go_recallProbeInterval (f_options ?g))"
    by (simp add: demo_empty demo_ungated) (simp add: demo_options empty_guard_def)
  from read_budget [OF demo_run_reachable z f(2) this] show ?thesis
    by (simp add: demo_run_options demo_options numeral_2_eq_2)
qed

definition credited :: "(string \<Rightarrow> string) \<Rightarrow> guard \<Rightarrow> tool_outcome \<Rightarrow> tracked_call \<Rightarrow> bool" where
  "credited sha g oc c \<longleftrightarrow> map_of (f_calls g) (o_callId oc) = Some c \<and> \<not> t_blocked c
     \<and> completed_status (o_status oc) \<and> is_progress sha g c oc"

lemma last_remember:
  "f_progressEntries (remember_progress e g) \<noteq> [] \<and> last (f_progressEntries (remember_progress e g)) = e"
  by (auto simp: remember_progress_def Let_def entry_limit_def last_drop)

lemma after_progress_entries:
  "f_progressEntries (after_progress c b d oc g) \<noteq> []
   \<and> last (f_progressEntries (after_progress c b d oc g)) = progress_of c d oc"
  unfolding after_progress_def Let_def by (rule last_remember)

text \<open>
  Outcomes are credited exactly when they are progress: a completed, unblocked call whose
  result is new (for research), differs from an earlier result (for a recall) or carries an
  artifact starts a new epoch, reopens every read and is the newest entry of the log; any other
  outcome leaves the epoch, the read counts and the log alone, and a blocked, unknown or failed
  call changes nothing at all.
\<close>

theorem progress_credit:
  "(\<forall>c. credited sha g oc c \<longrightarrow>
      f_progressEpoch (after_tool_call sha g oc) = f_progressEpoch g + 1
      \<and> (\<forall>fp. current_read (after_tool_call sha g oc) fp = (0, None))
      \<and> \<not> f_externalProbe (after_tool_call sha g oc)
      \<and> last (f_progressEntries (after_tool_call sha g oc)) = progress_of c (outcome_digest sha oc) oc)
   \<and> ((\<nexists>c. credited sha g oc c) \<longrightarrow>
      f_progressEpoch (after_tool_call sha g oc) = f_progressEpoch g
      \<and> f_readCounts (after_tool_call sha g oc) = f_readCounts g
      \<and> f_progressEntries (after_tool_call sha g oc) = f_progressEntries g)
   \<and> ((\<forall>c. map_of (f_calls g) (o_callId oc) = Some c \<longrightarrow> t_blocked c \<or> \<not> completed_status (o_status oc))
      \<longrightarrow> after_tool_call sha g oc = g)"
  by (auto simp: after_tool_call_cases credited_def current_read_def after_progress_entries
      split: option.split)

text \<open>
  C8. The convergence checkpoint counts the completed exploration calls since the last completed
  runbook call, over any run of a new guard: once the count reaches the threshold, exactly the
  exploration tools are held back, until a runbook call completes.
\<close>

theorem convergence_refines:
  assumes "go_convergenceEnabled (guard_options_of c)"
    and "focus_run sha (new_guard c None) evs = (g, ts)"
  shows "f_explorationCalls g = explorations_since ts
     \<and> (snd (before_tool_call sha g r) = Some (Evidence_checkpoint_required (explorations_since ts)) \<longleftrightarrow>
          go_convergenceCalls (guard_options_of c) \<le> explorations_since ts
          \<and> is_source_exploration_tool (r_toolName r) \<and> \<not> durable_gate g r)"
  using focus_run_sync [OF assms(1) guard_options_pos(4) new_guard_sync assms(2)] assms(1)
  by (simp add: convergence_sync_def convergence_block_iff convergence_gate_def) blast

definition records_state :: "(string \<Rightarrow> string) \<Rightarrow> guard \<Rightarrow> focus_event \<Rightarrow> bool" where
  "records_state sha g ev \<longleftrightarrow> (case ev of
     After oc \<Rightarrow> (case map_of (f_calls g) (o_callId oc) of
         Some c \<Rightarrow> credited sha g oc c \<and> is_durable_progress_tool (r_toolName c)
       | None \<Rightarrow> False)
   | _ \<Rightarrow> False)"

lemma durable_pending_after:
  assumes "go_durableEnabled (f_options g)" "f_durablePending g"
  shows "f_durablePending (focus_step sha g ev) \<longleftrightarrow> \<not> records_state sha g ev"
  using assms
  by (cases ev) (auto simp: focus_step_def records_state_def credited_def after_tool_call_cases
      note_durable_activity_def note_potential_external_change_def guard_note_steering_def
      guard_replace_steering_def split: option.split)

text \<open>
  C9. While a durable-progress checkpoint is pending, exactly the disposition tool and the
  research tools that neither record state nor support operation are held back, and only a
  credited call of a tool that records state clears it.
\<close>

theorem durable_checkpoint:
  assumes "go_durableEnabled (f_options g)" "f_durablePending g"
  shows "(snd (before_tool_call sha g r) = Some (Durable_progress_required (f_activityCalls g)) \<longleftrightarrow>
       is_session_disposition_tool (r_toolName r)
       \<or> r_kind r = Kind_research \<and> \<not> is_durable_progress_tool (r_toolName r)
         \<and> \<not> is_operational_support_tool (r_toolName r))
     \<and> (f_durablePending (focus_step sha g ev) \<longleftrightarrow> \<not> records_state sha g ev)"
  using assms durable_pending_after [OF assms] by (simp add: durable_block_iff durable_gate_def)

lemma finish_turn_outcomes:
  assumes "finish_turn n tool_only g = (g', res)"
  obtains (quiet) k where "tr_reason res = None" "tr_steering res = None"
      "g' = g\<lparr>f_recallOnlyTurns := k\<rparr>"
    | (steered) t k why where "turn_reason (g\<lparr>f_recallOnlyTurns := k\<rparr>) t = Some why"
      "cooldown_satisfied (g\<lparr>f_recallOnlyTurns := k\<rparr>) (Some why) n"
      "tr_reason res = Some why" "tr_steering res = Some (focus_steering_lines why g')"
      "f_lastSteeringTurn g' = Some n"
      "f_convergenceSteered g' = (f_convergenceSteered g \<or> why = Convergence_checkpoint)"
      "f_durableSteered g' = (f_durableSteered g \<or> why = Durable_progress_checkpoint)"
proof (cases "\<exists>t. map_of (f_turns g) n = Some t \<and> tt_calls t \<noteq> []")
  case False
  with assms have "tr_reason res = None" "tr_steering res = None" "g' = g\<lparr>f_recallOnlyTurns := 0\<rparr>"
    by (auto simp: finish_turn_def split: option.splits)
  then show thesis by (rule quiet)
next
  case True
  then obtain t where t: "map_of (f_turns g) n = Some t" "tt_calls t \<noteq> []" by blast
  define k where "k = (if tool_only \<and> \<not> tt_madeProgress t then f_recallOnlyTurns g + 1 else 0)"
  let ?h = "g\<lparr>f_recallOnlyTurns := k\<rparr>"
  show thesis
  proof (cases "\<exists>why. turn_reason ?h t = Some why \<and> cooldown_satisfied ?h (Some why) n")
    case False
    with assms t have "tr_reason res = None" "tr_steering res = None" "g' = ?h"
      by (auto simp: finish_turn_def Let_def k_def [symmetric] split: option.splits)
    then show thesis by (rule quiet)
  next
    case True
    then obtain why where why: "turn_reason ?h t = Some why" "cooldown_satisfied ?h (Some why) n" by blast
    show thesis
      by (rule steered [OF why]) (use assms t why in \<open>auto simp: finish_turn_def Let_def k_def [symmetric]\<close>)
  qed
qed

lemma turn_reason_Some:
  assumes "turn_reason g t = Some why"
  shows "why = Convergence_checkpoint \<Longrightarrow> f_convergencePending g \<and> \<not> f_convergenceSteered g"
    "why = Durable_progress_checkpoint \<Longrightarrow> f_durablePending g \<and> \<not> f_durableSteered g"
  using assms by (auto simp: turn_reason_def split: if_splits)

lemma cooldown_distance:
  assumes "cooldown_satisfied g (Some why) n" "why \<in> {Duplicate_recall, Sustained_tool_only}"
    "f_lastSteeringTurn g = Some l"
  shows "int (go_steeringCooldownTurns (f_options g)) \<le> n - l"
  using assms by (auto simp: cooldown_satisfied_def)

lemma durable_announced:
  assumes "go_durableEnabled (f_options g)" "f_durablePending g" "\<not> f_durableSteered g"
    "map_of (f_turns g) n = Some t" "tt_calls t \<noteq> []"
  shows "tr_reason (snd (finish_turn n tool_only g)) = Some Durable_progress_checkpoint"
  using assms by (simp add: finish_turn_def Let_def turn_reason_def cooldown_satisfied_def)

text \<open>
  A turn is steered with its reason and message at the same time; recall steering keeps the
  cool-down distance to the previous steering, a checkpoint is announced once until it is
  resolved, and a pending checkpoint that was not announced yet is announced by the first turn
  that made a call.
\<close>

theorem finish_turn_contract:
  assumes "finish_turn n tool_only g = (g', res)"
  shows "(tr_reason res = None \<longleftrightarrow> tr_steering res = None)
     \<and> (tr_reason res = None \<longrightarrow> f_lastSteeringTurn g' = f_lastSteeringTurn g)
     \<and> (\<forall>why. tr_reason res = Some why \<longrightarrow>
          tr_steering res = Some (focus_steering_lines why g') \<and> f_lastSteeringTurn g' = Some n
          \<and> (why \<in> {Duplicate_recall, Sustained_tool_only} \<longrightarrow>
               (\<forall>l. f_lastSteeringTurn g = Some l \<longrightarrow> int (go_steeringCooldownTurns (f_options g)) \<le> n - l))
          \<and> (why = Convergence_checkpoint \<longrightarrow>
               f_convergencePending g \<and> \<not> f_convergenceSteered g \<and> f_convergenceSteered g')
          \<and> (why = Durable_progress_checkpoint \<longrightarrow>
               f_durablePending g \<and> \<not> f_durableSteered g \<and> f_durableSteered g'))
     \<and> (go_durableEnabled (f_options g) \<and> f_durablePending g \<and> \<not> f_durableSteered g
          \<and> (\<exists>t. map_of (f_turns g) n = Some t \<and> tt_calls t \<noteq> [])
        \<longrightarrow> tr_reason res = Some Durable_progress_checkpoint)"
proof -
  have live: "go_durableEnabled (f_options g) \<and> f_durablePending g \<and> \<not> f_durableSteered g
      \<and> (\<exists>t. map_of (f_turns g) n = Some t \<and> tt_calls t \<noteq> [])
      \<longrightarrow> tr_reason res = Some Durable_progress_checkpoint"
    using durable_announced [of g n _ tool_only] assms by auto
  show ?thesis
    using assms
  proof (cases rule: finish_turn_outcomes)
    case (quiet k)
    then show ?thesis using live by simp
  next
    case (steered t k why)
    let ?h = "g\<lparr>f_recallOnlyTurns := k\<rparr>"
    have conv: "why = Convergence_checkpoint \<Longrightarrow> f_convergencePending g \<and> \<not> f_convergenceSteered g"
      using turn_reason_Some(1) [OF steered(1)] by simp
    have dur: "why = Durable_progress_checkpoint \<Longrightarrow> f_durablePending g \<and> \<not> f_durableSteered g"
      using turn_reason_Some(2) [OF steered(1)] by simp
    have cool: "int (go_steeringCooldownTurns (f_options g)) \<le> n - l"
      if "why = Duplicate_recall \<or> why = Sustained_tool_only" "f_lastSteeringTurn g = Some l" for l
      using cooldown_distance [OF steered(2), of l] that by auto
    show ?thesis
      using live unfolding steered(3-7) by (auto dest: conv dur cool [OF disjI1] cool [OF disjI2])
  qed
qed


definition demo_turn_guard :: guard where
  "demo_turn_guard = (demo_run demo_focus_config demo_events)\<lparr>f_durablePending := True\<rparr>"

lemma demo_turn_guard_facts:
  "go_durableEnabled (f_options demo_turn_guard)" "f_durablePending demo_turn_guard"
  "\<not> f_durableSteered demo_turn_guard" "f_activityCalls demo_turn_guard = 0"
  "\<exists>t. map_of (f_turns demo_turn_guard) 1 = Some t \<and> tt_calls t \<noteq> []"
  using demo_recall_facts
  by (simp_all add: demo_turn_guard_def demo_run_options) (simp add: demo_options)

theorem finish_turn_contract_witness:
  "tr_steering (snd (finish_turn 1 True demo_turn_guard))
     = Some (focus_steering_lines Durable_progress_checkpoint (fst (finish_turn 1 True demo_turn_guard)))"
  using finish_turn_contract [of 1 True demo_turn_guard "fst (finish_turn 1 True demo_turn_guard)"
      "snd (finish_turn 1 True demo_turn_guard)"] demo_turn_guard_facts by simp

definition demo_search :: "focus_event list" where
  "demo_search = [Before (demo_request ''repository_search'' Kind_recall 1), After (demo_outcome 1 ''x'')]"

lemma demo_search_facts:
  "snd (focus_run (\<lambda>s. s) (new_guard demo_focus_config None) demo_search) = [''repository_search'']"
  "f_durablePending (demo_run demo_focus_config demo_search) = False"
proof -
  have t: "completed_status ''completed''" "artifact_labels (demo_outcome 1 ''x'') = []"
    by code_simp+
  have o: "o_callId (demo_outcome 1 ''x'') = ''c'' @ nat_str 1" "o_status (demo_outcome 1 ''x'') = ''completed''"
    by (simp_all add: demo_outcome_def)
  let ?e = "empty_guard (guard_options_of demo_focus_config)"
  let ?r = "demo_request ''repository_search'' Kind_recall 1"
  let ?g = "fst (before_tool_call (\<lambda>s. s) ?e ?r)"
  obtain c where c: "map_of (f_calls ?g) (''c'' @ nat_str 1) = Some c" "r_toolName c = ''repository_search''"
    "r_kind c = Kind_recall" "\<not> t_blocked c"
    by (simp add: before_ungated demo_ungated before_recall_def current_read_def
        interval_probe_due_def external_probe_due_def demo_options)
      (simp add: empty_guard_def map_of_update)
  have d: "f_outcomeDigests ?g = []" "f_durablePending ?g = False"
    by (simp_all add: empty_guard_def)
  have new: "new_guard demo_focus_config None = ?e"
    by (simp add: new_guard_def)
  show "snd (focus_run (\<lambda>s. s) (new_guard demo_focus_config None) demo_search) = [''repository_search'']"
    using c t(1) by (simp add: demo_search_def focus_step_def counted_tool_def new o)
  show "f_durablePending (demo_run demo_focus_config demo_search) = False"
    using c t d by (simp add: demo_run_def demo_search_def focus_step_def new o after_tool_call_cases is_progress_def)
qed

theorem convergence_refines_witness:
  "snd (before_tool_call (\<lambda>s. s) (demo_run demo_focus_config demo_search)
     (demo_request ''repository_search'' Kind_recall 1)) = Some (Evidence_checkpoint_required 1)"
proof -
  let ?g = "demo_run demo_focus_config demo_search"
  have e: "explorations_since [''repository_search''] = 1" "is_source_exploration_tool ''repository_search''"
    by code_simp+
  have "focus_run (\<lambda>s. s) (new_guard demo_focus_config None) demo_search = (?g, [''repository_search''])"
    using demo_search_facts(1) by (simp add: demo_run_def prod_eq_iff)
  then show ?thesis
    using convergence_refines [of demo_focus_config "\<lambda>s. s" demo_search ?g "[''repository_search'']"
        "demo_request ''repository_search'' Kind_recall 1"] e demo_search_facts(2)
    by (simp add: durable_gate_def demo_options)
qed

theorem durable_checkpoint_witness:
  "snd (before_tool_call (\<lambda>s. s) demo_turn_guard (demo_request ''session_disposition'' Kind_control 2))
     = Some (Durable_progress_required 0)"
proof -
  have "is_session_disposition_tool ''session_disposition''"
    by code_simp
  then show ?thesis
    using durable_checkpoint [OF demo_turn_guard_facts(1,2), of "\<lambda>s. s"
        "demo_request ''session_disposition'' Kind_control 2"] demo_turn_guard_facts(4) by simp
qed

text \<open>
  C10. A restart loses nothing that is persisted: the exported state of a reachable guard passes
  the validator, and a guard constructed from it with the same configuration exports the same
  state again.
\<close>

theorem focus_roundtrip:
  assumes "focus_reachable sha c g"
  shows "is_focus_persisted_state (focus_json (export_focus g))
     \<and> export_focus (new_guard c (Some (focus_json (export_focus g)))) = export_focus g"
proof -
  have inv: "guard_inv (guard_options_of c) g" by (rule focus_reachable_inv [OF assms])
  then have "parse_focus_state (focus_json (export_focus g)) = Some (export_focus g)"
    by (intro parse_focus_json) (auto simp: export_focus_def guard_inv_def split: if_splits)
  with export_restores [OF inv] show ?thesis by (simp add: is_focus_persisted_state_def)
qed

theorem focus_roundtrip_witness:
  "is_focus_persisted_state (focus_json (export_focus (demo_run demo_focus_config demo_events)))"
  using focus_roundtrip [OF demo_run_reachable, of demo_focus_config demo_events] by blast

text \<open>
  A compaction checkpoint renders the longest suffix of the newest entries whose rendering
  fits the limit; only when not even the rendering without entries fits does the minimal form
  replace it.
\<close>

theorem compaction_longest_suffix:
  "(\<exists>k \<le> length (last_n (go_checkpointEntries (f_options g)) (f_progressEntries g)).
      compaction_checkpoint sha g reason turn =
        render_checkpoint sha (go_objective (f_options g)) (f_progressEpoch g) reason turn
          (drop k (last_n (go_checkpointEntries (f_options g)) (f_progressEntries g)))
      \<and> length (compaction_checkpoint sha g reason turn) \<le> go_checkpointMaxChars (f_options g)
      \<and> (\<forall>j < k. go_checkpointMaxChars (f_options g) <
           length (render_checkpoint sha (go_objective (f_options g)) (f_progressEpoch g) reason turn
             (drop j (last_n (go_checkpointEntries (f_options g)) (f_progressEntries g))))))
   \<or> compaction_checkpoint sha g reason turn =
        render_minimal_checkpoint (go_objective (f_options g)) (f_progressEpoch g) reason turn
      \<and> (\<forall>j \<le> length (last_n (go_checkpointEntries (f_options g)) (f_progressEntries g)).
           go_checkpointMaxChars (f_options g) <
           length (render_checkpoint sha (go_objective (f_options g)) (f_progressEpoch g) reason turn
             (drop j (last_n (go_checkpointEntries (f_options g)) (f_progressEntries g)))))"
  unfolding compaction_checkpoint_def Let_def
  using fit_checkpoint_cases [of "last_n (go_checkpointEntries (f_options g)) (f_progressEntries g)"
      "render_checkpoint sha (go_objective (f_options g)) (f_progressEpoch g) reason turn"
      "go_checkpointMaxChars (f_options g)"
      "render_minimal_checkpoint (go_objective (f_options g)) (f_progressEpoch g) reason turn"]
  by auto

text \<open>
  A compaction checkpoint of a reachable guard never exceeds its configured size, for an
  objective without control characters and epochs and turns of at most twenty digits.
\<close>

theorem compaction_bounded:
  assumes "focus_reachable sha c g" "printable (go_objective (f_options g))"
    "f_progressEpoch g < 10 ^ 20" "\<bar>turn\<bar> < 10 ^ 20"
  shows "length (compaction_checkpoint sha g reason turn) \<le> go_checkpointMaxChars (f_options g)"
proof -
  have "900 \<le> go_checkpointMaxChars (f_options g)"
    using focus_reachable_inv [OF assms(1)] guard_options_pos(7) [of c] by (simp add: guard_inv_def)
  then have m: "length (render_minimal_checkpoint (go_objective (f_options g)) (f_progressEpoch g) reason turn)
      \<le> go_checkpointMaxChars (f_options g)"
    using length_minimal_checkpoint [OF assms(2-4), of reason] by simp
  show ?thesis
    unfolding compaction_checkpoint_def Let_def
    using fit_checkpoint_cases [of "last_n (go_checkpointEntries (f_options g)) (f_progressEntries g)"
        "render_checkpoint sha (go_objective (f_options g)) (f_progressEpoch g) reason turn"
        "go_checkpointMaxChars (f_options g)"
        "render_minimal_checkpoint (go_objective (f_options g)) (f_progressEpoch g) reason turn"] m
    by auto
qed

theorem compaction_bounded_witness:
  "length (compaction_checkpoint (\<lambda>s. s) (demo_run demo_focus_config demo_events) Native 3) \<le> 4800"
proof -
  have "printable (go_objective (guard_options_of demo_focus_config))"
    by (simp add: demo_options printable_def)
  then show ?thesis
    using compaction_bounded [OF demo_run_reachable, of demo_focus_config demo_events 3 Native]
    by (simp add: demo_run_options demo_recall_facts) (simp add: demo_options)
qed


definition demo_tracked_guard :: guard where
  "demo_tracked_guard = fst (before_tool_call (\<lambda>s. s) (empty_guard (guard_options_of demo_focus_config))
     (demo_request ''code_query'' Kind_research 1))"

lemma demo_credited: "\<exists>c. credited (\<lambda>s. s) demo_tracked_guard (demo_outcome 1 ''x'') c"
proof -
  have "completed_status ''completed''" by code_simp
  moreover have "\<not> durable_gate (empty_guard opt) r" "\<not> convergence_gate (empty_guard opt) r" for opt r
    by (simp_all add: durable_gate_def convergence_gate_def empty_guard_def)
  moreover have "f_outcomeDigests demo_tracked_guard = []"
    by (simp add: demo_tracked_guard_def) (simp add: empty_guard_def)
  ultimately show ?thesis
    by (simp add: credited_def is_progress_def outcome_changed_def)
      (simp add: demo_tracked_guard_def before_tool_call_def demo_outcome_def map_of_update)
qed

theorem progress_credit_witness:
  "f_progressEpoch (after_tool_call (\<lambda>s. s) demo_tracked_guard (demo_outcome 1 ''x'')) = 1"
proof -
  have "f_progressEpoch demo_tracked_guard = 0"
    by (simp add: demo_tracked_guard_def) (simp add: empty_guard_def)
  then show ?thesis
    using progress_credit [of "\<lambda>s. s" demo_tracked_guard "demo_outcome 1 ''x''"] demo_credited by auto
qed

theorem compaction_longest_suffix_witness:
  "compaction_checkpoint (\<lambda>s. s) (demo_run demo_focus_config []) Native 3
     \<in> {render_checkpoint (\<lambda>s. s) ''Find a bug.'' 0 Native 3 [],
        render_minimal_checkpoint ''Find a bug.'' 0 Native 3}"
proof -
  have "f_progressEntries (demo_run demo_focus_config []) = []" "f_progressEpoch (demo_run demo_focus_config []) = 0"
    "go_objective (f_options (demo_run demo_focus_config [])) = ''Find a bug.''"
    by (simp_all add: demo_run_options demo_options) (simp_all add: demo_empty empty_guard_def)
  then show ?thesis
    using compaction_longest_suffix [of "demo_run demo_focus_config []" "\<lambda>s. s" Native 3]
    by (auto simp: last_n_def)
qed

end
