(* ===== verification/Track_Model.thy ===== *)
theory Track_Model
  imports Json_Value
begin

text \<open>
  The data of the workspace research track
  (\<open>packages/research-agent/src/research-track.ts\<close>), its two tables as the rows of one
  workspace, and the pure functions on them: scope eligibility of surfaces, cool-downs,
  priorities and progress counts.  Every statement of the file restricts its query to one
  workspace, so the workspace column is left out.  Time stamps are milliseconds since the epoch:
  the ISO strings the file stores and compares have a fixed width, so their order is the order of
  the instants.
\<close>

section \<open>Data\<close>

datatype track_status = Track_running | Track_paused | Track_waiting | Track_complete | Track_stopped

datatype work_status =
  Work_unexamined | Work_active | Work_deferred | Work_blocked | Work_complete | Work_excluded

datatype impact = Impact_unknown | Impact_low | Impact_medium | Impact_high | Impact_critical

datatype epoch_focus = First_epoch | Continuing

datatype environment = Env_device | Env_vm | Env_web | Env_localhost | Env_none

record validation =
  va_targetDependent :: bool
  va_environment :: environment
  va_reason :: string

record vector =
  ve_attackerControl :: string
  ve_trustBoundary :: string
  ve_failureMode :: string
  ve_unauthorizedEffect :: string

datatype angle_status = Angle_open | Angle_supported | Angle_ruled_out | Angle_blocked

record angle =
  an_name :: string
  an_status :: angle_status
  an_vector :: "vector option"
  an_proofQuestion :: string
  an_evidenceRefs :: "string list"
  an_nextAction :: string

record ranking =
  rk_impact :: int
  rk_reachability :: int
  rk_relevance :: int
  rk_exposure :: int
  rk_precedence :: int

record priority =
  pr_baseScore :: int
  pr_actionability :: int
  pr_impactAdjustment :: int
  pr_surfaceRankingAdjustment :: int
  pr_testableAngleBonus :: int
  pr_targetValidationPenalty :: int
  pr_noProgressPenalty :: int

datatype scope_decision = Applicable | Not_applicable

record foundation =
  fo_ranking :: "ranking option"
  fo_signals :: "string list option"
  fo_scope :: "scope_decision option"

record projection =
  sp_id :: string
  sp_resourceId :: "string option"
  sp_resourceKind :: "string option"
  sp_direction :: "string option"
  sp_parent :: "string option"
  sp_name :: string
  sp_foundation :: "foundation option"
  sp_blocker :: "string option"

section \<open>Tables\<close>

record surface_row =
  sr_id :: string
  sr_name :: string
  sr_status :: work_status
  sr_impact :: impact
  sr_theory :: string
  sr_nextAction :: string
  sr_refs :: "string list"
  sr_angles :: "angle list"
  sr_epochs :: nat
  sr_noProgress :: nat
  sr_revisits :: nat
  sr_revisitAfter :: "int option"
  sr_lastWorked :: "int option"
  sr_updated :: int
  sr_score :: int
  sr_scoreUpdated :: "int option"
  sr_validation :: "validation option"
  sr_ranking :: "ranking option"

record track_row =
  tk_id :: string
  tk_status :: track_status
  tk_pass :: nat
  tk_scope :: string
  tk_provider :: json
  tk_targets :: "string list"
  tk_collaboration :: "json option"
  tk_guardian :: bool
  tk_session :: "string option"
  tk_surface :: "string option"
  tk_epochs :: nat
  tk_lastSurface :: "string option"
  tk_surfaceStreak :: nat
  tk_lastResource :: "string option"
  tk_resourceStreak :: nat
  tk_error :: "string option"
  tk_created :: int
  tk_updated :: int

text \<open>One line of the snapshot: the row as the reader sees it, and its priority.\<close>

record surface_view =
  sv_work :: surface_row
  sv_priority :: priority

record snapshot =
  sn_track :: track_row
  sn_surfaces :: "surface_view list"

record track_db =
  db_track :: "track_row option"
  db_surfaces :: "surface_row list"
  db_history :: "(nat \<times> snapshot \<times> int) list"

section \<open>Scope eligibility\<close>

text \<open>The parent id when it is truthy, and the surface it names.\<close>

definition parent_id :: "projection \<Rightarrow> string option" where
  "parent_id s = (case sp_parent s of Some p \<Rightarrow> if p \<noteq> [] then Some p else None | None \<Rightarrow> None)"

definition parent_of :: "(string \<times> projection) list \<Rightarrow> projection \<Rightarrow> projection option" where
  "parent_of m s = Option.bind (parent_id s) (map_of m)"

definition by_id :: "projection list \<Rightarrow> (string \<times> projection) list" where
  "by_id ss = js_map_of (map (\<lambda>s. (sp_id s, s)) ss)"

definition out_of_scope :: string where
  "out_of_scope = ''out_of_scope''"

definition scope_of :: "projection \<Rightarrow> scope_decision option" where
  "scope_of s = Option.bind (sp_foundation s) fo_scope"

definition is_out_of_scope :: "projection \<Rightarrow> bool" where
  "is_out_of_scope s \<longleftrightarrow> sp_direction s = Some out_of_scope \<or> scope_of s = Some Not_applicable"

text \<open>
  The walk to the root; \<open>visited\<close> cuts a cycle of parents.  It ends because each step visits
  one more id of the map.
\<close>

definition unvisited :: "(string \<times> projection) list \<Rightarrow> string list \<Rightarrow> projection \<Rightarrow> string set" where
  "unvisited m visited s = insert (sp_id s) (sp_id ` snd ` set m) - set visited"

lemma finite_unvisited [simp]: "finite (unvisited m visited s)"
  by (simp add: unvisited_def)

lemma unvisited_decreases:
  assumes "sp_id s \<notin> set visited" "map_of m k = Some p"
  shows "card (unvisited m (sp_id s # visited) p) < card (unvisited m visited s)"
proof (rule psubset_card_mono)
  have "sp_id p \<in> sp_id ` snd ` set m"
    using map_of_SomeD [OF assms(2)] by force
  then have "unvisited m (sp_id s # visited) p \<subseteq> unvisited m visited s"
    "sp_id s \<in> unvisited m visited s" "sp_id s \<notin> unvisited m (sp_id s # visited) p"
    using assms(1) by (auto simp: unvisited_def)
  then show "unvisited m (sp_id s # visited) p \<subset> unvisited m visited s" by blast
qed simp

function scope_walk :: "(string \<times> projection) list \<Rightarrow> string list \<Rightarrow> projection \<Rightarrow> bool" where
  "scope_walk m visited s =
     (if sp_id s \<in> set visited then True
      else if is_out_of_scope s then False
      else (case parent_of m s of
              None \<Rightarrow> True
            | Some p \<Rightarrow> scope_walk m (sp_id s # visited) p))"
  by pat_completeness auto
termination
  by (relation "measure (\<lambda>(m, visited, s). card (unvisited m visited s))")
    (auto simp: parent_of_def bind_eq_Some_conv intro: unvisited_decreases)

declare scope_walk.simps [simp del]

definition scope_eligible_surfaces :: "projection list \<Rightarrow> projection list" where
  "scope_eligible_surfaces ss = filter (scope_walk (by_id ss) []) ss"

text \<open>What eligibility means: no surface on the chain of parents is out of scope.\<close>

inductive ancestor :: "(string \<times> projection) list \<Rightarrow> projection \<Rightarrow> projection \<Rightarrow> bool"
  for m :: "(string \<times> projection) list" where
  Self: "ancestor m s s"
| Parent: "ancestor m s t \<Longrightarrow> parent_of m t = Some u \<Longrightarrow> ancestor m s u"

lemma ancestor_step: "parent_of m s = Some p \<Longrightarrow> ancestor m p u \<Longrightarrow> ancestor m s u"
  by (rotate_tac 1, induction rule: ancestor.induct) (auto intro: ancestor.intros)

lemma scope_walk_finds: "\<not> scope_walk m visited s \<Longrightarrow> \<exists>u. ancestor m s u \<and> is_out_of_scope u"
proof (induction m visited s rule: scope_walk.induct)
  case (1 m visited s)
  then show ?case
    by (subst (asm) (2) scope_walk.simps)
      (auto split: if_splits option.splits intro: ancestor.Self ancestor_step)
qed

text \<open>
  Conversely, if every id names one surface, a surface met again is one already checked, so a walk
  that ends without an objection has seen every ancestor.
\<close>

lemma ancestor_closed:
  "ancestor m s u \<Longrightarrow> s \<in> T \<Longrightarrow> (\<And>t p. t \<in> T \<Longrightarrow> parent_of m t = Some p \<Longrightarrow> p \<in> T) \<Longrightarrow> u \<in> T"
  by (induction rule: ancestor.induct) auto

lemma scope_walk_complete:
  assumes "scope_walk m visited s" "sp_id ` T = set visited" "\<And>t. t \<in> T \<Longrightarrow> \<not> is_out_of_scope t"
    and "\<And>t p. t \<in> T \<Longrightarrow> parent_of m t = Some p \<Longrightarrow> p \<in> insert s T"
    and "\<And>t. t \<in> insert s T \<Longrightarrow> map_of m (sp_id t) = Some t"
    and "\<And>k t. map_of m k = Some t \<Longrightarrow> sp_id t = k"
    and "t \<in> insert s T" "ancestor m t u"
  shows "\<not> is_out_of_scope u"
  using assms
proof (induction m visited s arbitrary: T t rule: scope_walk.induct)
  case (1 m visited s)
  note prems = 1(2-6) 1(8) 1(9) and ids = 1(7)
  show ?case
  proof (cases "sp_id s \<in> set visited")
    case True
    then obtain t' where "t' \<in> T" "sp_id t' = sp_id s" using prems(2) by (metis imageE)
    then have "s \<in> T" using prems(5) by (metis insertCI option.inject)
    then have "u \<in> T" using ancestor_closed [OF prems(7), of T] prems(4,6) by blast
    then show ?thesis using prems(3) by blast
  next
    case False
    then have s: "\<not> is_out_of_scope s" using prems(1) by (auto simp: scope_walk.simps [of m visited s])
    show ?thesis
    proof (cases "parent_of m s")
      case None
      then have "u \<in> insert s T"
        using ancestor_closed [OF prems(7), of "insert s T"] prems(4,6) by fastforce
      then show ?thesis using s prems(3) by blast
    next
      case (Some p)
      have w: "scope_walk m (sp_id s # visited) p"
        using prems(1) False s Some by (simp add: scope_walk.simps [of m visited s])
      obtain k where k: "map_of m k = Some p" using Some by (auto simp: parent_of_def bind_eq_Some_conv)
      show ?thesis
      proof (rule 1(1) [OF False s Some w, of "insert s T" t])
        show "map_of m (sp_id q) = Some q" if "q \<in> insert p (insert s T)" for q
          using that prems(5) k ids [OF k] by auto
      qed (use prems ids s Some in auto)
    qed
  qed
qed


lemma map_of_js_map: "map_of (js_map_of kvs) = map_of (rev kvs)"
proof (induction kvs rule: rev_induct)
  case (snoc kv kvs)
  then show ?case by (cases kv) (simp add: js_map_of_def map_of_update)
qed (simp add: js_map_of_def)

lemma map_of_by_id: "map_of (by_id ss) k = Some t \<Longrightarrow> t \<in> set ss \<and> sp_id t = k"
  by (auto simp: by_id_def map_of_js_map dest!: map_of_SomeD)

lemma map_of_by_id_distinct:
  assumes "distinct (map sp_id ss)" "s \<in> set ss" shows "map_of (by_id ss) (sp_id s) = Some s"
proof -
  have "distinct (map fst (rev (map (\<lambda>s. (sp_id s, s)) ss)))"
    using assms(1) by (simp add: rev_map [symmetric] o_def)
  moreover have "(sp_id s, s) \<in> set (rev (map (\<lambda>s. (sp_id s, s)) ss))"
    using assms(2) by auto
  ultimately show ?thesis unfolding by_id_def map_of_js_map by (rule map_of_is_SomeI)
qed

lemma scope_eligible_iff:
  assumes "distinct (map sp_id ss)"
  shows "s \<in> set (scope_eligible_surfaces ss) \<longleftrightarrow>
     s \<in> set ss \<and> (\<forall>u. ancestor (by_id ss) s u \<longrightarrow> \<not> is_out_of_scope u)"
proof -
  have "\<not> is_out_of_scope u" if "s \<in> set ss" "scope_walk (by_id ss) [] s" "ancestor (by_id ss) s u" for u
    by (rule scope_walk_complete [OF that(2), of "{}" s])
      (use that assms map_of_by_id in \<open>auto simp: map_of_by_id_distinct\<close>)
  then show ?thesis
    using scope_walk_finds [of "by_id ss" "[]" s] by (auto simp: scope_eligible_surfaces_def)
qed

section \<open>Scores\<close>

definition actionability_decay_interval_ms :: int where
  "actionability_decay_interval_ms = 21600000"

definition decayed_actionability :: "int \<Rightarrow> int \<Rightarrow> int \<Rightarrow> int" where
  "decayed_actionability score updated now =
     max 0 (min 100 score
       - (if now - updated > 0 then (now - updated) div actionability_decay_interval_ms * 3 else 0))"

text \<open>\<open>cooldownUntil\<close>: none for the first two epochs, then 6, 12, 24, ... hours, at most a week.\<close>

definition cooldown_hours :: "nat \<Rightarrow> nat" where
  "cooldown_hours n = min 168 (6 * 2 ^ min 5 (n - 2))"

definition cooldown_until :: "int \<Rightarrow> nat \<Rightarrow> int option" where
  "cooldown_until now n = (if n < 2 then None else Some (now + int (cooldown_hours n) * 3600000))"

definition testable_angle :: "angle list \<Rightarrow> bool" where
  "testable_angle as \<longleftrightarrow> list_ex (\<lambda>a. an_status a = Angle_open \<or> an_status a = Angle_supported) as"

definition impact_adjustment :: "impact \<Rightarrow> bool \<Rightarrow> int" where
  "impact_adjustment i testable = (case i of
     Impact_unknown \<Rightarrow> 0 | Impact_low \<Rightarrow> -25 | Impact_medium \<Rightarrow> 0
   | Impact_high \<Rightarrow> if testable then 30 else 10
   | Impact_critical \<Rightarrow> if testable then 40 else 20)"

definition untested_environment :: "environment \<Rightarrow> bool" where
  "untested_environment e \<longleftrightarrow> e = Env_none \<or> e = Env_localhost"

definition ranking_sum :: "ranking \<Rightarrow> int" where
  "ranking_sum r = rk_impact r + rk_reachability r + rk_relevance r + rk_exposure r + rk_precedence r"

definition priority_breakdown :: "surface_row \<Rightarrow> ranking option \<Rightarrow> priority" where
  "priority_breakdown w rk =
     (let testable = testable_angle (sr_angles w);
          impact_adj = (if rk \<noteq> None then 0 else impact_adjustment (sr_impact w) testable);
          ranking_adj = (case rk of Some r \<Rightarrow> 2 * (ranking_sum r - 25) | None \<Rightarrow> 0);
          penalty = (case sr_validation w of
              Some v \<Rightarrow> if va_targetDependent v \<and> untested_environment (va_environment v) then 50 else 0
            | None \<Rightarrow> 0);
          bonus = (if testable \<and> penalty = 0 then 15 else 0);
          idle = int (sr_noProgress w) * 10
      in \<lparr>pr_baseScore = sr_score w + impact_adj + ranking_adj + bonus - penalty - idle,
          pr_actionability = sr_score w, pr_impactAdjustment = impact_adj,
          pr_surfaceRankingAdjustment = ranking_adj, pr_testableAngleBonus = bonus,
          pr_targetValidationPenalty = penalty, pr_noProgressPenalty = idle\<rparr>)"

record progress_counts =
  pc_investigated :: nat
  pc_complete :: nat
  pc_total :: nat

definition research_track_progress :: "surface_row list \<Rightarrow> progress_counts" where
  "research_track_progress ws =
     (let included = filter (\<lambda>w. sr_status w \<noteq> Work_excluded) ws in
      \<lparr>pc_investigated = length (filter (\<lambda>w. sr_epochs w > 0 \<or> sr_status w = Work_complete) included),
       pc_complete = length (filter (\<lambda>w. sr_status w = Work_complete) included),
       pc_total = length included\<rparr>)"

text \<open>\<open>get()\<close>: the rows in the order of the query, with the score decayed to the time of the read.\<close>

definition row_order :: "surface_row \<Rightarrow> surface_row \<Rightarrow> int" where
  "row_order = cmp_then (cmp_on sr_updated cmp_int) (cmp_on sr_id cmp_units)"

definition read_row :: "int \<Rightarrow> surface_row \<Rightarrow> surface_row" where
  "read_row now r = r\<lparr>sr_score := decayed_actionability (sr_score r)
     (case sr_scoreUpdated r of Some t \<Rightarrow> t | None \<Rightarrow> sr_updated r) now\<rparr>"

definition works :: "int \<Rightarrow> track_db \<Rightarrow> surface_row list" where
  "works now db = map (read_row now) (js_sort row_order (db_surfaces db))"

definition track_get :: "int \<Rightarrow> track_db \<Rightarrow> snapshot option" where
  "track_get now db = map_option (\<lambda>t. \<lparr>sn_track = t,
     sn_surfaces = map (\<lambda>w. \<lparr>sv_work = w, sv_priority = priority_breakdown w (sr_ranking w)\<rparr>)
       (works now db)\<rparr>) (db_track db)"

definition find_work :: "string \<Rightarrow> surface_row list \<Rightarrow> surface_row option" where
  "find_work k ws = find (\<lambda>w. sr_id w = k) ws"

end
