(* ===== verification/Track_Evidence.thy ===== *)
theory Track_Evidence
  imports Track_Model
begin

text \<open>
  Evidence references of the research track (\<open>#validEvidenceRef\<close>,
  \<open>#freshEvidenceRef\<close>, \<open>#assertEvidenceRef\<close> of
  \<open>packages/research-agent/src/research-track.ts\<close>).  The tables they join are lists of
  rows; \<open>None\<close> is a table that does not exist in the database.  Rows of other workspaces
  are present where the query has to filter them.
\<close>

section \<open>References\<close>

datatype ref_kind = Ref_finding | Ref_memory | Ref_runbook | Ref_report

definition ref_kind_of :: "string \<Rightarrow> ref_kind option" where
  "ref_kind_of s = (if s = ''finding'' then Some Ref_finding else if s = ''memory'' then Some Ref_memory
     else if s = ''runbook'' then Some Ref_runbook else if s = ''report'' then Some Ref_report else None)"

definition ref_char :: "char \<Rightarrow> bool" where
  "ref_char c = (let n = (of_char c :: nat) in
     65 \<le> n \<and> n \<le> 90 \<or> 97 \<le> n \<and> n \<le> 122 \<or> 48 \<le> n \<and> n \<le> 57 \<or> n = 95 \<or> n = 45)"

text \<open>\<open>/^(finding|memory|runbook|report):([A-Za-z0-9_-]{1,160})$/u\<close>\<close>

definition track_evidence_ref :: "string \<Rightarrow> (ref_kind \<times> string) option" where
  "track_evidence_ref ref =
     (let kind = takeWhile (\<lambda>c. c \<noteq> CHR '':'') ref; rest = dropWhile (\<lambda>c. c \<noteq> CHR '':'') ref in
      case rest of
        [] \<Rightarrow> None
      | _ # key \<Rightarrow> Option.bind (ref_kind_of kind) (\<lambda>k.
          oguard (1 \<le> length key \<and> length key \<le> 160 \<and> list_all ref_char key) (Some (k, key))))"

section \<open>Tables\<close>

text \<open>A row of a table keyed by id and workspace, with its \<open>updated_at\<close> when that is text.\<close>

record keyed_row =
  kr_id :: string
  kr_workspace :: string
  kr_updated :: "string option"

record claim_row = keyed_row +
  cl_duplicateOf :: "string option"
  cl_status :: string

record claim_evidence_row =
  ce_claim :: string
  ce_created :: int
  ce_kind :: string
  ce_reference :: "string option"
  ce_hash :: "string option"

record memory_node_row =
  mn_id :: string
  mn_updated :: "string option"
  mn_duplicateOf :: "string option"
  mn_status :: string

record memory_evidence_row =
  me_node :: string
  me_created :: int
  me_kind :: string
  me_path :: "string option"
  me_locator :: "string option"

record runbook_execution_row =
  re_run :: string
  re_runbook :: string
  re_workspace :: string
  re_completed :: "int option"
  re_status :: string

record cell_execution_row =
  cx_run :: string
  cx_status :: string

record evidence_db =
  ed_workspace :: string
  ed_claims :: "claim_row list option"
  ed_claimEvidence :: "claim_evidence_row list option"
  ed_claimDuplicates :: bool
  ed_memory :: "memory_node_row list option"
  ed_memberships :: "(string \<times> string) list option"
  ed_memoryEvidence :: "memory_evidence_row list option"
  ed_memoryDuplicates :: bool
  ed_runbooks :: "keyed_row list option"
  ed_reports :: "keyed_row list option"
  ed_executions :: "runbook_execution_row list option"
  ed_cells :: "cell_execution_row list option"

text \<open>\<open>trim\<close> of SQLite removes spaces only; \<open>NULLIF(trim(x), '') IS NOT NULL\<close>.\<close>

definition sql_trim :: "string \<Rightarrow> string" where
  "sql_trim s = rev (dropWhile (\<lambda>c. c = space) (rev (dropWhile (\<lambda>c. c = space) s)))"

definition sql_present :: "string option \<Rightarrow> bool" where
  "sql_present v = (case v of None \<Rightarrow> False | Some s \<Rightarrow> sql_trim s \<noteq> [])"

section \<open>Valid references\<close>

definition keyed_valid :: "evidence_db \<Rightarrow> ('a keyed_row_scheme) list option \<Rightarrow> string \<Rightarrow> bool" where
  "keyed_valid db rows key = (case rows of
     None \<Rightarrow> False
   | Some rs \<Rightarrow> (case find (\<lambda>r. kr_id r = key \<and> kr_workspace r = ed_workspace db) rs of
        Some r \<Rightarrow> kr_updated r \<noteq> None
      | None \<Rightarrow> False))"

definition member_of :: "evidence_db \<Rightarrow> string \<Rightarrow> bool" where
  "member_of db key = (case ed_memberships db of
     None \<Rightarrow> False
   | Some ms \<Rightarrow> (key, ed_workspace db) \<in> set ms)"

definition memory_valid :: "evidence_db \<Rightarrow> string \<Rightarrow> bool" where
  "memory_valid db key = (case ed_memory db of
     None \<Rightarrow> False
   | Some ns \<Rightarrow> (case find (\<lambda>n. mn_id n = key \<and> member_of db key) ns of
        Some n \<Rightarrow> mn_updated n \<noteq> None
      | None \<Rightarrow> False))"

definition valid_evidence_ref :: "evidence_db \<Rightarrow> string \<Rightarrow> bool" where
  "valid_evidence_ref db ref = (case track_evidence_ref ref of
     None \<Rightarrow> False
   | Some (Ref_finding, key) \<Rightarrow> keyed_valid db (ed_claims db) key
   | Some (Ref_memory, key) \<Rightarrow> memory_valid db key
   | Some (Ref_runbook, key) \<Rightarrow> keyed_valid db (ed_runbooks db) key
   | Some (Ref_report, key) \<Rightarrow> keyed_valid db (ed_reports db) key)"

section \<open>Fresh evidence\<close>

definition within :: "int \<Rightarrow> int \<Rightarrow> int \<Rightarrow> bool" where
  "within since until t \<longleftrightarrow> t > since \<and> t \<le> until"

definition canonical_claim_statuses :: "string list" where
  "canonical_claim_statuses = [''observed'', ''reproduced'', ''verified'', ''report_ready'', ''disclosed'']"

definition claim_evidence_kinds :: "string list" where
  "claim_evidence_kinds = [''code'', ''artifact'', ''command'', ''proof'', ''runbook_execution'',
     ''independent_verification'']"

definition fresh_claim :: "evidence_db \<Rightarrow> claim_row list \<Rightarrow> claim_evidence_row list \<Rightarrow> string \<Rightarrow> int \<Rightarrow> int \<Rightarrow> bool" where
  "fresh_claim db claims evidence key since until \<longleftrightarrow>
     list_ex (\<lambda>e. list_ex (\<lambda>c. kr_id c = ce_claim e \<and> kr_id c = key \<and> kr_workspace c = ed_workspace db
         \<and> (ed_claimDuplicates db \<longrightarrow> cl_duplicateOf c = None)
         \<and> cl_status c \<in> set canonical_claim_statuses) claims
       \<and> within since until (ce_created e)
       \<and> ce_kind e \<in> set claim_evidence_kinds
       \<and> (sql_present (ce_reference e) \<or> sql_present (ce_hash e))) evidence"

definition memory_evidence_kinds :: "string list" where
  "memory_evidence_kinds = [''code'', ''artifact'', ''command'']"

definition empty_locators :: "string list" where
  "empty_locators = [[], ''{}'', ''null'', ''[]'']"

definition locator_present :: "string option \<Rightarrow> bool" where
  "locator_present v = (case v of None \<Rightarrow> False | Some s \<Rightarrow> sql_trim s \<notin> set empty_locators)"

definition stale_memory_statuses :: "string list" where
  "stale_memory_statuses = [''rejected'', ''stale'']"

definition fresh_memory ::
  "evidence_db \<Rightarrow> memory_node_row list \<Rightarrow> memory_evidence_row list \<Rightarrow> string \<Rightarrow> int \<Rightarrow> int \<Rightarrow> bool" where
  "fresh_memory db nodes evidence key since until \<longleftrightarrow>
     list_ex (\<lambda>e. list_ex (\<lambda>n. mn_id n = me_node e \<and> mn_id n = key \<and> member_of db key
         \<and> (ed_memoryDuplicates db \<longrightarrow> mn_duplicateOf n = None)
         \<and> mn_status n \<notin> set stale_memory_statuses) nodes
       \<and> within since until (me_created e)
       \<and> me_kind e \<in> set memory_evidence_kinds
       \<and> (sql_present (me_path e) \<or> locator_present (me_locator e))) evidence"

definition ended_statuses :: "string list" where
  "ended_statuses = [''succeeded'', ''failed'']"

definition fresh_runbook ::
  "evidence_db \<Rightarrow> runbook_execution_row list \<Rightarrow> cell_execution_row list \<Rightarrow> string \<Rightarrow> int \<Rightarrow> int \<Rightarrow> bool" where
  "fresh_runbook db executions cells key since until \<longleftrightarrow>
     list_ex (\<lambda>x. re_runbook x = key \<and> re_workspace x = ed_workspace db
       \<and> (case re_completed x of None \<Rightarrow> False | Some t \<Rightarrow> within since until t)
       \<and> re_status x \<in> set ended_statuses
       \<and> list_ex (\<lambda>c. cx_run c = re_run x \<and> cx_status c \<in> set ended_statuses) cells) executions"

fun fresh_key :: "evidence_db \<Rightarrow> ref_kind \<Rightarrow> string \<Rightarrow> int \<Rightarrow> int \<Rightarrow> bool" where
  "fresh_key db Ref_finding key since until = (case (ed_claimEvidence db, ed_claims db) of
     (Some es, Some cs) \<Rightarrow> fresh_claim db cs es key since until | _ \<Rightarrow> False)"
| "fresh_key db Ref_memory key since until = (case (ed_memoryEvidence db, ed_memory db, ed_memberships db) of
     (Some es, Some ns, Some _) \<Rightarrow> fresh_memory db ns es key since until | _ \<Rightarrow> False)"
| "fresh_key db Ref_runbook key since until = (case (ed_executions db, ed_cells db) of
     (Some xs, Some cs) \<Rightarrow> fresh_runbook db xs cs key since until | _ \<Rightarrow> False)"
| "fresh_key db Ref_report key since until = False"

definition fresh_evidence_ref :: "evidence_db \<Rightarrow> string \<Rightarrow> int option \<Rightarrow> int \<Rightarrow> bool" where
  "fresh_evidence_ref db ref since until = (case since of
     None \<Rightarrow> False
   | Some s \<Rightarrow> (case track_evidence_ref ref of
        None \<Rightarrow> False
      | Some (k, key) \<Rightarrow> fresh_key db k key s until))"

text \<open>
  Nothing is fresh before a first epoch, a report never is, and fresh evidence lies in a window,
  so a later epoch never counts it again.
\<close>

lemma fresh_needs_since: "\<not> fresh_evidence_ref db ref None until"
  by (simp add: fresh_evidence_ref_def)

lemma fresh_kind:
  "fresh_evidence_ref db ref since until \<Longrightarrow>
   \<exists>k key. track_evidence_ref ref = Some (k, key) \<and> k \<noteq> Ref_report \<and> since \<noteq> None"
  by (auto simp: fresh_evidence_ref_def split: option.splits)

lemma not_within: "until \<le> since \<Longrightarrow> \<not> within since until t"
  by (simp add: within_def)

lemma fresh_key_window: "until \<le> since \<Longrightarrow> \<not> fresh_key db k key since until"
  by (cases k) (auto simp: fresh_claim_def fresh_memory_def fresh_runbook_def not_within list_ex_iff
      split: option.split)

lemma fresh_window_empty: "until \<le> since \<Longrightarrow> \<not> fresh_evidence_ref db ref (Some since) until"
  by (auto simp: fresh_evidence_ref_def fresh_key_window split: option.split)

lemma valid_has_form: "valid_evidence_ref db ref \<Longrightarrow> track_evidence_ref ref \<noteq> None"
  by (cases "track_evidence_ref ref") (simp_all add: valid_evidence_ref_def)

lemma track_evidence_ref_report:
  "track_evidence_ref ''report:r1'' = Some (Ref_report, ''r1'')"
  "track_evidence_ref ''/tmp/x'' = None"
  by code_simp+

end
