(* ===== verification/Track_Store.thy ===== *)
theory Track_Store
  imports Track_Evidence
begin

text \<open>
  The operations of \<open>ResearchTrackStore\<close>
  (\<open>packages/research-agent/src/research-track.ts\<close>) on the two tables: starting a pass,
  synchronising surfaces, operator control, reserving the next epoch, the agent's checkpoint and
  the end of an epoch.  An operation that throws before it writes, or inside its transaction,
  returns \<open>Inl\<close> and leaves the tables as they were.  \<open>now\<close> is the clock during the
  call and \<open>lc\<close> is \<open>localeCompare\<close>.
\<close>

datatype field_label =
    Field_scopeId | Field_sessionId | Field_reason | Field_evidenceRef | Field_surfaceId
  | Field_theory | Field_nextAction | Field_angle_name | Field_angle_attackerControl
  | Field_angle_trustBoundary | Field_angle_failureMode | Field_angle_unauthorizedEffect
  | Field_angle_proofQuestion | Field_angle_nextAction

datatype track_error =
    Must_be_nonempty field_label
  | No_eligible_surface
  | Target_count
  | Unfinished_track
  | No_track
  | Resume_target_count
  | Only_paused_resumes
  | Only_running_pauses
  | Workers_only_refused
  | Changed_before_workers_only
  | Different_surface_assigned
  | Missing_surface_row
  | Blocker_missing
  | Scope_assessment_missing
  | Too_many_evidence_refs
  | Invalid_evidence_ref
  | Unknown_evidence_record ref_kind
  | Validation_incomplete
  | Validation_gap_unexplained
  | Untested_completion
  | Angle_count
  | Angle_malformed
  | Angle_without_vector
  | Angle_out_of_bounds
  | Angle_repeated
  | Angle_without_evidence
  | Too_many_angles
  | Angles_share_vector
  | Lead_agent_only
  | Invalid_outcome
  | Invalid_impact
  | Refs_not_strings
  | Angles_not_array
  | Validation_not_object

definition required :: "string option \<Rightarrow> field_label \<Rightarrow> (track_error, string) res" where
  "required v l = (case v of
     Some s \<Rightarrow> if js_trim s \<noteq> [] then Inr (js_trim s) else Inl (Must_be_nonempty l)
   | None \<Rightarrow> Inl (Must_be_nonempty l))"

definition bounded :: "string \<Rightarrow> nat \<Rightarrow> string" where
  "bounded s n = take n (js_trim s)"

section \<open>Surfaces\<close>

text \<open>\<open>UPDATE ... WHERE surface_id = k\<close>\<close>

definition update_row :: "string \<Rightarrow> (surface_row \<Rightarrow> surface_row) \<Rightarrow> surface_row list \<Rightarrow> surface_row list" where
  "update_row k f rs = map (\<lambda>r. if sr_id r = k then f r else r) rs"

definition foundation_ranking :: "projection \<Rightarrow> ranking option" where
  "foundation_ranking s = Option.bind (sp_foundation s) fo_ranking"

definition initial_action :: string where
  "initial_action = ''Inspect the component and choose a promising research question.''"

definition new_row :: "int \<Rightarrow> projection \<Rightarrow> surface_row" where
  "new_row now s = \<lparr>sr_id = sp_id s, sr_name = sp_name s, sr_status = Work_unexamined,
     sr_impact = Impact_unknown, sr_theory = [], sr_nextAction = initial_action, sr_refs = [],
     sr_angles = [], sr_epochs = 0, sr_noProgress = 0, sr_revisits = 0, sr_revisitAfter = None,
     sr_lastWorked = None, sr_updated = now,
     sr_score = (if parent_id s \<noteq> None then 55 else 35), sr_scoreUpdated = Some now,
     sr_validation = None, sr_ranking = foundation_ranking s\<rparr>"

text \<open>\<open>INSERT OR IGNORE\<close>\<close>

definition insert_surface :: "int \<Rightarrow> surface_row list \<Rightarrow> projection \<Rightarrow> surface_row list" where
  "insert_surface now rs s = (if list_ex (\<lambda>r. sr_id r = sp_id s) rs then rs else rs @ [new_row now s])"

definition insert_surfaces :: "int \<Rightarrow> projection list \<Rightarrow> surface_row list \<Rightarrow> surface_row list" where
  "insert_surfaces now ss rs = foldl (insert_surface now) rs ss"

definition exclude_hidden ::
  "int \<Rightarrow> string list \<Rightarrow> surface_row list \<Rightarrow> surface_row list \<Rightarrow> surface_row list" where
  "exclude_hidden now visible ws rs = foldl (\<lambda>rs w.
     if sr_id w \<notin> set visible \<and> sr_status w \<noteq> Work_excluded
     then update_row (sr_id w) (\<lambda>r. r\<lparr>sr_status := Work_excluded, sr_updated := now\<rparr>) rs
     else rs) rs ws"

text \<open>The status a synchronised surface gets from the status it had.\<close>

definition sync_status :: "int \<Rightarrow> bool \<Rightarrow> work_status \<Rightarrow> surface_row \<Rightarrow> surface_row" where
  "sync_status now blocker status r =
     (if status = Work_excluded then
        r\<lparr>sr_status := (if blocker then Work_blocked else Work_deferred), sr_updated := now\<rparr>
      else if blocker \<and> status \<noteq> Work_blocked then r\<lparr>sr_status := Work_blocked, sr_updated := now\<rparr>
      else if \<not> blocker \<and> status = Work_blocked then
        r\<lparr>sr_status := Work_deferred, sr_revisitAfter := None, sr_updated := now\<rparr>
      else r)"

definition sync_surface :: "int \<Rightarrow> surface_row list \<Rightarrow> surface_row list \<Rightarrow> projection \<Rightarrow> surface_row list" where
  "sync_surface now ws rs s =
     (let named = update_row (sp_id s) (\<lambda>r. r\<lparr>sr_name := sp_name s, sr_ranking := foundation_ranking s\<rparr>) rs
      in case find_work (sp_id s) ws of
           None \<Rightarrow> named
         | Some w \<Rightarrow> update_row (sp_id s) (sync_status now (sp_blocker s \<noteq> None) (sr_status w)) named)"

section \<open>Operator control\<close>

definition map_track :: "(track_row \<Rightarrow> track_row) \<Rightarrow> track_db \<Rightarrow> track_db" where
  "map_track f db = db\<lparr>db_track := map_option f (db_track db)\<rparr>"

definition pause_with_error :: "int \<Rightarrow> string \<Rightarrow> track_db \<Rightarrow> (track_error, track_db) res" where
  "pause_with_error now reason db = (case db_track db of
     None \<Rightarrow> Inr db
   | Some t \<Rightarrow> rbind (required (Some reason) Field_reason) (\<lambda>r.
       Inr (map_track (\<lambda>t. t\<lparr>tk_status := Track_paused, tk_error := Some (bounded r 1000),
         tk_updated := now\<rparr>) db)))"

definition new_surface_reason :: string where
  "new_surface_reason = ''A new eligible security surface appeared. Resume for another pass.''"

definition pause_for_new_surface :: "int \<Rightarrow> track_db \<Rightarrow> track_db" where
  "pause_for_new_surface now db =
     (case pause_with_error now new_surface_reason db of Inr db' \<Rightarrow> db' | Inl _ \<Rightarrow> db)"

definition sync_surfaces :: "int \<Rightarrow> projection list \<Rightarrow> track_db \<Rightarrow> track_db" where
  "sync_surfaces now ss db = (case db_track db of
     None \<Rightarrow> db
   | Some t \<Rightarrow>
       (let eligible = scope_eligible_surfaces ss; ws = works now db;
            new_surface = list_ex (\<lambda>s. find_work (sp_id s) ws = None) eligible;
            inserted = insert_surfaces now eligible (db_surfaces db);
            hidden = exclude_hidden now (map sp_id eligible) ws inserted;
            db' = db\<lparr>db_surfaces := foldl (sync_surface now ws) hidden eligible\<rparr>
        in if new_surface \<and> tk_status t = Track_complete then pause_for_new_surface now db' else db'))"

record start_input =
  si_scopeId :: string
  si_provider :: json
  si_guardian :: "bool option"
  si_targets :: "string list"
  si_collaboration :: "json option"
  si_surfaces :: "projection list"
  si_replace :: bool

definition targets_ok :: "string list \<Rightarrow> bool" where
  "targets_ok ts \<longleftrightarrow> ts \<noteq> [] \<and> length ts \<le> 16 \<and> distinct ts"

definition unfinished :: "track_row \<Rightarrow> bool \<Rightarrow> bool" where
  "unfinished t replace \<longleftrightarrow> tk_status t = Track_running
     \<or> tk_session t \<noteq> None \<and> tk_status t \<noteq> Track_stopped
     \<or> (tk_status t = Track_paused \<or> tk_status t = Track_waiting) \<and> \<not> replace"

definition start_track :: "int \<Rightarrow> string \<Rightarrow> start_input \<Rightarrow> track_db \<Rightarrow> (track_error, track_db) res" where
  "start_track now new_id i db =
     (let eligible = scope_eligible_surfaces (si_surfaces i) in
      ensure (eligible \<noteq> []) No_eligible_surface (
      ensure (targets_ok (si_targets i)) Target_count (
      ensure (\<not> (case db_track db of Some t \<Rightarrow> unfinished t (si_replace i) | None \<Rightarrow> False)) Unfinished_track (
      rbind (required (Some (si_scopeId i)) Field_scopeId) (\<lambda>scope.
        Inr \<lparr>db_track = Some \<lparr>tk_id = new_id, tk_status = Track_running,
               tk_pass = (case db_track db of Some t \<Rightarrow> tk_pass t | None \<Rightarrow> 0) + 1, tk_scope = scope,
               tk_provider = si_provider i, tk_targets = si_targets i,
               tk_collaboration = si_collaboration i, tk_guardian = (si_guardian i \<noteq> Some False),
               tk_session = None, tk_surface = None, tk_epochs = 0, tk_lastSurface = None,
               tk_surfaceStreak = 0, tk_lastResource = None, tk_resourceStreak = 0, tk_error = None,
               tk_created = now, tk_updated = now\<rparr>,
             db_surfaces = insert_surfaces now eligible
               (case db_track db of Some _ \<Rightarrow> [] | None \<Rightarrow> db_surfaces db),
             db_history = db_history db
               @ (case (db_track db, track_get now db) of
                    (Some t, Some sn) \<Rightarrow> [(tk_pass t, sn, now)] | _ \<Rightarrow> [])\<rparr>)))))"

datatype control_action = Pause | Resume | Stop

definition control_track ::
  "int \<Rightarrow> control_action \<Rightarrow> string list option \<Rightarrow> track_db \<Rightarrow> (track_error, track_db) res" where
  "control_track now action targets db =
     rbind (need (db_track db) No_track) (\<lambda>t.
     ensure (case targets of None \<Rightarrow> True | Some ts \<Rightarrow> action = Resume \<and> targets_ok ts) Resume_target_count (
     ensure (action = Resume \<longrightarrow> tk_status t = Track_paused \<or> tk_status t = Track_waiting) Only_paused_resumes (
     ensure (action = Pause \<longrightarrow> tk_status t = Track_running) Only_running_pauses (
     Inr (case action of
       Stop \<Rightarrow>
         (map_track (\<lambda>t. t\<lparr>tk_status := Track_stopped, tk_session := None, tk_surface := None,
            tk_error := None, tk_updated := now\<rparr>) db)
          \<lparr>db_surfaces := (case tk_surface t of
              None \<Rightarrow> db_surfaces db
            | Some k \<Rightarrow> update_row k (\<lambda>r. if sr_status r = Work_active
                then r\<lparr>sr_status := Work_deferred, sr_updated := now\<rparr> else r) (db_surfaces db))\<rparr>
     | Resume \<Rightarrow> map_track (\<lambda>t. t\<lparr>tk_status := Track_running,
         tk_targets := (case targets of Some ts \<Rightarrow> ts | None \<Rightarrow> tk_targets t),
         tk_error := None, tk_updated := now\<rparr>) db
     | Pause \<Rightarrow> map_track (\<lambda>t. t\<lparr>tk_status := Track_paused, tk_updated := now\<rparr>) db)))))"

end
