(* ===== verification/Track_Schedule.thy ===== *)
theory Track_Schedule
  imports Track_Store
begin

text \<open>
  Reserving and finishing epochs: \<open>reserveNext\<close>, \<open>reserveWorkersOnly\<close> and
  \<open>finishEpoch\<close> of \<open>packages/research-agent/src/research-track.ts\<close>.
\<close>

section \<open>Reading a component\<close>

definition foundation_of :: "(string \<times> projection) list \<Rightarrow> surface_row \<Rightarrow> foundation option" where
  "foundation_of m w = Option.bind (map_of m (sr_id w)) sp_foundation"

definition signal_count :: "(string \<times> projection) list \<Rightarrow> surface_row \<Rightarrow> nat" where
  "signal_count m w = (case Option.bind (foundation_of m w) fo_signals of Some xs \<Rightarrow> length xs | None \<Rightarrow> 0)"

definition ranking_tier :: "ranking \<Rightarrow> nat" where
  "ranking_tier rk =
     (if rk_impact rk \<ge> 7 \<and> rk_reachability rk \<ge> 5 then (if rk_exposure rk \<ge> 5 then 0 else 1)
      else if rk_impact rk \<ge> 7 then 4 else 5)"

definition tier :: "(string \<times> projection) list \<Rightarrow> surface_row \<Rightarrow> nat" where
  "tier m w = (case Option.bind (foundation_of m w) fo_ranking of
     None \<Rightarrow> if signal_count m w > 0 then 2 else 3
   | Some rk \<Rightarrow> ranking_tier rk)"

text \<open>The walk to the root of a surface; \<open>None\<close> when a parent is missing.\<close>

function root_walk ::
  "(string \<times> projection) list \<Rightarrow> string list \<Rightarrow> projection \<Rightarrow> projection option" where
  "root_walk m visited s =
     (case parent_id s of
        None \<Rightarrow> Some s
      | Some k \<Rightarrow>
          if sp_id s \<in> set visited then Some s
          else (case map_of m k of
                  None \<Rightarrow> None
                | Some p \<Rightarrow> root_walk m (sp_id s # visited) p))"
  by pat_completeness auto
termination
  by (relation "measure (\<lambda>(m, visited, s). card (unvisited m visited s))")
    (auto intro: unvisited_decreases)

declare root_walk.simps [simp del]

definition resource_id :: "(string \<times> projection) list \<Rightarrow> surface_row \<Rightarrow> string" where
  "resource_id m w =
     (let surface = map_of m (sr_id w); own = Option.bind surface sp_resourceId in
      if own \<noteq> None \<and> own \<noteq> Some [] then the own
      else (case Option.bind surface (root_walk m []) of
              None \<Rightarrow> sr_id w
            | Some root \<Rightarrow> (case sp_resourceId root of Some k \<Rightarrow> k | None \<Rightarrow> sp_id root)))"

definition resource_kind :: "(string \<times> projection) list \<Rightarrow> surface_row \<Rightarrow> string" where
  "resource_kind m w =
     (case Option.bind (map_of m (sr_id w)) sp_resourceKind of
        Some k \<Rightarrow> k
      | None \<Rightarrow> (case Option.bind (map_of m (resource_id m w)) sp_resourceKind of
           Some k \<Rightarrow> k
         | None \<Rightarrow> ''unknown''))"

text \<open>\<open>kindEpochs\<close> and \<open>resourceEpochs\<close>: the epochs spent, summed by kind and by resource.\<close>

definition visible_works :: "(string \<times> projection) list \<Rightarrow> surface_row list \<Rightarrow> surface_row list" where
  "visible_works m ws = filter (\<lambda>w. map_of m (sr_id w) \<noteq> None) ws"

definition kind_epochs :: "(string \<times> projection) list \<Rightarrow> surface_row list \<Rightarrow> string \<Rightarrow> nat" where
  "kind_epochs m ws k =
     sum_list (map sr_epochs (filter (\<lambda>w. resource_kind m w = k) (visible_works m ws)))"

definition resource_epochs :: "(string \<times> projection) list \<Rightarrow> surface_row list \<Rightarrow> string \<Rightarrow> nat" where
  "resource_epochs m ws k =
     sum_list (map sr_epochs (filter (\<lambda>w. resource_id m w = k) (visible_works m ws)))"

section \<open>Ranking\<close>

definition by_tier :: "(string \<times> projection) list \<Rightarrow> surface_row \<Rightarrow> surface_row \<Rightarrow> int" where
  "by_tier m = cmp_on (\<lambda>w. int (tier m w)) cmp_int"

text \<open>\<open>(left.lastWorkedAt ?? "").localeCompare(right.lastWorkedAt ?? "")\<close> on time stamps\<close>

definition cmp_time :: "int option \<Rightarrow> int option \<Rightarrow> int" where
  "cmp_time a b = (case (a, b) of
     (None, None) \<Rightarrow> 0 | (None, Some _) \<Rightarrow> -1 | (Some _, None) \<Rightarrow> 1 | (Some x, Some y) \<Rightarrow> cmp_int x y)"

definition by_age_and_id ::
  "(string \<Rightarrow> string \<Rightarrow> int) \<Rightarrow> (string \<times> projection) list \<Rightarrow> surface_row \<Rightarrow> surface_row \<Rightarrow> int" where
  "by_age_and_id lc m = cmp_then (cmp_on sr_lastWorked cmp_time)
     (cmp_then (cmp_on (\<lambda>w. - int (signal_count m w)) cmp_int) (cmp_on sr_id lc))"

definition rank_order ::
  "(string \<Rightarrow> string \<Rightarrow> int) \<Rightarrow> (string \<times> projection) list \<Rightarrow> surface_row \<Rightarrow> surface_row \<Rightarrow> int" where
  "rank_order lc m = cmp_then (by_tier m) (by_age_and_id lc m)"

definition rotation_order ::
  "(string \<Rightarrow> string \<Rightarrow> int) \<Rightarrow> (string \<times> projection) list \<Rightarrow> surface_row list
   \<Rightarrow> surface_row \<Rightarrow> surface_row \<Rightarrow> int" where
  "rotation_order lc m ws = cmp_then (by_tier m)
     (cmp_then (cmp_on (\<lambda>w. int (kind_epochs m ws (resource_kind m w))) cmp_int)
     (cmp_then (cmp_on (\<lambda>w. int (resource_epochs m ws (resource_id m w))) cmp_int)
       (by_age_and_id lc m)))"

lemma comparator_cmp_time: "comparator cmp_time"
  by unfold_locales (auto simp: cmp_time_def cmp_int_def sgn_if split: option.splits if_splits)

lemma comparator_by_age: "comparator lc \<Longrightarrow> comparator (by_age_and_id lc m)"
  unfolding by_age_and_id_def by (intro comparator_intros comparator_cmp_time)

lemma comparator_rank_order: "comparator lc \<Longrightarrow> comparator (rank_order lc m)"
  unfolding rank_order_def by_tier_def by (intro comparator_intros comparator_by_age)

lemma comparator_rotation_order: "comparator lc \<Longrightarrow> comparator (rotation_order lc m ws)"
  unfolding rotation_order_def by_tier_def by (intro comparator_intros comparator_by_age)

lemma rank_order_tier: "rank_order lc m x y \<le> 0 \<Longrightarrow> tier m x \<le> tier m y"
  by (auto simp: rank_order_def by_tier_def cmp_then_def cmp_on_def cmp_int_def split: if_splits)

lemma rotation_order_tier: "rotation_order lc m ws x y \<le> 0 \<Longrightarrow> tier m x \<le> tier m y"
  by (auto simp: rotation_order_def by_tier_def cmp_then_def cmp_on_def cmp_int_def split: if_splits)

section \<open>Selection\<close>

definition first_of :: "'a list \<Rightarrow> 'a option" where
  "first_of xs = (case xs of [] \<Rightarrow> None | x # _ \<Rightarrow> Some x)"

definition actionable_works :: "(string \<times> projection) list \<Rightarrow> surface_row list \<Rightarrow> surface_row list" where
  "actionable_works m ws = filter (\<lambda>w. map_of m (sr_id w) \<noteq> None
     \<and> sr_status w \<notin> {Work_complete, Work_blocked, Work_excluded}) ws"

definition cooled :: "int \<Rightarrow> surface_row \<Rightarrow> bool" where
  "cooled now w = (case sr_revisitAfter w of None \<Rightarrow> True | Some t \<Rightarrow> t \<le> now)"

definition ready_works :: "int \<Rightarrow> (string \<times> projection) list \<Rightarrow> surface_row list \<Rightarrow> surface_row list" where
  "ready_works now m ws = filter (cooled now) (actionable_works m ws)"

definition previous_resource ::
  "(string \<times> projection) list \<Rightarrow> surface_row list \<Rightarrow> track_row \<Rightarrow> string option" where
  "previous_resource m ws t = (case tk_lastResource t of
     Some k \<Rightarrow> Some k
   | None \<Rightarrow> map_option (resource_id m) (Option.bind (tk_lastSurface t) (\<lambda>k. find_work k ws)))"

definition resource_streak :: "track_row \<Rightarrow> nat" where
  "resource_streak t = (if tk_lastResource t = None then tk_surfaceStreak t else tk_resourceStreak t)"

definition max_consecutive_resource_epochs :: nat where
  "max_consecutive_resource_epochs = 3"

definition rotation_due :: "(string \<times> projection) list \<Rightarrow> surface_row list \<Rightarrow> track_row \<Rightarrow> bool" where
  "rotation_due m ws t \<longleftrightarrow> previous_resource m ws t \<noteq> None \<and> previous_resource m ws t \<noteq> Some []
     \<and> resource_streak t \<ge> max_consecutive_resource_epochs"

definition alternative_work ::
  "(string \<Rightarrow> string \<Rightarrow> int) \<Rightarrow> (string \<times> projection) list \<Rightarrow> surface_row list \<Rightarrow> surface_row list
   \<Rightarrow> track_row \<Rightarrow> surface_row option" where
  "alternative_work lc m ws ready t =
     (if rotation_due m ws t then
        first_of (js_sort (rotation_order lc m ws)
          (filter (\<lambda>w. Some (resource_id m w) \<noteq> previous_resource m ws t) ready))
      else None)"

definition engaged_work ::
  "(string \<times> projection) list \<Rightarrow> surface_row list \<Rightarrow> surface_row option \<Rightarrow> track_row \<Rightarrow> surface_row option" where
  "engaged_work m ready best t =
     (case (Option.bind (tk_lastSurface t) (\<lambda>k. find_work k ready), best) of
        (Some p, Some b) \<Rightarrow> if sr_noProgress p < 2 \<and> tier m p \<le> tier m b then Some p else None
      | _ \<Rightarrow> None)"

definition select_work ::
  "(string \<Rightarrow> string \<Rightarrow> int) \<Rightarrow> (string \<times> projection) list \<Rightarrow> surface_row list \<Rightarrow> surface_row list
   \<Rightarrow> track_row \<Rightarrow> surface_row option" where
  "select_work lc m ws ready t =
     (let best = first_of (js_sort (rank_order lc m) ready) in
      case alternative_work lc m ws ready t of
        Some w \<Rightarrow> Some w
      | None \<Rightarrow> (case engaged_work m ready best t of Some p \<Rightarrow> Some p | None \<Rightarrow> best))"

section \<open>Reservations\<close>

definition no_component_error :: string where
  "no_component_error =
     ''No actionable component could be selected; review the current research state.''"

definition idle_status :: "surface_row list \<Rightarrow> track_status" where
  "idle_status ws =
     (if list_all (\<lambda>w. sr_status w = Work_complete \<or> sr_status w = Work_excluded) ws then Track_complete
      else if list_ex (\<lambda>w. sr_status w = Work_blocked) ws then Track_waiting
      else Track_paused)"

definition settle_track :: "int \<Rightarrow> surface_row list \<Rightarrow> track_db \<Rightarrow> track_db" where
  "settle_track now ws db = map_track (\<lambda>t. t\<lparr>tk_status := idle_status ws,
     tk_error := (if idle_status ws = Track_paused then Some no_component_error else None),
     tk_updated := now\<rparr>) db"

text \<open>The two updates of the reservation, in one transaction.\<close>

definition reserve_rows ::
  "int \<Rightarrow> string \<Rightarrow> (string \<times> projection) list \<Rightarrow> surface_row list \<Rightarrow> track_row \<Rightarrow> surface_row
   \<Rightarrow> track_db \<Rightarrow> track_db" where
  "reserve_rows now session m ws t w db =
     (map_track (\<lambda>r. r\<lparr>tk_session := Some session, tk_surface := Some (sr_id w),
        tk_epochs := tk_epochs r + 1, tk_lastSurface := Some (sr_id w),
        tk_surfaceStreak := (if tk_lastSurface r = Some (sr_id w) then tk_surfaceStreak r + 1 else 1),
        tk_lastResource := Some (resource_id m w),
        tk_resourceStreak := (if previous_resource m ws t = Some (resource_id m w)
          then resource_streak t + 1 else 1),
        tk_updated := now\<rparr>) db)
     \<lparr>db_surfaces := update_row (sr_id w) (\<lambda>r. r\<lparr>sr_status := Work_active, sr_epochs := sr_epochs r + 1,
        sr_lastWorked := Some now, sr_updated := now\<rparr>) (db_surfaces db)\<rparr>"

record reservation =
  rv_surface :: projection
  rv_work :: surface_row
  rv_focus :: epoch_focus

text \<open>
  The surfaces are synchronised first and stay synchronised even when the reservation throws or
  finds nothing to do.
\<close>

definition reserve_next ::
  "(string \<Rightarrow> string \<Rightarrow> int) \<Rightarrow> int \<Rightarrow> string \<Rightarrow> projection list \<Rightarrow> track_db
   \<Rightarrow> track_db \<times> (track_error, reservation option) res" where
  "reserve_next lc now session ss db0 =
     (let db = sync_surfaces now ss db0 in
      case db_track db of
        None \<Rightarrow> (db, Inr None)
      | Some t \<Rightarrow>
          if tk_status t \<noteq> Track_running \<or> tk_session t \<noteq> None then (db, Inr None)
          else
            (let m = by_id ss; ws = works now db; ready = ready_works now m ws in
             if actionable_works m ws \<noteq> [] \<and> ready = [] then (db, Inr None)
             else (case select_work lc m ws ready t of
                     None \<Rightarrow> (settle_track now ws db, Inr None)
                   | Some w \<Rightarrow> (case required (Some session) Field_sessionId of
                        Inl e \<Rightarrow> (db, Inl e)
                      | Inr session' \<Rightarrow>
                          (reserve_rows now session' m ws t w db,
                           Inr (map_option (\<lambda>s. \<lparr>rv_surface = s, rv_work = w,
                              rv_focus = (if sr_epochs w = 0 then First_epoch else Continuing)\<rparr>)
                              (map_of m (sr_id w))))))))"

definition reserve_workers_only :: "int \<Rightarrow> string \<Rightarrow> track_db \<Rightarrow> (track_error, track_db) res" where
  "reserve_workers_only now session db = (case db_track db of
     None \<Rightarrow> Inl Workers_only_refused
   | Some t \<Rightarrow>
       ensure (tk_session t = None \<and> tk_status t \<in> {Track_running, Track_waiting, Track_complete})
         Workers_only_refused
         (Inr (map_track (\<lambda>t. t\<lparr>tk_status := Track_running, tk_session := Some session,
            tk_surface := None, tk_epochs := tk_epochs t + 1, tk_error := None,
            tk_updated := now\<rparr>) db)))"

definition unfinished_action :: string where
  "unfinished_action = ''Resume the assigned threat-model investigation and record a durable checkpoint.''"

definition epoch_ended_early :: string where
  "epoch_ended_early = ''The research epoch ended before completion.''"

definition finish_row :: "int \<Rightarrow> nat \<Rightarrow> surface_row \<Rightarrow> surface_row \<Rightarrow> surface_row" where
  "finish_row now inc w r = r\<lparr>sr_status := Work_deferred, sr_noProgress := sr_noProgress r + inc,
     sr_score := max 0 (sr_score w - 20), sr_scoreUpdated := Some now, sr_nextAction := unfinished_action,
     sr_revisitAfter := cooldown_until now (sr_noProgress w + inc), sr_updated := now\<rparr>"

definition finish_epoch ::
  "int \<Rightarrow> string \<Rightarrow> bool \<Rightarrow> string option \<Rightarrow> bool option \<Rightarrow> track_db \<Rightarrow> track_db" where
  "finish_epoch now session succeeded diagnostic count_no_progress db = (case db_track db of
     None \<Rightarrow> db
   | Some t \<Rightarrow>
       if tk_session t \<noteq> Some session then db
       else
         (let inc = (if count_no_progress = Some False then 0 else 1);
              rows = (case Option.bind (tk_surface t) (\<lambda>k. find_work k (works now db)) of
                 Some w \<Rightarrow> if sr_status w = Work_active
                   then update_row (sr_id w) (finish_row now inc w) (db_surfaces db) else db_surfaces db
               | None \<Rightarrow> db_surfaces db)
          in (map_track (\<lambda>t. t\<lparr>tk_session := None, tk_surface := None,
                tk_error := (if tk_status t = Track_paused then tk_error t
                  else if succeeded then None
                  else Some (bounded (case diagnostic of Some d \<Rightarrow> d | None \<Rightarrow> epoch_ended_early) 1000)),
                tk_updated := now\<rparr>) db)
             \<lparr>db_surfaces := rows\<rparr>))"

end
