(* ===== verification/Track_Checkpoint.thy ===== *)
theory Track_Checkpoint
  imports Track_Schedule
begin

text \<open>
  The agent's side of the research track: the merge of attacker paths, the checkpoint of the
  assigned surface and the \<open>track.checkpoint\<close> tool
  (\<open>checkpoint\<close>, \<open>#mergeAngles\<close> and \<open>createResearchTrackTool\<close> of
  \<open>packages/research-agent/src/research-track.ts\<close>).  Attacker paths and the validation
  arrive as unchecked JSON.
\<close>

section \<open>Evidence references\<close>

definition assert_evidence_ref :: "evidence_db \<Rightarrow> string \<Rightarrow> (track_error, string) res" where
  "assert_evidence_ref ev ref = (case track_evidence_ref ref of
     None \<Rightarrow> Inl Invalid_evidence_ref
   | Some (k, _) \<Rightarrow> ensure (valid_evidence_ref ev ref) (Unknown_evidence_record k) (Inr ref))"

lemma assert_evidence_ref_Inr: "assert_evidence_ref ev ref = Inr r \<longleftrightarrow> r = ref \<and> valid_evidence_ref ev ref"
  using valid_has_form [of ev ref]
  by (auto simp: assert_evidence_ref_def ensure_def split: option.splits)

section \<open>Attacker paths\<close>

definition angle_status_of :: "string \<Rightarrow> angle_status option" where
  "angle_status_of s = (if s = ''open'' then Some Angle_open else if s = ''supported'' then Some Angle_supported
     else if s = ''ruled_out'' then Some Angle_ruled_out else if s = ''blocked'' then Some Angle_blocked
     else None)"

fun json_strings :: "json list \<Rightarrow> string list option" where
  "json_strings [] = Some []"
| "json_strings (JStr s # vs) = map_option ((#) s) (json_strings vs)"
| "json_strings (_ # vs) = None"

definition is_object :: "json \<Rightarrow> bool" where
  "is_object v = (case v of JObj _ \<Rightarrow> True | JArr _ \<Rightarrow> True | _ \<Rightarrow> False)"

text \<open>The checks of one path, on its fields; the vector parts come from the nested object.\<close>

definition check_vector ::
  "json option \<Rightarrow> json option \<Rightarrow> json option \<Rightarrow> json option \<Rightarrow> (track_error, vector) res" where
  "check_vector control boundary failure effect =
     rbind (required (as_string control) Field_angle_attackerControl) (\<lambda>c.
     rbind (required (as_string boundary) Field_angle_trustBoundary) (\<lambda>b.
     rbind (required (as_string failure) Field_angle_failureMode) (\<lambda>f.
     rbind (required (as_string effect) Field_angle_unauthorizedEffect) (\<lambda>e.
       Inr \<lparr>ve_attackerControl = c, ve_trustBoundary = b, ve_failureMode = f, ve_unauthorizedEffect = e\<rparr>))))"

definition vector_within :: "vector \<Rightarrow> nat \<Rightarrow> bool" where
  "vector_within v n \<longleftrightarrow> length (ve_attackerControl v) \<le> n \<and> length (ve_trustBoundary v) \<le> n
     \<and> length (ve_failureMode v) \<le> n \<and> length (ve_unauthorizedEffect v) \<le> n"

definition angle_bounds :: "angle \<Rightarrow> vector \<Rightarrow> bool" where
  "angle_bounds a v \<longleftrightarrow> length (an_name a) \<le> 160 \<and> vector_within v 500
     \<and> length (an_proofQuestion a) \<le> 500 \<and> length (an_nextAction a) \<le> 500
     \<and> length (an_evidenceRefs a) \<le> 8 \<and> list_all (\<lambda>r. length r \<le> 168) (an_evidenceRefs a)"

definition check_angle ::
  "(track_error, string) res \<Rightarrow> (track_error, vector) res \<Rightarrow> (track_error, string) res
   \<Rightarrow> (track_error, string) res \<Rightarrow> angle_status option \<Rightarrow> string list option \<Rightarrow> (track_error, angle) res" where
  "check_angle name vec question action status refs =
     rbind name (\<lambda>n. rbind vec (\<lambda>v. rbind question (\<lambda>q. rbind action (\<lambda>act.
     rbind (need status Angle_out_of_bounds) (\<lambda>st. rbind (need refs Angle_out_of_bounds) (\<lambda>rs.
       let a = \<lparr>an_name = n, an_status = st, an_vector = Some v, an_proofQuestion = q,
                an_evidenceRefs = rs, an_nextAction = act\<rparr>
       in ensure (angle_bounds a v) Angle_out_of_bounds (Inr a)))))))"

definition angle_refs :: "json \<Rightarrow> string list option" where
  "angle_refs j = Option.bind (as_array (jget j ''evidenceRefs'')) json_strings"

definition angle_vector :: "json option \<Rightarrow> (track_error, vector) res" where
  "angle_vector v = (case v of
     Some (JObj kvs) \<Rightarrow> check_vector (jget (JObj kvs) ''attackerControl'') (jget (JObj kvs) ''trustBoundary'')
        (jget (JObj kvs) ''failureMode'') (jget (JObj kvs) ''unauthorizedEffect'')
   | _ \<Rightarrow> Inl Angle_without_vector)"

definition parse_angle :: "json \<Rightarrow> (track_error, angle) res" where
  "parse_angle j = ensure (is_object j) Angle_malformed
     (check_angle (required (as_string (jget j ''name'')) Field_angle_name)
        (angle_vector (jget j ''vector''))
        (required (as_string (jget j ''proofQuestion'')) Field_angle_proofQuestion)
        (required (as_string (jget j ''nextAction'')) Field_angle_nextAction)
        (Option.bind (as_string (jget j ''status'')) angle_status_of)
        (angle_refs j))"

definition angle_key :: "angle \<Rightarrow> string" where
  "angle_key a = js_lower (an_name a)"

definition tested :: "angle \<Rightarrow> bool" where
  "tested a \<longleftrightarrow> an_status a = Angle_supported \<or> an_status a = Angle_ruled_out"

text \<open>One update merged into the map of paths by lower-case name; \<open>seen\<close> are the names of this checkpoint.\<close>

fun merge_updates ::
  "evidence_db \<Rightarrow> (string \<times> angle) list \<Rightarrow> string list \<Rightarrow> json list \<Rightarrow> (track_error, (string \<times> angle) list) res" where
  "merge_updates ev merged seen [] = Inr merged"
| "merge_updates ev merged seen (j # js) =
     rbind (parse_angle j) (\<lambda>a.
     ensure (angle_key a \<notin> set seen) Angle_repeated (
     rbind (rmap (assert_evidence_ref ev) (js_dedup (an_evidenceRefs a))) (\<lambda>refs.
     ensure (tested a \<longrightarrow> refs \<noteq> []) Angle_without_evidence (
       merge_updates ev (AList.update (angle_key a) (a\<lparr>an_evidenceRefs := refs\<rparr>) merged)
         (angle_key a # seen) js))))"

definition normal_part :: "string \<Rightarrow> string" where
  "normal_part s = collapse_ws (js_lower (js_trim s))"

definition vector_signature :: "vector \<Rightarrow> string" where
  "vector_signature v = js_join ''|'' (map normal_part
     [ve_attackerControl v, ve_trustBoundary v, ve_failureMode v, ve_unauthorizedEffect v])"

definition signatures :: "angle list \<Rightarrow> string list" where
  "signatures as = map vector_signature (map (\<lambda>a. the (an_vector a)) (filter (\<lambda>a. an_vector a \<noteq> None) as))"

definition merge_angles ::
  "evidence_db \<Rightarrow> angle list \<Rightarrow> json list option \<Rightarrow> (track_error, angle list) res" where
  "merge_angles ev previous updates = (case updates of
     None \<Rightarrow> Inr previous
   | Some [] \<Rightarrow> Inr previous
   | Some js \<Rightarrow>
       ensure (length js \<le> 4) Angle_count (
       rbind (merge_updates ev (js_map_of (map (\<lambda>a. (angle_key a, a)) previous)) [] js) (\<lambda>merged.
       ensure (length merged \<le> 24) Too_many_angles (
       ensure (distinct (signatures (map snd merged))) Angles_share_vector (
         Inr (map snd merged))))))"

section \<open>Validation\<close>

definition environment_of :: "string \<Rightarrow> environment option" where
  "environment_of s = (if s = ''device'' then Some Env_device else if s = ''vm'' then Some Env_vm
     else if s = ''web'' then Some Env_web else if s = ''localhost'' then Some Env_localhost
     else if s = ''none'' then Some Env_none else None)"

definition parse_validation :: "json \<Rightarrow> validation option" where
  "parse_validation j =
     Option.bind (as_bool (jget j ''targetDependent'')) (\<lambda>d.
     Option.bind (Option.bind (as_string (jget j ''environment'')) environment_of) (\<lambda>e.
     Option.bind (as_string (jget j ''reason'')) (\<lambda>r.
     oguard (js_trim r \<noteq> [] \<and> length r \<le> 1000)
       (Some \<lparr>va_targetDependent = d, va_environment = e, va_reason = r\<rparr>))))"

definition target_gap :: "validation \<Rightarrow> bool" where
  "target_gap v \<longleftrightarrow> va_targetDependent v \<and> untested_environment (va_environment v)"

definition validation_of ::
  "json option \<Rightarrow> validation option \<Rightarrow> (track_error, validation option) res" where
  "validation_of v previous = (case (if v = Some JNull then None else v) of
     None \<Rightarrow> (case previous of
         None \<Rightarrow> Inr None
       | Some w \<Rightarrow> ensure (js_trim (va_reason w) \<noteq> [] \<and> length (va_reason w) \<le> 1000)
           Validation_incomplete (Inr (Some w)))
   | Some j \<Rightarrow> map_sum id Some (need (parse_validation j) Validation_incomplete))"

section \<open>Checkpoint\<close>

datatype outcome = Out_continue | Out_defer | Out_blocked | Out_complete | Out_exclude

definition outcome_status :: "outcome \<Rightarrow> work_status" where
  "outcome_status oc = (case oc of
     Out_continue \<Rightarrow> Work_deferred | Out_defer \<Rightarrow> Work_deferred | Out_exclude \<Rightarrow> Work_excluded
   | Out_blocked \<Rightarrow> Work_blocked | Out_complete \<Rightarrow> Work_complete)"

fun impact_rank :: "impact \<Rightarrow> int" where
  "impact_rank Impact_unknown = 2" | "impact_rank Impact_low = 1" | "impact_rank Impact_medium = 2"
| "impact_rank Impact_high = 3" | "impact_rank Impact_critical = 4"

record checkpoint_input =
  ci_surfaceId :: string
  ci_outcome :: outcome
  ci_impact :: impact
  ci_theory :: string
  ci_nextAction :: string
  ci_refs :: "string list"
  ci_angles :: "json list option"
  ci_validation :: "json option"

definition evidence_gain :: "validation option \<Rightarrow> int" where
  "evidence_gain v = (case v of
     None \<Rightarrow> 25
   | Some w \<Rightarrow> if target_gap w then 5 else if \<not> va_targetDependent w then 15 else 25)"

definition checkpoint_score :: "work_status \<Rightarrow> int \<Rightarrow> bool \<Rightarrow> validation option \<Rightarrow> impact \<Rightarrow> int" where
  "checkpoint_score status score fresh v i =
     (if status = Work_blocked \<or> status = Work_excluded then 0
      else if status = Work_complete then 100
      else max 0 (min 100 (score + (if fresh then evidence_gain v + (impact_rank i - 2) * 8 else -18))))"

definition update_refs :: "json list option \<Rightarrow> string list" where
  "update_refs js = concat (map (\<lambda>j. case angle_refs j of Some rs \<Rightarrow> rs | None \<Rightarrow> [])
     (case js of Some xs \<Rightarrow> xs | None \<Rightarrow> []))"

definition assigned :: "string option \<Rightarrow> track_db \<Rightarrow> checkpoint_input \<Rightarrow> projection \<Rightarrow> bool" where
  "assigned session db i s \<longleftrightarrow> (case (db_track db, session) of
     (Some t, Some k) \<Rightarrow> k \<noteq> [] \<and> tk_session t = Some k \<and> tk_surface t = Some (ci_surfaceId i)
        \<and> sp_id s = ci_surfaceId i
   | _ \<Rightarrow> False)"

definition apply_checkpoint ::
  "int \<Rightarrow> checkpoint_input \<Rightarrow> surface_row \<Rightarrow> string list \<Rightarrow> bool \<Rightarrow> angle list \<Rightarrow> validation option
   \<Rightarrow> surface_row \<Rightarrow> surface_row" where
  "apply_checkpoint now i w refs fresh angles v r =
     (let status = outcome_status (ci_outcome i);
          changed = (fresh \<or> status \<in> {Work_complete, Work_blocked, Work_excluded});
          idle = (if changed then 0 else sr_noProgress w + 1)
      in r\<lparr>sr_status := status, sr_impact := ci_impact i, sr_theory := bounded (ci_theory i) 2000,
           sr_nextAction := bounded (ci_nextAction i) 2000, sr_refs := refs, sr_angles := angles,
           sr_noProgress := idle,
           sr_revisits := (if ci_outcome i = Out_complete then sr_revisits w + 1 else sr_revisits w),
           sr_revisitAfter := (if status = Work_deferred then cooldown_until now idle else None),
           sr_score := checkpoint_score status (sr_score w) fresh v (ci_impact i),
           sr_scoreUpdated := Some now, sr_validation := v, sr_updated := now\<rparr>)"

definition checkpoint ::
  "evidence_db \<Rightarrow> int \<Rightarrow> string option \<Rightarrow> checkpoint_input \<Rightarrow> projection \<Rightarrow> track_db
   \<Rightarrow> (track_error, track_db) res" where
  "checkpoint ev now session i s db =
     ensure (assigned session db i s) Different_surface_assigned (
     ensure (ci_outcome i = Out_blocked \<longrightarrow> sp_blocker s \<noteq> None) Blocker_missing (
     ensure (ci_outcome i = Out_exclude \<longrightarrow> scope_of s = Some Not_applicable) Scope_assessment_missing (
     rbind (need (find_work (ci_surfaceId i) (works now db)) Missing_surface_row) (\<lambda>w.
     rbind (merge_angles ev (sr_angles w) (ci_angles i)) (\<lambda>angles.
     rbind (rmap (\<lambda>r. required (Some r) Field_evidenceRef) (ci_refs i)) (\<lambda>cited.
     let refs = js_dedup (cited @ update_refs (ci_angles i)) in
     ensure (length refs \<le> 32) Too_many_evidence_refs (
     rbind (rmap (assert_evidence_ref ev) refs) (\<lambda>_.
     rbind (validation_of (ci_validation i) (sr_validation w)) (\<lambda>v.
     ensure (\<forall>x \<in> set_option v. target_gap x \<longrightarrow> 20 \<le> length (js_trim (va_reason x))) Validation_gap_unexplained (
     ensure (\<forall>x \<in> set_option v. \<not> (ci_outcome i = Out_complete \<and> target_gap x)) Untested_completion (
       let fresh = list_ex (\<lambda>r. fresh_evidence_ref ev r (sr_lastWorked w) now) refs in
       Inr (db\<lparr>db_surfaces := update_row (ci_surfaceId i)
              (apply_checkpoint now i w refs fresh angles v) (db_surfaces db)\<rparr>))))))))))))"

section \<open>The tool\<close>

definition outcome_of :: "string \<Rightarrow> outcome option" where
  "outcome_of s = (if s = ''continue'' then Some Out_continue else if s = ''defer'' then Some Out_defer
     else if s = ''blocked'' then Some Out_blocked else if s = ''complete'' then Some Out_complete
     else if s = ''exclude'' then Some Out_exclude else None)"

definition impact_of :: "string \<Rightarrow> impact option" where
  "impact_of s = (if s = ''unknown'' then Some Impact_unknown else if s = ''low'' then Some Impact_low
     else if s = ''medium'' then Some Impact_medium else if s = ''high'' then Some Impact_high
     else if s = ''critical'' then Some Impact_critical else None)"

definition refs_argument :: "json option \<Rightarrow> (track_error, string list) res" where
  "refs_argument v = (case v of
     None \<Rightarrow> Inr []
   | Some (JArr xs) \<Rightarrow> need (json_strings xs) Refs_not_strings
   | Some _ \<Rightarrow> Inl Refs_not_strings)"

definition angles_argument :: "json option \<Rightarrow> (track_error, json list option) res" where
  "angles_argument v = (case v of
     None \<Rightarrow> Inr None | Some (JArr xs) \<Rightarrow> Inr (Some xs) | Some _ \<Rightarrow> Inl Angles_not_array)"

definition validation_argument :: "json option \<Rightarrow> (track_error, json option) res" where
  "validation_argument v = (case v of
     None \<Rightarrow> Inr None | Some j \<Rightarrow> ensure (is_record j) Validation_not_object (Inr (Some j)))"

definition root_agent :: string where
  "root_agent = ''root''"

definition lead_agent :: "string option \<Rightarrow> bool" where
  "lead_agent a = (case a of None \<Rightarrow> True | Some k \<Rightarrow> k = [] \<or> k = root_agent)"

text \<open>\<open>execute\<close>; \<open>find_surface\<close> is the lookup the host passes in, which may throw.\<close>

definition track_tool ::
  "evidence_db \<Rightarrow> int \<Rightarrow> string option \<Rightarrow> (string \<Rightarrow> (track_error, projection) res) \<Rightarrow> string option
   \<Rightarrow> json \<Rightarrow> track_db \<Rightarrow> (track_error, track_db) res" where
  "track_tool ev now session find_surface agent input db =
     ensure (lead_agent agent) Lead_agent_only (
     rbind (required (as_string (jget input ''surfaceId'')) Field_surfaceId) (\<lambda>k.
     rbind (need (Option.bind (as_string (jget input ''outcome'')) outcome_of) Invalid_outcome) (\<lambda>oc.
     rbind (need (Option.bind (as_string (jget input ''impact'')) impact_of) Invalid_impact) (\<lambda>im.
     rbind (refs_argument (jget input ''evidenceRefs'')) (\<lambda>refs.
     rbind (angles_argument (jget input ''angles'')) (\<lambda>angles.
     rbind (validation_argument (jget input ''validation'')) (\<lambda>v.
     rbind (required (as_string (jget input ''theory'')) Field_theory) (\<lambda>theory.
     rbind (required (as_string (jget input ''nextAction'')) Field_nextAction) (\<lambda>act.
     rbind (find_surface k) (\<lambda>s.
       checkpoint ev now session \<lparr>ci_surfaceId = k, ci_outcome = oc, ci_impact = im, ci_theory = theory,
         ci_nextAction = act, ci_refs = refs, ci_angles = angles, ci_validation = v\<rparr> s db))))))))))"

text \<open>What the session sees and what the tables hold after a call.\<close>

definition track_tool_step ::
  "evidence_db \<Rightarrow> int \<Rightarrow> string option \<Rightarrow> (string \<Rightarrow> (track_error, projection) res) \<Rightarrow> string option
   \<Rightarrow> json \<Rightarrow> track_db \<Rightarrow> track_db \<times> track_error option" where
  "track_tool_step ev now session find_surface agent input db =
     (case track_tool ev now session find_surface agent input db of
        Inr db' \<Rightarrow> (db', None)
      | Inl e \<Rightarrow> (db, Some e))"

end
