(* ===== verification/Track_Properties.thy ===== *)
theory Track_Properties
  imports Track_Checkpoint
begin

text \<open>
  What the research track guarantees: the invariant of its tables over every sequence of
  operations, which component a reservation selects, when attention moves to another resource,
  what a checkpoint records, and how long a component without progress rests.
\<close>

section \<open>Rows\<close>

lemma map_sr_id_update_row [simp]:
  "(\<And>r. sr_id (f r) = sr_id r) \<Longrightarrow> map sr_id (update_row k f rs) = map sr_id rs"
  by (simp add: update_row_def)

lemma set_update_row:
  "r' \<in> set (update_row k f rs) \<longleftrightarrow>
     (\<exists>r \<in> set rs. sr_id r \<noteq> k \<and> r' = r \<or> sr_id r = k \<and> r' = f r)"
  by (auto simp: update_row_def)

lemma find_work_Some: "find_work k ws = Some w \<Longrightarrow> w \<in> set ws \<and> sr_id w = k"
  unfolding find_work_def by (induction ws) (auto split: if_splits)

lemma find_work_None: "find_work k ws = None \<longleftrightarrow> (\<forall>w \<in> set ws. sr_id w \<noteq> k)"
  unfolding find_work_def by (induction ws) auto

lemma set_works: "w \<in> set (works now db) \<longleftrightarrow> (\<exists>r \<in> set (db_surfaces db). w = read_row now r)"
  by (auto simp: works_def)

lemma read_row_simps [simp]:
  "sr_id (read_row now r) = sr_id r" "sr_status (read_row now r) = sr_status r"
  "sr_angles (read_row now r) = sr_angles r" "sr_refs (read_row now r) = sr_refs r"
  "sr_validation (read_row now r) = sr_validation r" "sr_noProgress (read_row now r) = sr_noProgress r"
  "sr_epochs (read_row now r) = sr_epochs r" "sr_revisitAfter (read_row now r) = sr_revisitAfter r"
  "sr_lastWorked (read_row now r) = sr_lastWorked r" "sr_revisits (read_row now r) = sr_revisits r"
  by (simp_all add: read_row_def)

lemma decayed_bounds: "0 \<le> s \<Longrightarrow> s \<le> 100 \<Longrightarrow>
  0 \<le> decayed_actionability s u now \<and> decayed_actionability s u now \<le> 100"
proof -
  assume "0 \<le> s" "s \<le> 100"
  moreover have "0 < now - u \<Longrightarrow> 0 \<le> (now - u) div actionability_decay_interval_ms"
    by (simp add: actionability_decay_interval_ms_def pos_imp_zdiv_nonneg_iff)
  ultimately show ?thesis by (auto simp: decayed_actionability_def)
qed

section \<open>The invariant\<close>

definition angles_ok :: "angle list \<Rightarrow> bool" where
  "angles_ok as \<longleftrightarrow> length as \<le> 24 \<and> distinct (map angle_key as) \<and> distinct (signatures as)"

definition row_ok :: "surface_row \<Rightarrow> bool" where
  "row_ok r \<longleftrightarrow> 0 \<le> sr_score r \<and> sr_score r \<le> 100 \<and> angles_ok (sr_angles r)
     \<and> length (sr_refs r) \<le> 32
     \<and> \<not> (sr_status r = Work_complete \<and> (\<exists>v. sr_validation r = Some v \<and> target_gap v))"

definition rows_ok :: "surface_row list \<Rightarrow> bool" where
  "rows_ok rs \<longleftrightarrow> distinct (map sr_id rs) \<and> (\<forall>r \<in> set rs. row_ok r)"

definition active_ids :: "surface_row list \<Rightarrow> string set" where
  "active_ids rs = {sr_id r | r. r \<in> set rs \<and> sr_status r = Work_active}"

definition active_within :: "string option \<Rightarrow> surface_row list \<Rightarrow> bool" where
  "active_within k rs \<longleftrightarrow> active_ids rs \<subseteq> set_option k"

definition track_inv :: "track_db \<Rightarrow> bool" where
  "track_inv db \<longleftrightarrow> rows_ok (db_surfaces db)
     \<and> (case db_track db of
          None \<Rightarrow> db_surfaces db = []
        | Some t \<Rightarrow> targets_ok (tk_targets t) \<and> (tk_session t = None \<longrightarrow> tk_surface t = None)
            \<and> active_within (tk_surface t) (db_surfaces db))"

lemma rows_ok_update:
  assumes "rows_ok rs" "\<And>r. sr_id (f r) = sr_id r" "\<And>r. r \<in> set rs \<Longrightarrow> sr_id r = k \<Longrightarrow> row_ok (f r)"
  shows "rows_ok (update_row k f rs)"
  using assms unfolding rows_ok_def by (auto simp: set_update_row)

lemma row_ok_status:
  "row_ok r \<Longrightarrow> sr_score r' = sr_score r \<Longrightarrow> sr_angles r' = sr_angles r \<Longrightarrow> sr_refs r' = sr_refs r \<Longrightarrow>
   sr_validation r' = sr_validation r \<Longrightarrow> sr_status r' = sr_status r \<or> sr_status r' \<noteq> Work_complete \<Longrightarrow>
   row_ok r'"
  by (auto simp: row_ok_def)

lemma active_ids_update:
  "(\<And>r. sr_id (f r) = sr_id r) \<Longrightarrow> (\<And>r. sr_status (f r) = Work_active \<Longrightarrow> sr_status r = Work_active) \<Longrightarrow>
   active_ids (update_row k f rs) \<subseteq> active_ids rs"
  by (auto simp: active_ids_def set_update_row)

text \<open>An update that leaves the content of a row alone and does not make it complete or active.\<close>

definition keeps_content :: "(surface_row \<Rightarrow> surface_row) \<Rightarrow> bool" where
  "keeps_content f \<longleftrightarrow> (\<forall>r. sr_id (f r) = sr_id r \<and> sr_score (f r) = sr_score r \<and> sr_angles (f r) = sr_angles r
     \<and> sr_refs (f r) = sr_refs r \<and> sr_validation (f r) = sr_validation r
     \<and> (sr_status (f r) = sr_status r \<or> sr_status (f r) \<notin> {Work_complete, Work_active}))"

lemma update_keeps:
  assumes "keeps_content f" "rows_ok rs"
  shows "rows_ok (update_row k f rs) \<and> active_ids (update_row k f rs) \<subseteq> active_ids rs"
proof
  have c: "sr_id (f r) = sr_id r" "sr_score (f r) = sr_score r" "sr_angles (f r) = sr_angles r"
    "sr_refs (f r) = sr_refs r" "sr_validation (f r) = sr_validation r"
    "sr_status (f r) = sr_status r \<or> sr_status (f r) \<notin> {Work_complete, Work_active}" for r
    using assms(1) unfolding keeps_content_def by blast+
  have f: "sr_id (f r) = sr_id r" "row_ok r \<Longrightarrow> row_ok (f r)"
    "sr_status (f r) = Work_active \<Longrightarrow> sr_status r = Work_active" for r
    using c [of r] row_ok_status [of r "f r"] by auto
  show "rows_ok (update_row k f rs)"
    using assms(2) by (intro rows_ok_update) (auto simp: f rows_ok_def)
  show "active_ids (update_row k f rs) \<subseteq> active_ids rs"
    by (rule active_ids_update) (simp_all add: f)
qed

lemma row_ok_read: "row_ok r \<Longrightarrow> row_ok (read_row now r)"
  using decayed_bounds by (auto simp: row_ok_def read_row_def)

lemma works_ok: "rows_ok (db_surfaces db) \<Longrightarrow> w \<in> set (works now db) \<Longrightarrow> row_ok w"
  by (auto simp: set_works rows_ok_def row_ok_read)

subsection \<open>Synchronising surfaces\<close>

lemma row_ok_new: "row_ok (new_row now s)"
  by (simp add: row_ok_def new_row_def angles_ok_def signatures_def)

lemma insert_surface_ok: "rows_ok rs \<Longrightarrow> rows_ok (insert_surface now rs s)"
  using row_ok_new [of now s] by (auto simp: rows_ok_def insert_surface_def list_ex_iff new_row_def)

lemma insert_surfaces_ok: "rows_ok rs \<Longrightarrow> rows_ok (insert_surfaces now ss rs)"
  unfolding insert_surfaces_def by (induction ss arbitrary: rs) (auto intro: insert_surface_ok)

lemma active_ids_insert: "active_ids (insert_surface now rs s) = active_ids rs"
  by (auto simp: active_ids_def insert_surface_def new_row_def)

lemma active_ids_inserts: "active_ids (insert_surfaces now ss rs) = active_ids rs"
  unfolding insert_surfaces_def by (induction ss arbitrary: rs) (auto simp: active_ids_insert)

lemma exclude_hidden_ok:
  "rows_ok rs \<Longrightarrow> rows_ok (exclude_hidden now vis ws rs) \<and> active_ids (exclude_hidden now vis ws rs) \<subseteq> active_ids rs"
proof (induction ws arbitrary: rs)
  case (Cons w ws)
  let ?f = "\<lambda>r. r\<lparr>sr_status := Work_excluded, sr_updated := now\<rparr>"
  let ?rs = "if sr_id w \<notin> set vis \<and> sr_status w \<noteq> Work_excluded then update_row (sr_id w) ?f rs else rs"
  have "rows_ok ?rs \<and> active_ids ?rs \<subseteq> active_ids rs"
    using update_keeps [of ?f rs "sr_id w"] Cons.prems by (simp add: keeps_content_def)
  then show ?case
    using Cons.IH [of ?rs] by (auto simp: exclude_hidden_def)
qed (simp add: exclude_hidden_def)

lemma keeps_sync_status: "keeps_content (sync_status now b st)"
  by (simp add: keeps_content_def sync_status_def)

lemma sync_surface_ok:
  assumes "rows_ok rs"
  shows "rows_ok (sync_surface now ws rs s) \<and> active_ids (sync_surface now ws rs s) \<subseteq> active_ids rs"
proof -
  let ?f = "\<lambda>r. r\<lparr>sr_name := sp_name s, sr_ranking := foundation_ranking s\<rparr>"
  let ?rs = "update_row (sp_id s) ?f rs"
  have named: "rows_ok ?rs" "active_ids ?rs \<subseteq> active_ids rs"
    using update_keeps [of ?f rs "sp_id s"] assms by (simp_all add: keeps_content_def)
  have "rows_ok (update_row (sp_id s) (sync_status now b st) ?rs)
      \<and> active_ids (update_row (sp_id s) (sync_status now b st) ?rs) \<subseteq> active_ids rs" for b st
    using update_keeps [OF keeps_sync_status named(1)] named(2) by blast
  with named show ?thesis
    unfolding sync_surface_def Let_def by (simp split: option.split)
qed

lemma sync_foldl_ok:
  "rows_ok rs \<Longrightarrow> rows_ok (foldl (sync_surface now ws) rs ss)
     \<and> active_ids (foldl (sync_surface now ws) rs ss) \<subseteq> active_ids rs"
proof (induction ss arbitrary: rs)
  case (Cons s ss)
  then show ?case using sync_surface_ok [OF Cons.prems, of now ws s] Cons.IH [of "sync_surface now ws rs s"] by auto
qed simp


definition track_part :: "track_row option \<Rightarrow> surface_row list \<Rightarrow> bool" where
  "track_part t rs \<longleftrightarrow> (case t of
     None \<Rightarrow> rs = []
   | Some t \<Rightarrow> targets_ok (tk_targets t) \<and> (tk_session t = None \<longrightarrow> tk_surface t = None)
       \<and> active_within (tk_surface t) rs)"

lemma track_inv_alt: "track_inv db \<longleftrightarrow> rows_ok (db_surfaces db) \<and> track_part (db_track db) (db_surfaces db)"
  by (simp add: track_inv_def track_part_def)

lemma track_part_rows:
  "track_part (Some t) rs \<Longrightarrow> active_ids rs' \<subseteq> active_ids rs \<Longrightarrow> track_part (Some t) rs'"
  by (auto simp: track_part_def active_within_def)

lemma map_track_simps [simp]:
  "db_surfaces (map_track f db) = db_surfaces db" "db_history (map_track f db) = db_history db"
  "db_track (map_track f db) = map_option f (db_track db)"
  by (simp_all add: map_track_def)

lemma pause_for_new_surface_eq:
  "db_surfaces (pause_for_new_surface now db) = db_surfaces db"
  "db_track (pause_for_new_surface now db) = map_option
     (\<lambda>t. t\<lparr>tk_status := tk_status (the (db_track (pause_for_new_surface now db))),
            tk_error := tk_error (the (db_track (pause_for_new_surface now db))),
            tk_updated := tk_updated (the (db_track (pause_for_new_surface now db)))\<rparr>) (db_track db)"
  by (cases "db_track db"; cases "required (Some new_surface_reason) Field_reason";
      simp add: pause_for_new_surface_def pause_with_error_def)+

lemma pause_with_error_inv:
  "track_inv db \<Longrightarrow> pause_with_error now reason db = Inr db' \<Longrightarrow> track_inv db'"
  by (auto simp: track_inv_alt track_part_def pause_with_error_def guard_simps split: option.splits)

lemma pause_for_new_surface_inv: "track_inv db \<Longrightarrow> track_inv (pause_for_new_surface now db)"
  unfolding pause_for_new_surface_def by (auto split: sum.split dest: pause_with_error_inv)

lemma sync_surfaces_inv [keeps_inv]:
  assumes "track_inv db" shows "track_inv (sync_surfaces now ss db)"
proof (cases "db_track db")
  case (Some t)
  let ?e = "scope_eligible_surfaces ss"
  let ?ins = "insert_surfaces now ?e (db_surfaces db)"
  let ?hid = "exclude_hidden now (map sp_id ?e) (works now db) ?ins"
  let ?rs = "foldl (sync_surface now (works now db)) ?hid ?e"
  have ins: "rows_ok ?ins" "active_ids ?ins = active_ids (db_surfaces db)"
    using assms by (simp_all add: track_inv_alt insert_surfaces_ok active_ids_inserts)
  have hid: "rows_ok ?hid" "active_ids ?hid \<subseteq> active_ids ?ins"
    using exclude_hidden_ok [OF ins(1)] by blast+
  have rs: "rows_ok ?rs" "active_ids ?rs \<subseteq> active_ids ?hid"
    using sync_foldl_ok [OF hid(1)] by blast+
  have "track_part (Some t) ?rs"
    using assms Some rs(2) hid(2) ins(2) by (auto simp: track_inv_alt intro: track_part_rows)
  then have "track_inv (db\<lparr>db_surfaces := ?rs\<rparr>)"
    using rs(1) Some by (simp add: track_inv_alt)
  then show ?thesis
    using Some pause_for_new_surface_inv by (simp add: sync_surfaces_def Let_def)
qed (use assms in \<open>simp add: sync_surfaces_def\<close>)

subsection \<open>Operator control\<close>

lemma start_track_inv [keeps_inv]:
  assumes "track_inv db" "start_track now k i db = Inr db'" shows "track_inv db'"
proof -
  have "rows_ok (case db_track db of Some _ \<Rightarrow> [] | None \<Rightarrow> db_surfaces db)"
    "active_ids (case db_track db of Some _ \<Rightarrow> [] | None \<Rightarrow> db_surfaces db) = {}"
    using assms(1) by (auto simp: track_inv_alt track_part_def rows_ok_def active_ids_def split: option.splits)
  moreover have "targets_ok (si_targets i)"
    using assms(2) unfolding start_track_def Let_def guard_simps by blast
  ultimately show ?thesis
    using assms(2) unfolding start_track_def Let_def guard_simps
    by (auto simp: track_inv_alt track_part_def insert_surfaces_ok active_within_def active_ids_inserts)
qed

lemma rows_of_active: "active_ids rs \<subseteq> {} \<longleftrightarrow> (\<forall>r \<in> set rs. sr_status r \<noteq> Work_active)"
  by (auto simp: active_ids_def)

lemma control_track_inv [keeps_inv]:
  assumes "track_inv db" "control_track now a targets db = Inr db'" shows "track_inv db'"
proof -
  obtain t where t: "db_track db = Some t" "case targets of None \<Rightarrow> True | Some ts \<Rightarrow> a = Resume \<and> targets_ok ts"
    using assms(2) unfolding control_track_def guard_simps by blast
  have inv: "rows_ok (db_surfaces db)" "targets_ok (tk_targets t)" "tk_session t = None \<longrightarrow> tk_surface t = None"
    "active_within (tk_surface t) (db_surfaces db)"
    using assms(1) t(1) by (simp_all add: track_inv_alt track_part_def)
  show ?thesis
  proof (cases a)
    case Stop
    let ?f = "\<lambda>r. if sr_status r = Work_active then r\<lparr>sr_status := Work_deferred, sr_updated := now\<rparr> else r"
    have k: "keeps_content ?f" by (simp add: keeps_content_def)
    have none: "active_within None (update_row k ?f (db_surfaces db))" if "tk_surface t = Some k" for k
      using inv(4) that by (auto simp: active_within_def active_ids_def set_update_row split: if_splits)
    show ?thesis
      using assms(2) t inv Stop update_keeps [OF k inv(1)] none
      unfolding control_track_def guard_simps
      by (cases "tk_surface t") (auto simp: track_inv_alt track_part_def)
  qed (use assms(2) t inv in \<open>auto simp: control_track_def guard_simps track_inv_alt track_part_def
         split: option.splits\<close>)
qed


subsection \<open>Epochs\<close>

lemma settle_track_inv: "track_inv db \<Longrightarrow> track_inv (settle_track now ws db)"
  by (auto simp: settle_track_def track_inv_alt track_part_def split: option.splits)

lemma reserve_rows_inv:
  assumes "track_inv db" "db_track db = Some t" "tk_session t = None"
  shows "track_inv (reserve_rows now k m ws t w db)"
proof -
  let ?f = "\<lambda>r. r\<lparr>sr_status := Work_active, sr_epochs := sr_epochs r + 1, sr_lastWorked := Some now,
      sr_updated := now\<rparr>"
  have inv: "rows_ok (db_surfaces db)" "targets_ok (tk_targets t)" "active_within None (db_surfaces db)"
    using assms by (auto simp: track_inv_alt track_part_def)
  have "rows_ok (update_row (sr_id w) ?f (db_surfaces db))"
    by (rule rows_ok_update [OF inv(1)]) (use inv(1) in \<open>auto simp: rows_ok_def row_ok_def\<close>)
  moreover have "active_within (Some (sr_id w)) (update_row (sr_id w) ?f (db_surfaces db))"
    using inv(3) by (auto simp: active_within_def active_ids_def set_update_row)
  ultimately show ?thesis
    using inv(2) assms(2) by (simp add: reserve_rows_def track_inv_alt track_part_def)
qed

lemma reserve_next_cases:
  "fst (reserve_next lc now k ss db) = sync_surfaces now ss db
   \<or> fst (reserve_next lc now k ss db) = settle_track now (works now (sync_surfaces now ss db)) (sync_surfaces now ss db)
   \<or> (\<exists>k' m t w. db_track (sync_surfaces now ss db) = Some t \<and> tk_session t = None
        \<and> fst (reserve_next lc now k ss db) =
          reserve_rows now k' m (works now (sync_surfaces now ss db)) t w (sync_surfaces now ss db))"
  unfolding reserve_next_def Let_def by (auto split: option.split sum.split)

lemma reserve_next_inv [keeps_inv]:
  assumes "track_inv db" shows "track_inv (fst (reserve_next lc now k ss db))"
  using reserve_next_cases [of lc now k ss db] sync_surfaces_inv [OF assms, of now ss]
  by (auto intro: settle_track_inv reserve_rows_inv)

lemma reserve_workers_only_inv [keeps_inv]:
  assumes "track_inv db" "reserve_workers_only now k db = Inr db'" shows "track_inv db'"
proof (cases "db_track db")
  case None
  then show ?thesis using assms(2) by (simp add: reserve_workers_only_def)
next
  case (Some t)
  have g: "tk_session t = None" "db' = map_track (\<lambda>t. t\<lparr>tk_status := Track_running, tk_session := Some k,
      tk_surface := None, tk_epochs := tk_epochs t + 1, tk_error := None, tk_updated := now\<rparr>) db"
    using assms(2) Some unfolding reserve_workers_only_def by (simp_all add: ensure_Inr_iff)
  then show ?thesis
    using assms(1) Some by (auto simp: track_inv_alt track_part_def)
qed

lemma find_work_id: "find_work k ws = Some w \<Longrightarrow> sr_id w = k"
  using find_work_Some by blast

lemma finish_row_simps [simp]:
  "sr_id (finish_row now inc w r) = sr_id r" "sr_angles (finish_row now inc w r) = sr_angles r"
  "sr_refs (finish_row now inc w r) = sr_refs r" "sr_validation (finish_row now inc w r) = sr_validation r"
  "sr_status (finish_row now inc w r) = Work_deferred"
  "sr_score (finish_row now inc w r) = max 0 (sr_score w - 20)"
  by (simp_all add: finish_row_def)

text \<open>The rows after the end of an epoch: no row is active any more.\<close>

lemma finish_rows_ok:
  assumes "track_inv db" "db_track db = Some t"
    and "rs = (case Option.bind (tk_surface t) (\<lambda>k. find_work k (works now db)) of
                 Some w \<Rightarrow> if sr_status w = Work_active
                   then update_row (sr_id w) (finish_row now inc w) (db_surfaces db) else db_surfaces db
               | None \<Rightarrow> db_surfaces db)"
  shows "rows_ok rs \<and> active_within None rs"
proof -
  have inv: "rows_ok (db_surfaces db)" "active_within (tk_surface t) (db_surfaces db)"
    using assms(1,2) by (simp_all add: track_inv_alt track_part_def)
  have quiet: "active_within None (db_surfaces db)"
    if "\<And>r. r \<in> set (db_surfaces db) \<Longrightarrow> Some (sr_id r) = tk_surface t \<Longrightarrow> sr_status r \<noteq> Work_active"
    using inv(2) that by (auto simp: active_within_def active_ids_def)
  show ?thesis
  proof (cases "Option.bind (tk_surface t) (\<lambda>k. find_work k (works now db))")
    case None
    have "sr_id r \<noteq> k" if k: "tk_surface t = Some k" and r: "r \<in> set (db_surfaces db)" for k r
    proof -
      have "find_work k (works now db) = None" using None k by simp
      moreover have "read_row now r \<in> set (works now db)" using r set_works by blast
      ultimately show ?thesis unfolding find_work_None by force
    qed
    then have "active_within None (db_surfaces db)" by (intro quiet) metis
    then show ?thesis using inv(1) assms(3) None by simp
  next
    case (Some w)
    then obtain k where k: "tk_surface t = Some k" "find_work k (works now db) = Some w"
      by (auto simp: bind_eq_Some_conv)
    have w: "w \<in> set (works now db)" "sr_id w = k" using find_work_Some [OF k(2)] by auto
    have wok: "row_ok w" using works_ok [OF inv(1) w(1)] .
    show ?thesis
    proof (cases "sr_status w = Work_active")
      case True
      have "rows_ok (update_row (sr_id w) (finish_row now inc w) (db_surfaces db))"
        by (rule rows_ok_update [OF inv(1)])
          (use inv(1) wok in \<open>auto simp: rows_ok_def row_ok_def\<close>)
      moreover have "active_within None (update_row (sr_id w) (finish_row now inc w) (db_surfaces db))"
        using inv(2) k w by (auto simp: active_within_def active_ids_def set_update_row)
      ultimately show ?thesis using assms(3) Some True by simp
    next
      case False
      have "sr_status r \<noteq> Work_active" if "r \<in> set (db_surfaces db)" "sr_id r = k" for r
      proof -
        obtain r0 where "r0 \<in> set (db_surfaces db)" "w = read_row now r0" using w(1) by (auto simp: set_works)
        moreover then have "r0 = r"
          using inv(1) that w(2) by (auto simp: rows_ok_def distinct_map inj_on_def)
        ultimately show ?thesis using False by simp
      qed
      then have "active_within None (db_surfaces db)" using k(1) by (intro quiet) auto
      then show ?thesis using inv(1) assms(3) Some False by simp
    qed
  qed
qed

lemma finish_epoch_owner:
  assumes "track_inv db" "db_track db = Some t" "tk_session t = Some k"
  shows "track_inv (finish_epoch now k ok diag cnt db)
     \<and> active_within None (db_surfaces (finish_epoch now k ok diag cnt db))
     \<and> (\<exists>t'. db_track (finish_epoch now k ok diag cnt db) = Some t' \<and> tk_session t' = None
          \<and> tk_surface t' = None \<and> tk_status t' = tk_status t \<and> tk_epochs t' = tk_epochs t)"
  using finish_rows_ok [OF assms(1,2) refl, of now "if cnt = Some False then 0 else 1"] assms
  unfolding finish_epoch_def Let_def
  by (simp add: track_inv_alt track_part_def split del: if_split)

lemma finish_epoch_inv [keeps_inv]:
  assumes "track_inv db" shows "track_inv (finish_epoch now k ok diag cnt db)"
proof (cases "\<exists>t. db_track db = Some t \<and> tk_session t = Some k")
  case True
  then show ?thesis using finish_epoch_owner [OF assms] by blast
next
  case False
  then have "finish_epoch now k ok diag cnt db = db"
    by (auto simp: finish_epoch_def split: option.split)
  then show ?thesis using assms by simp
qed


subsection \<open>Checkpoints\<close>

definition keyed :: "(string \<times> angle) list \<Rightarrow> bool" where
  "keyed kas \<longleftrightarrow> distinct (map fst kas) \<and> (\<forall>x \<in> set kas. fst x = angle_key (snd x))"

lemma keyed_update: "keyed kas \<Longrightarrow> angle_key a = k \<Longrightarrow> keyed (AList.update k a kas)"
  unfolding keyed_def
proof
  assume k: "distinct (map fst kas) \<and> (\<forall>x\<in>set kas. fst x = angle_key (snd x))" "angle_key a = k"
  show "distinct (map fst (AList.update k a kas))" using k(1) by (simp add: distinct_update)
  show "\<forall>x\<in>set (AList.update k a kas). fst x = angle_key (snd x)"
    using k by (induction kas) auto
qed

lemma keyed_previous:
  "keyed kas \<Longrightarrow> keyed (foldl (\<lambda>m (k, v). AList.update k v m) kas (map (\<lambda>a. (angle_key a, a)) as))"
  by (induction as arbitrary: kas) (auto intro: keyed_update)

lemma keyed_js_map: "keyed (js_map_of (map (\<lambda>a. (angle_key a, a)) as))"
  unfolding js_map_of_def by (rule keyed_previous) (simp add: keyed_def)

lemma angle_key_refs [simp]: "angle_key (a\<lparr>an_evidenceRefs := rs\<rparr>) = angle_key a"
  by (simp add: angle_key_def)

lemma merge_updates_keyed:
  "merge_updates ev kas seen js = Inr kas' \<Longrightarrow> keyed kas \<Longrightarrow> keyed kas'"
proof (induction js arbitrary: kas seen)
  case (Cons j js)
  then show ?case
    unfolding merge_updates.simps guard_simps using keyed_update by (metis angle_key_refs)
qed simp

lemma keyed_values: "keyed kas \<Longrightarrow> distinct (map angle_key (map snd kas))"
proof -
  assume k: "keyed kas"
  then have "map angle_key (map snd kas) = map fst kas" by (simp add: keyed_def)
  with k show ?thesis unfolding keyed_def by metis
qed

lemma merge_angles_ok:
  assumes "merge_angles ev as js = Inr as'" "angles_ok as" shows "angles_ok as'"
proof (cases "js = None \<or> js = Some []")
  case True
  then show ?thesis using assms by (auto simp: merge_angles_def)
next
  case False
  then obtain kas where "merge_updates ev (js_map_of (map (\<lambda>a. (angle_key a, a)) as)) [] (the js) = Inr kas"
    "length kas \<le> 24" "distinct (signatures (map snd kas))" "as' = map snd kas"
    using assms(1) unfolding merge_angles_def guard_simps
    by (cases js; cases "the js") (auto simp: guard_simps)
  moreover from this(1) have "keyed kas"
    using merge_updates_keyed keyed_js_map by blast
  ultimately show ?thesis
    using keyed_values [of kas] by (simp add: angles_ok_def)
qed

lemma checkpoint_score_bounds: "0 \<le> checkpoint_score st sc fr v i \<and> checkpoint_score st sc fr v i \<le> 100"
  by (simp add: checkpoint_score_def)

lemma rmap_assert: "rmap (assert_evidence_ref ev) refs = Inr xs \<Longrightarrow> \<forall>r \<in> set refs. valid_evidence_ref ev r"
  by (induction refs arbitrary: xs) (auto simp: guard_simps assert_evidence_ref_Inr)

text \<open>What a successful checkpoint has checked and written.\<close>

lemma checkpoint_Inr:
  assumes "checkpoint ev now session i s db = Inr db'"
  obtains w angles refs v where
    "assigned session db i s" "find_work (ci_surfaceId i) (works now db) = Some w"
    "merge_angles ev (sr_angles w) (ci_angles i) = Inr angles" "length refs \<le> 32"
    "\<forall>r \<in> set refs. valid_evidence_ref ev r" "set (update_refs (ci_angles i)) \<subseteq> set refs"
    "validation_of (ci_validation i) (sr_validation w) = Inr v"
    "\<forall>x \<in> set_option v. \<not> (ci_outcome i = Out_complete \<and> target_gap x)"
    "ci_outcome i = Out_blocked \<longrightarrow> sp_blocker s \<noteq> None"
    "ci_outcome i = Out_exclude \<longrightarrow> scope_of s = Some Not_applicable"
    "db' = db\<lparr>db_surfaces := update_row (ci_surfaceId i) (apply_checkpoint now i w refs
        (list_ex (\<lambda>r. fresh_evidence_ref ev r (sr_lastWorked w) now) refs) angles v) (db_surfaces db)\<rparr>"
proof -
  obtain w angles cited xs v where g: "assigned session db i s"
    "ci_outcome i = Out_blocked \<longrightarrow> sp_blocker s \<noteq> None"
    "ci_outcome i = Out_exclude \<longrightarrow> scope_of s = Some Not_applicable"
    "find_work (ci_surfaceId i) (works now db) = Some w"
    "merge_angles ev (sr_angles w) (ci_angles i) = Inr angles"
    and r: "length (js_dedup (cited @ update_refs (ci_angles i))) \<le> 32"
    "rmap (assert_evidence_ref ev) (js_dedup (cited @ update_refs (ci_angles i))) = Inr xs"
    and v: "validation_of (ci_validation i) (sr_validation w) = Inr v"
    "\<forall>x \<in> set_option v. \<not> (ci_outcome i = Out_complete \<and> target_gap x)"
    and e: "db' = db\<lparr>db_surfaces := update_row (ci_surfaceId i) (apply_checkpoint now i w
        (js_dedup (cited @ update_refs (ci_angles i)))
        (list_ex (\<lambda>r. fresh_evidence_ref ev r (sr_lastWorked w) now) (js_dedup (cited @ update_refs (ci_angles i))))
        angles v) (db_surfaces db)\<rparr>"
    using assms unfolding checkpoint_def Let_def guard_simps by blast
  have "\<forall>r \<in> set (js_dedup (cited @ update_refs (ci_angles i))). valid_evidence_ref ev r"
    using rmap_assert [OF r(2)] .
  then show thesis
    using that [OF g(1,4,5) r(1) _ _ v g(2,3) e] by (simp add: subset_iff)
qed

lemma apply_checkpoint_simps [simp]:
  "sr_id (apply_checkpoint now i w refs fresh as v r) = sr_id r"
  "sr_status (apply_checkpoint now i w refs fresh as v r) = outcome_status (ci_outcome i)"
  "sr_angles (apply_checkpoint now i w refs fresh as v r) = as"
  "sr_refs (apply_checkpoint now i w refs fresh as v r) = refs"
  "sr_validation (apply_checkpoint now i w refs fresh as v r) = v"
  "sr_score (apply_checkpoint now i w refs fresh as v r) =
     checkpoint_score (outcome_status (ci_outcome i)) (sr_score w) fresh v (ci_impact i)"
  by (simp_all add: apply_checkpoint_def Let_def)

lemma outcome_status_iff:
  "outcome_status oc = Work_complete \<longleftrightarrow> oc = Out_complete" "outcome_status oc \<noteq> Work_active"
  "outcome_status oc = Work_deferred \<longleftrightarrow> oc = Out_continue \<or> oc = Out_defer"
  by (cases oc; simp add: outcome_status_def)+

lemma checkpoint_inv [keeps_inv]:
  assumes "track_inv db" "checkpoint ev now session i s db = Inr db'" shows "track_inv db'"
  using assms(2)
proof (cases rule: checkpoint_Inr)
  case (1 w angles refs v)
  let ?f = "apply_checkpoint now i w refs (list_ex (\<lambda>r. fresh_evidence_ref ev r (sr_lastWorked w) now) refs) angles v"
  have inv: "rows_ok (db_surfaces db)" "track_part (db_track db) (db_surfaces db)"
    using assms(1) by (simp_all add: track_inv_alt)
  have "row_ok w" using works_ok [OF inv(1)] find_work_Some [OF 1(2)] by blast
  then have "angles_ok angles" using merge_angles_ok [OF 1(3)] by (simp add: row_ok_def)
  then have "row_ok (?f r)" for r
    using 1(4,8) checkpoint_score_bounds by (auto simp: row_ok_def outcome_status_iff)
  then have rows: "rows_ok (update_row (ci_surfaceId i) ?f (db_surfaces db))"
    by (intro rows_ok_update [OF inv(1)]) auto
  have "active_ids (update_row (ci_surfaceId i) ?f (db_surfaces db)) \<subseteq> active_ids (db_surfaces db)"
    by (rule active_ids_update) (auto simp: outcome_status_iff)
  moreover obtain t where "db_track db = Some t"
    using 1(1) by (auto simp: assigned_def split: option.splits)
  ultimately show ?thesis
    using rows inv(2) track_part_rows 1(11) by (auto simp: track_inv_alt)
qed


section \<open>Runs\<close>

datatype track_op =
    Op_start int string start_input
  | Op_sync int "projection list"
  | Op_control int control_action "string list option"
  | Op_pause int string
  | Op_reserve int string "projection list"
  | Op_workers_only int string
  | Op_checkpoint int "string option" checkpoint_input projection
  | Op_finish int string bool "string option" "bool option"

text \<open>The tables after an operation; one that throws leaves them as they were.\<close>

definition after_op :: "track_db \<Rightarrow> (track_error, track_db) res \<Rightarrow> track_db" where
  "after_op db r = (case r of Inr db' \<Rightarrow> db' | Inl _ \<Rightarrow> db)"

definition track_step ::
  "evidence_db \<Rightarrow> (string \<Rightarrow> string \<Rightarrow> int) \<Rightarrow> track_db \<Rightarrow> track_op \<Rightarrow> track_db" where
  "track_step ev lc db op = (case op of
     Op_start now k i \<Rightarrow> after_op db (start_track now k i db)
   | Op_sync now ss \<Rightarrow> sync_surfaces now ss db
   | Op_control now a ts \<Rightarrow> after_op db (control_track now a ts db)
   | Op_pause now reason \<Rightarrow> after_op db (pause_with_error now reason db)
   | Op_reserve now k ss \<Rightarrow> fst (reserve_next lc now k ss db)
   | Op_workers_only now k \<Rightarrow> after_op db (reserve_workers_only now k db)
   | Op_checkpoint now k i s \<Rightarrow> after_op db (checkpoint ev now k i s db)
   | Op_finish now k ok d c \<Rightarrow> finish_epoch now k ok d c db)"

definition empty_track_db :: track_db where
  "empty_track_db = \<lparr>db_track = None, db_surfaces = [], db_history = []\<rparr>"

inductive track_reachable :: "(string \<Rightarrow> string \<Rightarrow> int) \<Rightarrow> track_db \<Rightarrow> bool"
  for lc :: "string \<Rightarrow> string \<Rightarrow> int" where
  Empty: "track_reachable lc empty_track_db"
| Op: "track_reachable lc db \<Longrightarrow> track_reachable lc (track_step ev lc db op)"

lemma after_op_inv: "track_inv db \<Longrightarrow> (\<And>db'. r = Inr db' \<Longrightarrow> track_inv db') \<Longrightarrow> track_inv (after_op db r)"
  by (auto simp: after_op_def split: sum.split)

lemma track_step_inv:
  assumes "track_inv db" shows "track_inv (track_step ev lc db op)"
proof (cases op)
  case (Op_start now k i)
  show ?thesis unfolding Op_start track_step_def track_op.case
    by (rule after_op_inv [OF assms]) (rule start_track_inv [OF assms])
next
  case (Op_control now a ts)
  show ?thesis unfolding Op_control track_step_def track_op.case
    by (rule after_op_inv [OF assms]) (rule control_track_inv [OF assms])
next
  case (Op_pause now reason)
  show ?thesis unfolding Op_pause track_step_def track_op.case
    by (rule after_op_inv [OF assms]) (rule pause_with_error_inv [OF assms])
next
  case (Op_workers_only now k)
  show ?thesis unfolding Op_workers_only track_step_def track_op.case
    by (rule after_op_inv [OF assms]) (rule reserve_workers_only_inv [OF assms])
next
  case (Op_checkpoint now k i s)
  show ?thesis unfolding Op_checkpoint track_step_def track_op.case
    by (rule after_op_inv [OF assms]) (rule checkpoint_inv [OF assms])
qed (simp_all add: track_step_def assms sync_surfaces_inv reserve_next_inv finish_epoch_inv)

lemma track_reachable_inv: "track_reachable lc db \<Longrightarrow> track_inv db"
proof (induction rule: track_reachable.induct)
  case Empty
  then show ?case by (simp add: track_inv_def empty_track_db_def rows_ok_def)
qed (rule track_step_inv)

section \<open>Selection\<close>

lemma first_of_Some: "first_of xs = Some x \<Longrightarrow> x \<in> set xs \<and> hd xs = x"
  by (cases xs) (simp_all add: first_of_def)

lemma first_of_None [simp]: "first_of xs = None \<longleftrightarrow> xs = []"
  by (cases xs) (simp_all add: first_of_def)

lemma first_of_sorted:
  assumes "comparator c" "first_of (js_sort c xs) = Some x" "y \<in> set xs" shows "c x y \<le> 0"
  using comparator.hd_js_sort_le [OF assms(1,3)] first_of_Some [OF assms(2)] by simp

definition other_resource ::
  "(string \<times> projection) list \<Rightarrow> surface_row list \<Rightarrow> track_row \<Rightarrow> surface_row \<Rightarrow> bool" where
  "other_resource m ws t w \<longleftrightarrow> Some (resource_id m w) \<noteq> previous_resource m ws t"

lemma alternative_work_Some:
  assumes "comparator lc" "alternative_work lc m ws ready t = Some w"
  shows "rotation_due m ws t" "w \<in> set ready" "other_resource m ws t w"
    "\<And>x. x \<in> set ready \<Longrightarrow> other_resource m ws t x \<Longrightarrow> tier m w \<le> tier m x"
proof -
  have r: "rotation_due m ws t" "first_of (js_sort (rotation_order lc m ws)
        (filter (other_resource m ws t) ready)) = Some w"
    using assms(2) by (auto simp: alternative_work_def other_resource_def [abs_def] split: if_splits)
  show "rotation_due m ws t" by (rule r(1))
  show "w \<in> set ready" "other_resource m ws t w"
    using first_of_Some [OF r(2)] by auto
  show "tier m w \<le> tier m x" if "x \<in> set ready" "other_resource m ws t x" for x
    by (rule rotation_order_tier [of lc m ws],
        rule first_of_sorted [OF comparator_rotation_order [OF assms(1)] r(2)]) (use that in simp)
qed

lemma alternative_work_None:
  "alternative_work lc m ws ready t = None \<Longrightarrow> rotation_due m ws t \<Longrightarrow>
   \<forall>x \<in> set ready. \<not> other_resource m ws t x"
  by (auto simp: alternative_work_def other_resource_def filter_empty_conv)

lemma best_work:
  assumes "comparator lc" "first_of (js_sort (rank_order lc m) ready) = Some b"
  shows "b \<in> set ready" "\<And>x. x \<in> set ready \<Longrightarrow> tier m b \<le> tier m x"
proof -
  show "b \<in> set ready" using first_of_Some [OF assms(2)] by auto
  show "tier m b \<le> tier m x" if "x \<in> set ready" for x
    by (rule rank_order_tier [of lc m], rule first_of_sorted [OF comparator_rank_order [OF assms(1)] assms(2) that])
qed

lemma engaged_work_Some:
  assumes "engaged_work m ready best t = Some p"
  shows "p \<in> set ready" "tk_lastSurface t = Some (sr_id p)" "sr_noProgress p < 2"
    "\<exists>b. best = Some b \<and> tier m p \<le> tier m b"
  using assms find_work_Some
  by (auto simp: engaged_work_def bind_eq_Some_conv split: option.splits if_splits)

text \<open>
  What \<open>select_work\<close> picks: a ready component; one of another resource when rotation is due
  and there is one; and then no ready candidate has a better tier.
\<close>

lemma select_work_Some:
  assumes "comparator lc" "select_work lc m ws ready t = Some w"
  shows "w \<in> set ready"
    and "rotation_due m ws t \<Longrightarrow> \<exists>x \<in> set ready. other_resource m ws t x \<Longrightarrow>
      other_resource m ws t w \<and> (\<forall>x \<in> set ready. other_resource m ws t x \<longrightarrow> tier m w \<le> tier m x)"
    and "\<not> (rotation_due m ws t \<and> (\<exists>x \<in> set ready. other_resource m ws t x)) \<Longrightarrow>
      \<forall>x \<in> set ready. tier m w \<le> tier m x"
proof -
  let ?best = "first_of (js_sort (rank_order lc m) ready)"
  consider (alt) "alternative_work lc m ws ready t = Some w"
    | (eng) "alternative_work lc m ws ready t = None" "engaged_work m ready ?best t = Some w"
    | (best) "alternative_work lc m ws ready t = None" "?best = Some w"
    using assms(2) by (auto simp: select_work_def Let_def split: option.splits)
  then have all: "w \<in> set ready
      \<and> (rotation_due m ws t \<longrightarrow> (\<exists>x \<in> set ready. other_resource m ws t x) \<longrightarrow>
          other_resource m ws t w \<and> (\<forall>x \<in> set ready. other_resource m ws t x \<longrightarrow> tier m w \<le> tier m x))
      \<and> (\<not> (rotation_due m ws t \<and> (\<exists>x \<in> set ready. other_resource m ws t x)) \<longrightarrow>
          (\<forall>x \<in> set ready. tier m w \<le> tier m x))"
  proof cases
    case alt
    then show ?thesis using alternative_work_Some [OF assms(1) alt] by blast
  next
    case eng
    then obtain b where "?best = Some b" "tier m w \<le> tier m b"
      using engaged_work_Some(4) by blast
    then have "\<forall>x \<in> set ready. tier m w \<le> tier m x"
      using best_work(2) [OF assms(1)] order_trans by blast
    then show ?thesis
      using eng engaged_work_Some(1) alternative_work_None [OF eng(1)] by blast
  next
    case best
    then show ?thesis
      using best_work [OF assms(1) best(2)] alternative_work_None [OF best(1)] by blast
  qed
  show "w \<in> set ready" using all by blast
  show "other_resource m ws t w \<and> (\<forall>x \<in> set ready. other_resource m ws t x \<longrightarrow> tier m w \<le> tier m x)"
    if "rotation_due m ws t" "\<exists>x \<in> set ready. other_resource m ws t x"
    using all that by blast
  show "\<forall>x \<in> set ready. tier m w \<le> tier m x"
    if "\<not> (rotation_due m ws t \<and> (\<exists>x \<in> set ready. other_resource m ws t x))"
    using all that by blast
qed

end
