(* ===== verification/Track_Theorems.thy ===== *)
theory Track_Theorems
  imports Track_Properties
begin

text \<open>
  The properties of the research track, each with a witness on small tables: eligibility of
  surfaces, exclusive assignment, the choice of a reservation,
  progress of the scheduler, and the effect of checkpoints and of the end of an epoch.
\<close>

section \<open>Library\<close>

lemma reserve_next_Some:
  assumes "reserve_next lc now k ss db = (db', Inr (Some rv))"
  obtains t where "db_track (sync_surfaces now ss db) = Some t" "tk_status t = Track_running"
    "tk_session t = None" "js_trim k \<noteq> []"
    "select_work lc (by_id ss) (works now (sync_surfaces now ss db))
       (ready_works now (by_id ss) (works now (sync_surfaces now ss db))) t = Some (rv_work rv)"
    "map_of (by_id ss) (sr_id (rv_work rv)) = Some (rv_surface rv)"
    "db' = reserve_rows now (js_trim k) (by_id ss) (works now (sync_surfaces now ss db)) t (rv_work rv)
       (sync_surfaces now ss db)"
    "rv_focus rv = (if sr_epochs (rv_work rv) = 0 then First_epoch else Continuing)"
  using assms unfolding reserve_next_def Let_def required_def
  by (auto split: option.splits if_splits)

lemma reserve_rows_track:
  assumes "db_track db = Some t"
  shows "db_track (reserve_rows now k m ws t w db) = Some (t\<lparr>tk_session := Some k, tk_surface := Some (sr_id w),
        tk_epochs := tk_epochs t + 1, tk_lastSurface := Some (sr_id w),
        tk_surfaceStreak := (if tk_lastSurface t = Some (sr_id w) then tk_surfaceStreak t + 1 else 1),
        tk_lastResource := Some (resource_id m w),
        tk_resourceStreak := (if previous_resource m ws t = Some (resource_id m w)
          then resource_streak t + 1 else 1),
        tk_updated := now\<rparr>)"
  using assms by (simp add: reserve_rows_def)

lemma ready_works_iff:
  "w \<in> set (ready_works now m ws) \<longleftrightarrow> w \<in> set ws \<and> map_of m (sr_id w) \<noteq> None
     \<and> sr_status w \<notin> {Work_complete, Work_blocked, Work_excluded} \<and> cooled now w"
  by (auto simp: ready_works_def actionable_works_def)

lemma select_work_None: "select_work lc m ws ready t = None \<Longrightarrow> ready = []"
  by (auto simp: select_work_def Let_def split: option.splits)

section \<open>Demonstration tables\<close>

definition demo_surface :: "string \<Rightarrow> string option \<Rightarrow> projection" where
  "demo_surface k parent = \<lparr>sp_id = k, sp_resourceId = None, sp_resourceKind = None, sp_direction = None,
     sp_parent = parent, sp_name = k, sp_foundation = None, sp_blocker = None\<rparr>"

definition demo_excluded :: "string \<Rightarrow> projection" where
  "demo_excluded k = (demo_surface k None)\<lparr>sp_direction := Some out_of_scope\<rparr>"

definition demo_start :: "projection list \<Rightarrow> start_input" where
  "demo_start ss = \<lparr>si_scopeId = ''scope'', si_provider = JNull, si_guardian = None, si_targets = [''t''],
     si_collaboration = None, si_surfaces = ss, si_replace = False\<rparr>"

definition demo_surfaces :: "projection list" where
  "demo_surfaces = [demo_surface ''a'' None, demo_surface ''b'' None]"

definition no_evidence :: evidence_db where
  "no_evidence = \<lparr>ed_workspace = ''w'', ed_claims = None, ed_claimEvidence = None, ed_claimDuplicates = True,
     ed_memory = None, ed_memberships = None, ed_memoryEvidence = None, ed_memoryDuplicates = True,
     ed_runbooks = None, ed_reports = None, ed_executions = None, ed_cells = None\<rparr>"

definition demo_started :: track_db where
  "demo_started = track_step no_evidence cmp_units empty_track_db (Op_start 0 ''track'' (demo_start demo_surfaces))"

lemma demo_started_reachable: "track_reachable cmp_units demo_started"
  unfolding demo_started_def by (rule track_reachable.intros)+

section \<open>Properties\<close>

text \<open>
  A surface is eligible for the track exactly when neither it nor any ancestor is out of scope
  or assessed as not applicable; the walk ends on cyclic parents as well.
\<close>

theorem scope_eligible_exact:
  assumes "distinct (map sp_id ss)"
  shows "s \<in> set (scope_eligible_surfaces ss) \<longleftrightarrow>
     s \<in> set ss \<and> (\<forall>u. ancestor (by_id ss) s u \<longrightarrow> \<not> is_out_of_scope u)"
  by (rule scope_eligible_iff [OF assms])

theorem scope_eligible_exact_witness:
  "\<exists>u. ancestor (by_id [demo_surface ''a'' (Some ''b''), demo_excluded ''b'']) (demo_surface ''a'' (Some ''b'')) u
     \<and> is_out_of_scope u"
proof -
  let ?ss = "[demo_surface ''a'' (Some ''b''), demo_excluded ''b'']"
  have "distinct (map sp_id ?ss)" by code_simp
  moreover have "scope_eligible_surfaces ?ss = []" by code_simp
  ultimately show ?thesis
    using scope_eligible_exact [of ?ss "demo_surface ''a'' (Some ''b'')"] by auto
qed

text \<open>
  C11. At every moment at most one surface is being worked on, it is the one the track assigned,
  and only while a session holds the track; targets stay between 1 and 16 and distinct, scores
  between 0 and 100, attacker paths distinct by name and by causal vector, and no surface counts
  as complete on target-dependent behaviour that was never tested on the target.
\<close>

theorem track_invariant:
  assumes "track_reachable lc db"
  shows "distinct (map sr_id (db_surfaces db)) \<and> (\<forall>r \<in> set (db_surfaces db). row_ok r)
     \<and> (\<forall>t. db_track db = Some t \<longrightarrow> targets_ok (tk_targets t)
          \<and> (tk_session t = None \<longrightarrow> tk_surface t = None)
          \<and> (\<forall>r \<in> set (db_surfaces db). sr_status r = Work_active \<longrightarrow> tk_surface t = Some (sr_id r)))"
  using track_reachable_inv [OF assms]
  by (auto simp: track_inv_def rows_ok_def active_within_def active_ids_def split: option.splits)

theorem track_invariant_witness:
  "map sr_id (db_surfaces demo_started) = [''a'', ''b''] \<and> row_ok (hd (db_surfaces demo_started))"
proof -
  have e: "map sr_id (db_surfaces demo_started) = [''a'', ''b'']" by code_simp
  then have "hd (db_surfaces demo_started) \<in> set (db_surfaces demo_started)"
    by (intro hd_in_set) auto
  then show ?thesis using e track_invariant [OF demo_started_reachable] by blast
qed

text \<open>
  C12. A reservation assigns a ready component to the session: when another resource is due and has
  a ready component, one of that kind in the best tier, and otherwise one in the best tier of all.
\<close>

theorem reserve_selects:
  assumes "comparator lc" "reserve_next lc now k ss db = (db', Inr (Some rv))"
    and "db1 = sync_surfaces now ss db" "m = by_id ss" "ws = works now db1" "ready = ready_works now m ws"
  shows "rv_work rv \<in> set ready
     \<and> (\<exists>t t'. db_track db1 = Some t \<and> db_track db' = Some t' \<and> tk_session t = None
          \<and> tk_session t' = Some (js_trim k) \<and> tk_surface t' = Some (sr_id (rv_work rv))
          \<and> tk_epochs t' = tk_epochs t + 1
          \<and> (if rotation_due m ws t \<and> (\<exists>x \<in> set ready. other_resource m ws t x)
             then other_resource m ws t (rv_work rv)
               \<and> (\<forall>x \<in> set ready. other_resource m ws t x \<longrightarrow> tier m (rv_work rv) \<le> tier m x)
             else \<forall>x \<in> set ready. tier m (rv_work rv) \<le> tier m x))"
  using assms(2)
proof (cases rule: reserve_next_Some)
  case (1 t)
  have sel: "select_work lc m ws ready t = Some (rv_work rv)" using 1(5) assms(3-6) by simp
  have "db_track db' = Some (t\<lparr>tk_session := Some (js_trim k), tk_surface := Some (sr_id (rv_work rv)),
        tk_epochs := tk_epochs t + 1, tk_lastSurface := Some (sr_id (rv_work rv)),
        tk_surfaceStreak := (if tk_lastSurface t = Some (sr_id (rv_work rv)) then tk_surfaceStreak t + 1 else 1),
        tk_lastResource := Some (resource_id m (rv_work rv)),
        tk_resourceStreak := (if previous_resource m ws t = Some (resource_id m (rv_work rv))
          then resource_streak t + 1 else 1), tk_updated := now\<rparr>)"
    using 1(7) reserve_rows_track [OF 1(1)] assms(3-5) by simp
  then show ?thesis
    using 1(1,3) assms(3) select_work_Some [OF assms(1) sel] by auto
qed

text \<open>
  The scheduler makes progress: whenever the track runs, no session holds it and some component
  is ready, a reservation by a named session succeeds.
\<close>

theorem reserve_progress:
  assumes "db_track (sync_surfaces now ss db) = Some t" "tk_status t = Track_running" "tk_session t = None"
    and "js_trim k \<noteq> []" "comparator lc"
    and "ready_works now (by_id ss) (works now (sync_surfaces now ss db)) \<noteq> []"
  shows "\<exists>db' rv. reserve_next lc now k ss db = (db', Inr (Some rv))"
proof -
  let ?ws = "works now (sync_surfaces now ss db)"
  let ?ready = "ready_works now (by_id ss) ?ws"
  obtain w where w: "select_work lc (by_id ss) ?ws ?ready t = Some w"
    using select_work_None [of lc "by_id ss" ?ws ?ready t] assms(6) by fastforce
  have "w \<in> set ?ready" using select_work_Some(1) [OF assms(5) w] .
  then obtain s where "map_of (by_id ss) (sr_id w) = Some s" by (auto simp: ready_works_iff)
  then show ?thesis
    using assms w by (simp add: reserve_next_def Let_def required_def)
qed


definition demo_reserve :: "track_db \<times> (track_error, reservation option) res" where
  "demo_reserve = reserve_next cmp_units 10 ''s1'' demo_surfaces demo_started"

definition reserved :: "track_db \<times> (track_error, reservation option) res \<Rightarrow> reservation option" where
  "reserved r = (case snd r of Inr v \<Rightarrow> v | Inl _ \<Rightarrow> None)"

lemma reserved_Some: "reserved r = Some rv \<Longrightarrow> r = (fst r, Inr (Some rv))"
  by (cases r; cases "snd r") (auto simp: reserved_def)

lemma demo_reserved: "map_option (\<lambda>rv. sr_id (rv_work rv)) (reserved demo_reserve) = Some ''a''"
  by code_simp

theorem reserve_selects_witness:
  "\<exists>t. db_track (fst demo_reserve) = Some t \<and> tk_session t = Some (js_trim ''s1'') \<and> tk_surface t = Some ''a''"
proof -
  obtain rv where rv: "reserved demo_reserve = Some rv" "sr_id (rv_work rv) = ''a''"
    using demo_reserved by auto
  have "reserve_next cmp_units 10 ''s1'' demo_surfaces demo_started = (fst demo_reserve, Inr (Some rv))"
    using reserved_Some [OF rv(1)] unfolding demo_reserve_def .
  from reserve_selects [OF comparator_cmp_units this refl refl refl refl] show ?thesis
    using rv(2) by auto
qed

theorem reserve_progress_witness:
  "\<exists>db' rv. reserve_next cmp_units 10 ''s1'' demo_surfaces demo_started = (db', Inr (Some rv))"
proof -
  have e: "map_option tk_status (db_track (sync_surfaces 10 demo_surfaces demo_started)) = Some Track_running"
    "map_option tk_session (db_track (sync_surfaces 10 demo_surfaces demo_started)) = Some None"
    "js_trim ''s1'' \<noteq> []"
    "length (ready_works 10 (by_id demo_surfaces) (works 10 (sync_surfaces 10 demo_surfaces demo_started))) = 2"
    by code_simp+
  then obtain t where t: "db_track (sync_surfaces 10 demo_surfaces demo_started) = Some t"
    "tk_status t = Track_running" "tk_session t = None" by auto
  have "ready_works 10 (by_id demo_surfaces) (works 10 (sync_surfaces 10 demo_surfaces demo_started)) \<noteq> []"
    using e(4) by auto
  from reserve_progress [OF t e(3) comparator_cmp_units this] show ?thesis .
qed

section \<open>Checkpoints and the end of an epoch\<close>

lemma cooldown_hours_bounds: "2 \<le> n \<Longrightarrow> 6 \<le> cooldown_hours n \<and> cooldown_hours n \<le> 168"
  by (simp add: cooldown_hours_def)

text \<open>
  C14. A checkpoint that is accepted was made by the session holding the track on its assigned
  surface, cites only records that exist, resets the idle count exactly when a cited record holds
  source evidence newer than the previous epoch or the outcome is final, never completes
  target-dependent work that was not tested on the target, and changes no other surface.
\<close>

theorem checkpoint_contract:
  assumes "checkpoint ev now session i s db = Inr db'"
  shows "assigned session db i s
     \<and> db_track db' = db_track db
     \<and> (\<forall>r \<in> set (db_surfaces db). sr_id r \<noteq> ci_surfaceId i \<longrightarrow> r \<in> set (db_surfaces db'))
     \<and> (\<exists>w. find_work (ci_surfaceId i) (works now db) = Some w
          \<and> (\<forall>r \<in> set (db_surfaces db'). sr_id r = ci_surfaceId i \<longrightarrow>
               sr_status r = outcome_status (ci_outcome i)
               \<and> (\<forall>ref \<in> set (sr_refs r). valid_evidence_ref ev ref)
               \<and> sr_noProgress r =
                   (if (\<exists>ref \<in> set (sr_refs r). fresh_evidence_ref ev ref (sr_lastWorked w) now)
                       \<or> ci_outcome i \<in> {Out_complete, Out_blocked, Out_exclude}
                    then 0 else sr_noProgress w + 1)
               \<and> \<not> (ci_outcome i = Out_complete \<and> (\<exists>v. sr_validation r = Some v \<and> target_gap v))))"
  using assms
proof (cases rule: checkpoint_Inr)
  case (1 w angles refs v)
  have st: "outcome_status (ci_outcome i) \<in> {Work_complete, Work_blocked, Work_excluded} \<longleftrightarrow>
      ci_outcome i \<in> {Out_complete, Out_blocked, Out_exclude}"
    by (cases "ci_outcome i") (simp_all add: outcome_status_def)
  have row: "sr_id r = ci_surfaceId i \<Longrightarrow> r \<in> set (db_surfaces db') \<Longrightarrow>
      \<exists>r0. r = apply_checkpoint now i w refs
        (list_ex (\<lambda>r. fresh_evidence_ref ev r (sr_lastWorked w) now) refs) angles v r0" for r
    unfolding 1(11) by (auto simp: set_update_row)
  have idle: "sr_noProgress (apply_checkpoint now i w refs fr angles v r0) =
      (if fr \<or> ci_outcome i \<in> {Out_complete, Out_blocked, Out_exclude} then 0 else sr_noProgress w + 1)" for fr r0
    unfolding apply_checkpoint_def Let_def using st by simp
  have others: "\<forall>r \<in> set (db_surfaces db). sr_id r \<noteq> ci_surfaceId i \<longrightarrow> r \<in> set (db_surfaces db')"
    unfolding 1(11) by (auto simp: set_update_row)
  have "db_track db' = db_track db" using 1(11) by simp
  moreover have "\<forall>r \<in> set (db_surfaces db'). sr_id r = ci_surfaceId i \<longrightarrow>
      sr_status r = outcome_status (ci_outcome i) \<and> sr_refs r = refs \<and> sr_validation r = v
      \<and> sr_noProgress r = (if list_ex (\<lambda>r. fresh_evidence_ref ev r (sr_lastWorked w) now) refs
          \<or> ci_outcome i \<in> {Out_complete, Out_blocked, Out_exclude} then 0 else sr_noProgress w + 1)"
    using row idle by fastforce
  ultimately show ?thesis
    using 1(1,2,5,8) others by (auto simp: list_ex_iff)
qed

text \<open>
  A component whose checkpoints stop producing evidence rests: after the second one in a row
  the scheduler does not offer it for at least six hours.
\<close>

theorem idle_component_rests:
  assumes "checkpoint ev now session i s db = Inr db'" "ci_outcome i = Out_continue \<or> ci_outcome i = Out_defer"
    and "find_work (ci_surfaceId i) (works now db) = Some w" "1 \<le> sr_noProgress w"
    and "\<And>ref. \<not> fresh_evidence_ref ev ref (sr_lastWorked w) now"
    and "later < now + 6 * 3600000"
  shows "\<forall>x \<in> set (ready_works later m (works later db')). sr_id x \<noteq> ci_surfaceId i"
  using assms(1)
proof (cases rule: checkpoint_Inr)
  case (1 w' angles refs v)
  have w': "w' = w" using 1(2) assms(3) by simp
  have st: "outcome_status (ci_outcome i) = Work_deferred" using assms(2) outcome_status_iff(3) by blast
  have nofresh: "list_ex (\<lambda>r. fresh_evidence_ref ev r (sr_lastWorked w) now) refs = False"
    using assms(5) by (simp add: list_ex_iff)
  have rest: "sr_revisitAfter (apply_checkpoint now i w refs False angles v r0) =
      Some (now + int (cooldown_hours (sr_noProgress w + 1)) * 3600000)" for r0
    using assms(4) st by (simp add: apply_checkpoint_def cooldown_until_def)
  have "6 \<le> cooldown_hours (sr_noProgress w + 1)" using cooldown_hours_bounds [of "sr_noProgress w + 1"] assms(4) by simp
  then have late: "later < now + int (cooldown_hours (sr_noProgress w + 1)) * 3600000" using assms(6) by simp
  have rows: "sr_id r = ci_surfaceId i \<Longrightarrow> r \<in> set (db_surfaces db') \<Longrightarrow>
      sr_revisitAfter r = Some (now + int (cooldown_hours (sr_noProgress w + 1)) * 3600000)" for r
    unfolding 1(11) using rest by (auto simp: set_update_row w' nofresh)
  show ?thesis
  proof (intro ballI notI)
    fix x assume x: "x \<in> set (ready_works later m (works later db'))" "sr_id x = ci_surfaceId i"
    then obtain r where "r \<in> set (db_surfaces db')" "x = read_row later r"
      by (auto simp: ready_works_iff set_works)
    then have "\<not> cooled later x" using rows [of r] x(2) late by (simp add: cooled_def)
    then show False using x(1) by (simp add: ready_works_iff)
  qed
qed


definition demo_input :: checkpoint_input where
  "demo_input = \<lparr>ci_surfaceId = ''a'', ci_outcome = Out_continue, ci_impact = Impact_low, ci_theory = ''t'',
     ci_nextAction = ''n'', ci_refs = [], ci_angles = None, ci_validation = None\<rparr>"

lemma demo_input_simps: "ci_surfaceId demo_input = ''a''" "ci_outcome demo_input = Out_continue"
  by (simp_all add: demo_input_def)

lemma no_fresh: "\<not> fresh_evidence_ref no_evidence ref since until"
proof -
  have "\<not> fresh_key no_evidence k key s until" for k key s
    by (cases k) (simp_all add: no_evidence_def)
  then show ?thesis by (simp add: fresh_evidence_ref_def split: option.split)
qed

definition checkpointed :: "track_db \<Rightarrow> track_db" where
  "checkpointed db = after_op db (checkpoint no_evidence 20 (Some ''s1'') demo_input (demo_surface ''a'' None) db)"

lemma after_op_Inr: "isl r = False \<Longrightarrow> r = Inr (after_op db r)"
  by (cases r) (simp_all add: after_op_def)

theorem checkpoint_contract_witness:
  "map (\<lambda>r. (sr_id r, sr_status r)) (db_surfaces (checkpointed (fst demo_reserve)))
     = [(''a'', Work_deferred), (''b'', Work_unexamined)]
   \<and> sr_noProgress (hd (db_surfaces (checkpointed (fst demo_reserve)))) = 1"
proof -
  let ?c = "checkpoint no_evidence 20 (Some ''s1'') demo_input (demo_surface ''a'' None) (fst demo_reserve)"
  have e: "isl ?c = False"
    "map (\<lambda>r. (sr_id r, sr_status r)) (db_surfaces (checkpointed (fst demo_reserve)))
       = [(''a'', Work_deferred), (''b'', Work_unexamined)]"
    "map_option sr_noProgress (find_work ''a'' (works 20 (fst demo_reserve))) = Some 0"
    by code_simp+
  have "?c = Inr (checkpointed (fst demo_reserve))"
    unfolding checkpointed_def by (rule after_op_Inr [OF e(1)])
  from checkpoint_contract [OF this]
  have "\<forall>r \<in> set (db_surfaces (checkpointed (fst demo_reserve))). sr_id r = ''a'' \<longrightarrow> sr_noProgress r = 1"
    using e(3) by (auto simp: demo_input_simps no_fresh)
  moreover obtain r rs where "db_surfaces (checkpointed (fst demo_reserve)) = r # rs" "sr_id r = ''a''"
    using e(2) by auto
  ultimately show ?thesis using e(2) by simp
qed

definition demo_idle :: track_db where
  "demo_idle = (fst demo_reserve)\<lparr>db_surfaces := update_row ''a'' (\<lambda>r. r\<lparr>sr_noProgress := 1\<rparr>)
     (db_surfaces (fst demo_reserve))\<rparr>"

theorem idle_component_rests_witness:
  "find_work ''a'' (ready_works 21600000 (by_id demo_surfaces) (works 21600000 (checkpointed demo_idle))) = None"
proof -
  let ?c = "checkpoint no_evidence 20 (Some ''s1'') demo_input (demo_surface ''a'' None) demo_idle"
  have e: "isl ?c = False" "map_option sr_noProgress (find_work ''a'' (works 20 demo_idle)) = Some 1"
    by code_simp+
  then obtain w where w: "find_work (ci_surfaceId demo_input) (works 20 demo_idle) = Some w" "1 \<le> sr_noProgress w"
    by (auto simp: demo_input_simps)
  have "?c = Inr (checkpointed demo_idle)"
    unfolding checkpointed_def by (rule after_op_Inr [OF e(1)])
  from idle_component_rests [OF this _ w no_fresh, of 21600000 "by_id demo_surfaces"] show ?thesis
    unfolding find_work_None by (simp add: demo_input_simps)
qed


text \<open>
  The end of an epoch reported by the session that holds the track frees it: no session, no
  assigned surface and no active row remain, and the status is kept; reported by any other
  session it changes nothing.
\<close>

theorem finish_releases:
  assumes "track_reachable lc db"
  shows "(\<forall>t. db_track db = Some t \<and> tk_session t = Some k \<longrightarrow>
        (\<forall>r \<in> set (db_surfaces (finish_epoch now k ok diag cnt db)). sr_status r \<noteq> Work_active)
        \<and> (\<exists>t'. db_track (finish_epoch now k ok diag cnt db) = Some t' \<and> tk_session t' = None
             \<and> tk_surface t' = None \<and> tk_status t' = tk_status t))
     \<and> ((\<nexists>t. db_track db = Some t \<and> tk_session t = Some k) \<longrightarrow> finish_epoch now k ok diag cnt db = db)"
proof -
  have inv: "track_inv db" by (rule track_reachable_inv [OF assms])
  have "finish_epoch now k ok diag cnt db = db" if "\<nexists>t. db_track db = Some t \<and> tk_session t = Some k"
    using that by (auto simp: finish_epoch_def split: option.split)
  then show ?thesis
    using finish_epoch_owner [OF inv, of _ k now ok diag cnt]
    by (fastforce simp: active_within_def active_ids_def)
qed

theorem finish_releases_witness:
  "\<exists>t'. db_track (finish_epoch 30 ''s1'' True None None (fst demo_reserve)) = Some t' \<and> tk_session t' = None"
proof -
  have r: "track_reachable cmp_units (fst demo_reserve)"
    using track_reachable.Op [OF demo_started_reachable, of no_evidence "Op_reserve 10 ''s1'' demo_surfaces"]
    by (simp add: track_step_def demo_reserve_def)
  have "map_option tk_session (db_track (fst demo_reserve)) = Some (Some ''s1'')" by code_simp
  then show ?thesis using finish_releases [OF r, of "''s1''" 30 True None None] by auto
qed

section \<open>Attacker paths\<close>

text \<open>The names a list of accepted updates carries.\<close>

fun update_keys :: "json list \<Rightarrow> string list" where
  "update_keys [] = []"
| "update_keys (j # js) = (case parse_angle j of Inr a \<Rightarrow> angle_key a # update_keys js | Inl _ \<Rightarrow> update_keys js)"

lemma merge_updates_lookup:
  "merge_updates ev kas seen js = Inr kas' \<Longrightarrow> k \<notin> set (update_keys js) \<Longrightarrow> map_of kas' k = map_of kas k"
proof (induction js arbitrary: kas seen)
  case (Cons j js)
  from Cons.prems(1) obtain a refs where a: "parse_angle j = Inr a"
    "merge_updates ev (AList.update (angle_key a) (a\<lparr>an_evidenceRefs := refs\<rparr>) kas) (angle_key a # seen) js = Inr kas'"
    unfolding merge_updates.simps guard_simps by blast
  with Cons.prems(2) have "k \<noteq> angle_key a" "k \<notin> set (update_keys js)" by auto
  then show ?case using Cons.IH [OF a(2)] by (simp add: map_of_update)
qed simp

lemma merge_updates_fresh_names:
  "merge_updates ev kas seen js = Inr kas' \<Longrightarrow>
   distinct (update_keys js) \<and> set (update_keys js) \<inter> set seen = {} \<and> set (update_keys js) \<subseteq> fst ` set kas'"
proof (induction js arbitrary: kas seen)
  case (Cons j js)
  from Cons.prems(1) obtain a refs where a: "parse_angle j = Inr a" "angle_key a \<notin> set seen"
    "merge_updates ev (AList.update (angle_key a) (a\<lparr>an_evidenceRefs := refs\<rparr>) kas) (angle_key a # seen) js = Inr kas'"
    unfolding merge_updates.simps guard_simps by blast
  have ih: "distinct (update_keys js)" "set (update_keys js) \<inter> set (angle_key a # seen) = {}"
    "set (update_keys js) \<subseteq> fst ` set kas'"
    using Cons.IH [OF a(3)] by blast+
  have "map_of kas' (angle_key a) = Some (a\<lparr>an_evidenceRefs := refs\<rparr>)"
    using merge_updates_lookup [OF a(3), of "angle_key a"] ih(2) by (auto simp: map_of_update)
  then have "angle_key a \<in> fst ` set kas'" by (metis map_of_eq_None_iff option.simps(3))
  then show ?case using ih a(1,2) by auto
qed simp

text \<open>
  Merging the attacker paths of a checkpoint never loses one: a path recorded earlier whose
  name is not updated is kept as it was, every update is present afterwards under its name, no
  two updates share a name, and the result is distinct by name and by causal vector and within
  the limit of 24.
\<close>

theorem merge_angles_retains:
  assumes "merge_angles ev as (Some js) = Inr as'" "angles_ok as"
  shows "angles_ok as' \<and> distinct (update_keys js)
     \<and> (\<forall>a \<in> set as. angle_key a \<notin> set (update_keys js) \<longrightarrow> a \<in> set as')
     \<and> set (update_keys js) \<subseteq> angle_key ` set as'"
proof (cases "js = []")
  case True
  then show ?thesis using assms by (simp add: merge_angles_def)
next
  case False
  then obtain kas where m: "merge_updates ev (js_map_of (map (\<lambda>a. (angle_key a, a)) as)) [] js = Inr kas"
    "as' = map snd kas"
    using assms(1) unfolding merge_angles_def by (cases js) (auto simp: guard_simps)
  have k: "keyed kas" using merge_updates_keyed [OF m(1) keyed_js_map] .
  have "a \<in> set as'" if a: "a \<in> set as" "angle_key a \<notin> set (update_keys js)" for a
  proof -
    have "distinct (map fst (rev (map (\<lambda>a. (angle_key a, a)) as)))"
      using assms(2) by (simp add: angles_ok_def rev_map [symmetric] o_def)
    then have "map_of (js_map_of (map (\<lambda>a. (angle_key a, a)) as)) (angle_key a) = Some a"
      unfolding map_of_js_map by (rule map_of_is_SomeI) (use a(1) in auto)
    then have "map_of kas (angle_key a) = Some a" using merge_updates_lookup [OF m(1) a(2)] by simp
    then show ?thesis using m(2) by (force dest: map_of_SomeD)
  qed
  moreover have "set (update_keys js) \<subseteq> angle_key ` set as'"
    using merge_updates_fresh_names [OF m(1)] k m(2) unfolding keyed_def by force
  ultimately show ?thesis
    using merge_angles_ok [OF assms] merge_updates_fresh_names [OF m(1)] by blast
qed

definition demo_angle :: angle where
  "demo_angle = \<lparr>an_name = ''Old'', an_status = Angle_open, an_vector = None, an_proofQuestion = ''q'',
     an_evidenceRefs = [], an_nextAction = ''n''\<rparr>"

definition demo_update :: json where
  "demo_update = JObj [(''name'', JStr ''New''), (''status'', JStr ''open''),
     (''vector'', JObj [(''attackerControl'', JStr ''a''), (''trustBoundary'', JStr ''b''),
        (''failureMode'', JStr ''c''), (''unauthorizedEffect'', JStr ''d'')]),
     (''proofQuestion'', JStr ''q''), (''nextAction'', JStr ''n''), (''evidenceRefs'', JArr [])]"

theorem merge_angles_retains_witness:
  "\<exists>as'. merge_angles no_evidence [demo_angle] (Some [demo_update]) = Inr as' \<and> demo_angle \<in> set as'"
proof -
  have e: "isl (merge_angles no_evidence [demo_angle] (Some [demo_update])) = False"
    "angle_key demo_angle \<notin> set (update_keys [demo_update])" "angles_ok [demo_angle]"
    by code_simp+
  then obtain as' where "merge_angles no_evidence [demo_angle] (Some [demo_update]) = Inr as'"
    by (cases "merge_angles no_evidence [demo_angle] (Some [demo_update])") auto
  with merge_angles_retains [OF this e(3)] e(2) show ?thesis by auto
qed

end
