(* ===== verification/Track_Rotation.thy ===== *)
theory Track_Rotation
  imports Track_Theorems
begin

text \<open>
  Rotation between resources, stated over the epochs a track has actually handed out: the history of a
  run records the resource of every reservation since the track was started, and the counters of the
  track row are shown to agree with it.
\<close>

section \<open>The history of a run\<close>

text \<open>The resources of the epochs reserved since the last start, the latest first.\<close>

definition history_after ::
  "(string \<Rightarrow> string \<Rightarrow> int) \<Rightarrow> track_db \<Rightarrow> track_op \<Rightarrow> string list \<Rightarrow> string list" where
  "history_after lc db op hist = (case op of
     Op_start now k i \<Rightarrow> (case start_track now k i db of Inr db' \<Rightarrow> [] | Inl e \<Rightarrow> hist)
   | Op_reserve now k ss \<Rightarrow> (case snd (reserve_next lc now k ss db) of
       Inr (Some rv) \<Rightarrow> resource_id (by_id ss) (rv_work rv) # hist | _ \<Rightarrow> hist)
   | _ \<Rightarrow> hist)"

inductive track_history :: "(string \<Rightarrow> string \<Rightarrow> int) \<Rightarrow> string list \<Rightarrow> track_db \<Rightarrow> bool"
  for lc :: "string \<Rightarrow> string \<Rightarrow> int" where
  History_empty: "track_history lc [] empty_track_db"
| History_op: "track_history lc hist db \<Longrightarrow> track_history lc (history_after lc db op hist) (track_step ev lc db op)"

text \<open>How often the latest resource was reserved without interruption.\<close>

fun streak :: "string list \<Rightarrow> nat" where
  "streak [] = 0"
| "streak (r # rs) = Suc (length (takeWhile (\<lambda>q. q = r) rs))"

lemma streak_Cons: "streak (r # rs) = (if rs \<noteq> [] \<and> hd rs = r then Suc (streak rs) else 1)"
  by (cases rs) auto

text \<open>The counters of the track row agree with the history.\<close>

definition counters :: "track_row \<Rightarrow> string option \<times> nat \<times> string option" where
  "counters t = (tk_lastResource t, tk_resourceStreak t, tk_lastSurface t)"

definition counted :: "string list \<Rightarrow> track_db \<Rightarrow> bool" where
  "counted hist db \<longleftrightarrow> (\<forall>t. db_track db = Some t \<longrightarrow>
     (if hist = [] then tk_lastResource t = None \<and> tk_lastSurface t = None
      else tk_lastResource t = Some (hd hist) \<and> tk_resourceStreak t = streak hist))"

lemma counted_same:
  "counted hist db \<Longrightarrow> map_option counters (db_track db') = map_option counters (db_track db) \<Longrightarrow> counted hist db'"
  by (cases "db_track db"; cases "db_track db'") (auto simp: counted_def counters_def split: if_splits)

lemma counters_sync: "map_option counters (db_track (sync_surfaces now ss db)) = map_option counters (db_track db)"
  by (cases "db_track db") (auto simp: sync_surfaces_def Let_def pause_for_new_surface_def pause_with_error_def guard_simps
      map_track_def counters_def split: sum.splits)

lemma counters_control:
  "control_track now a ts db = Inr db' \<Longrightarrow> map_option counters (db_track db') = map_option counters (db_track db)"
  unfolding control_track_def guard_simps
  by (cases a; cases "db_track db") (auto simp: counters_def)

lemma counters_pause:
  "pause_with_error now reason db = Inr db' \<Longrightarrow> map_option counters (db_track db') = map_option counters (db_track db)"
  by (cases "db_track db") (auto simp: pause_with_error_def counters_def guard_simps)

lemma counters_workers_only:
  "reserve_workers_only now k db = Inr db' \<Longrightarrow> map_option counters (db_track db') = map_option counters (db_track db)"
  by (cases "db_track db") (auto simp: reserve_workers_only_def counters_def guard_simps)

lemma counters_checkpoint:
  assumes "checkpoint ev now se ci s db = Inr db'"
  shows "map_option counters (db_track db') = map_option counters (db_track db)"
  using assms by (cases rule: checkpoint_Inr) simp

lemma counters_finish: "map_option counters (db_track (finish_epoch now k ok d c db)) = map_option counters (db_track db)"
  by (cases "db_track db") (simp_all add: finish_epoch_def counters_def Let_def)

lemma counted_start: "start_track now k i db = Inr db' \<Longrightarrow> counted [] db'"
  by (auto simp: start_track_def counted_def guard_simps Let_def)

lemma counted_reserve:
  assumes "counted hist db" "reserve_next lc now k ss db = (db', Inr (Some rv))"
  shows "counted (resource_id (by_id ss) (rv_work rv) # hist) db'"
  using assms(2)
proof (cases rule: reserve_next_Some)
  case (1 t)
  let ?m = "by_id ss" and ?ws = "works now (sync_surfaces now ss db)"
  have c: "counted hist (sync_surfaces now ss db)" by (rule counted_same [OF assms(1) counters_sync])
  have "previous_resource ?m ?ws t = (if hist = [] then None else Some (hd hist))"
    "hist \<noteq> [] \<Longrightarrow> resource_streak t = streak hist"
    using c 1(1) by (auto simp: counted_def previous_resource_def resource_streak_def)
  then show ?thesis
    using 1(7) reserve_rows_track [OF 1(1)] by (auto simp: counted_def streak_Cons simp del: streak.simps)
qed

lemma counted_no_reservation:
  assumes "comparator lc" "counted hist db" "\<nexists>rv. snd (reserve_next lc now k ss db) = Inr (Some rv)"
  shows "counted hist (fst (reserve_next lc now k ss db))"
proof -
  let ?db = "sync_surfaces now ss db"
  have c: "counted hist ?db" by (rule counted_same [OF assms(2) counters_sync])
  have "map_of (by_id ss) (sr_id w) \<noteq> None"
    if "select_work lc (by_id ss) (works now ?db) (ready_works now (by_id ss) (works now ?db)) t = Some w" for w t
    using select_work_Some(1) [OF assms(1) that] by (simp add: ready_works_iff)
  then have "fst (reserve_next lc now k ss db) = ?db \<or> fst (reserve_next lc now k ss db) = settle_track now (works now ?db) ?db"
    using assms(3) unfolding reserve_next_def Let_def by (auto split: option.splits sum.splits if_splits)
  moreover have "map_option counters (db_track (settle_track now (works now ?db) ?db)) = map_option counters (db_track ?db)"
    by (cases "db_track ?db") (simp_all add: settle_track_def map_track_def counters_def)
  ultimately show ?thesis using c counted_same [OF c] by metis
qed

lemma counted_after_op:
  assumes "counted hist db" "\<And>db'. r = Inr db' \<Longrightarrow> map_option counters (db_track db') = map_option counters (db_track db)"
  shows "counted hist (after_op db r)"
  using assms(1) counted_same [OF assms(1) assms(2)] by (cases r) (simp_all add: after_op_def)

lemma counted_step:
  assumes "comparator lc" "counted hist db"
  shows "counted (history_after lc db op hist) (track_step ev lc db op)"
proof (cases op)
  case (Op_start now k i)
  then show ?thesis
    using assms(2) counted_start [of now k i db]
    by (cases "start_track now k i db") (auto simp: history_after_def track_step_def after_op_def)
next
  case (Op_reserve now k ss)
  show ?thesis
  proof (cases "\<exists>rv. snd (reserve_next lc now k ss db) = Inr (Some rv)")
    case True
    then obtain db' rv where r: "reserve_next lc now k ss db = (db', Inr (Some rv))" by (metis prod.collapse)
    show ?thesis
      using counted_reserve [OF assms(2) r] r by (simp add: Op_reserve history_after_def track_step_def)
  next
    case False
    then have "history_after lc db op hist = hist"
      by (auto simp: history_after_def Op_reserve split: sum.splits option.splits)
    then show ?thesis using counted_no_reservation [OF assms False] by (simp add: Op_reserve track_step_def)
  qed
next
  case (Op_sync now ss)
  then show ?thesis
    using counted_same [OF assms(2) counters_sync] by (simp add: history_after_def track_step_def)
next
  case (Op_finish now k ok d c)
  then show ?thesis
    using counted_same [OF assms(2) counters_finish] by (simp add: history_after_def track_step_def)
next
  case (Op_control now a ts)
  then show ?thesis
    using counted_after_op [OF assms(2) counters_control] by (simp add: history_after_def track_step_def)
next
  case (Op_pause now reason)
  then show ?thesis
    using counted_after_op [OF assms(2) counters_pause] by (simp add: history_after_def track_step_def)
next
  case (Op_workers_only now k)
  then show ?thesis
    using counted_after_op [OF assms(2) counters_workers_only] by (simp add: history_after_def track_step_def)
next
  case (Op_checkpoint now k ci s)
  then show ?thesis
    using counted_after_op [OF assms(2) counters_checkpoint] by (simp add: history_after_def track_step_def)
qed

lemma counted_history: "track_history lc hist db \<Longrightarrow> comparator lc \<Longrightarrow> counted hist db"
proof (induction rule: track_history.induct)
  case History_empty
  show ?case by (simp add: counted_def empty_track_db_def)
next
  case (History_op hist db op ev)
  show ?case by (rule counted_step [OF History_op.prems History_op.IH [OF History_op.prems]])
qed

section \<open>Properties\<close>

text \<open>
  C13. When the last three or more epochs of a track were all handed out for one resource (with a
  non-empty id), the next epoch goes to another one as soon as a component of another resource is
  ready: no resource gets four epochs in a row while another one could be worked on.
\<close>

theorem resource_streak_bounded:
  assumes "comparator lc" "track_history lc (r # r # r # hist) db" "r \<noteq> []"
    and "reserve_next lc now k ss db = (db', Inr (Some rv))"
    and "x \<in> set (ready_works now (by_id ss) (works now (sync_surfaces now ss db)))" "resource_id (by_id ss) x \<noteq> r"
  shows "resource_id (by_id ss) (rv_work rv) \<noteq> r"
  using assms(4)
proof (cases rule: reserve_next_Some)
  case (1 t)
  let ?m = "by_id ss" and ?ws = "works now (sync_surfaces now ss db)"
  have "counted (r # r # r # hist) (sync_surfaces now ss db)"
    by (rule counted_same [OF counted_history [OF assms(2,1)] counters_sync])
  then have t: "tk_lastResource t = Some r" "3 \<le> tk_resourceStreak t" using 1(1) by (auto simp: counted_def)
  then have prev: "previous_resource ?m ?ws t = Some r" by (simp add: previous_resource_def)
  then have "rotation_due ?m ?ws t" "other_resource ?m ?ws t x"
    using t assms(3,6) by (simp_all add: rotation_due_def resource_streak_def max_consecutive_resource_epochs_def other_resource_def)
  then have "other_resource ?m ?ws t (rv_work rv)"
    using select_work_Some(2) [OF assms(1) 1(5)] assms(5) by blast
  then show ?thesis using prev by (simp add: other_resource_def)
qed

text \<open>Three epochs on the only component, then a second one appears.\<close>

definition rotation_ops :: "track_op list" where
  "rotation_ops = [Op_start 0 ''track'' (demo_start [demo_surface ''a'' None]),
     Op_reserve 10 ''s1'' [demo_surface ''a'' None], Op_finish 20 ''s1'' True None (Some False),
     Op_reserve 30 ''s2'' [demo_surface ''a'' None], Op_finish 40 ''s2'' True None (Some False),
     Op_reserve 50 ''s3'' [demo_surface ''a'' None], Op_finish 60 ''s3'' True None (Some False)]"

definition rotation_run :: "track_op list \<Rightarrow> string list \<times> track_db" where
  "rotation_run ops = foldl (\<lambda>(hist, db) op. (history_after cmp_units db op hist, track_step no_evidence cmp_units db op))
     ([], empty_track_db) ops"

lemma rotation_run_history: "track_history cmp_units (fst (rotation_run ops)) (snd (rotation_run ops))"
proof (induction ops rule: rev_induct)
  case Nil
  then show ?case by (simp add: rotation_run_def History_empty)
next
  case (snoc op ops)
  then show ?case using History_op by (fastforce simp: rotation_run_def case_prod_unfold)
qed

definition rotation_db :: track_db where
  "rotation_db = snd (rotation_run rotation_ops)"

definition rotation_next :: "track_db \<times> (track_error, reservation option) res" where
  "rotation_next = reserve_next cmp_units 70 ''s4'' demo_surfaces rotation_db"

theorem resource_streak_bounded_witness:
  "map_option (\<lambda>rv. resource_id (by_id demo_surfaces) (rv_work rv) = ''a'') (reserved rotation_next) = Some False"
proof -
  have e: "fst (rotation_run rotation_ops) = [''a'', ''a'', ''a'']" "reserved rotation_next \<noteq> None"
    "list_ex (\<lambda>x. resource_id (by_id demo_surfaces) x \<noteq> ''a'')
       (ready_works 70 (by_id demo_surfaces) (works 70 (sync_surfaces 70 demo_surfaces rotation_db)))"
    by code_simp+
  then obtain rv x where rv: "reserved rotation_next = Some rv" and x: "resource_id (by_id demo_surfaces) x \<noteq> ''a''"
      "x \<in> set (ready_works 70 (by_id demo_surfaces) (works 70 (sync_surfaces 70 demo_surfaces rotation_db)))"
    by (auto simp: list_ex_iff)
  have "reserve_next cmp_units 70 ''s4'' demo_surfaces rotation_db = (fst rotation_next, Inr (Some rv))"
    using reserved_Some [OF rv] unfolding rotation_next_def .
  from resource_streak_bounded [OF comparator_cmp_units _ _ this x(2,1), of "[]"] rotation_run_history [of rotation_ops]
  show ?thesis using rv by (simp add: e(1) rotation_db_def)
qed

end
