(* ===== verification/Claim_Model.thy ===== *)
theory Claim_Model
  imports Json_Value
begin

text \<open>
  The data of the claim ledger (\<open>packages/research-agent/src/findings.ts\<close>): statuses,
  evidence, the rows of its tables, the text helpers, and the reader that joins the tables into a
  claim as the operations see it (\<open>readFindings\<close>).

  The SQLite tables are lists of rows; a table the database may lack is \<open>None\<close>.  The
  column \<open>security_tracking_json\<close> is kept as the value it stores: that reading it back gives
  the value written is the round trip proved for the tracking component.
\<close>

section \<open>Statuses, kinds and ratings\<close>

datatype claim_status = Hypothesis | Observed | Reproduced | Verified | Report_ready | Disclosed
  | Stale | Rejected

datatype evidence_kind = Ev_code | Ev_artifact | Ev_command | Ev_url | Ev_calculation | Ev_proof
  | Ev_publication | Ev_human_review | Ev_runbook_execution | Ev_independent_verification
  | Ev_report | Ev_disclosure

datatype claim_rating = Rating_informational | Rating_low | Rating_medium | Rating_high | Rating_critical

datatype projection_kind = Proj_lead | Proj_finding

datatype claim_maturity = Mat_lead | Mat_observed | Mat_reproduced | Mat_verified | Mat_refuted

fun allowed_transitions :: "claim_status \<Rightarrow> claim_status list" where
  "allowed_transitions Hypothesis = [Observed, Rejected]"
| "allowed_transitions Observed = [Reproduced, Stale, Rejected]"
| "allowed_transitions Reproduced = [Verified, Stale, Rejected]"
| "allowed_transitions Verified = [Report_ready, Stale, Rejected]"
| "allowed_transitions Report_ready = [Disclosed, Stale, Rejected]"
| "allowed_transitions Disclosed = [Stale]"
| "allowed_transitions Stale = [Observed, Reproduced, Verified, Report_ready, Rejected]"
| "allowed_transitions Rejected = [Hypothesis]"

definition direct_observation_kinds :: "evidence_kind list" where
  "direct_observation_kinds =
     [Ev_code, Ev_artifact, Ev_command, Ev_url, Ev_calculation, Ev_proof, Ev_publication]"

definition review_kinds :: "evidence_kind list" where
  "review_kinds = [Ev_independent_verification, Ev_human_review, Ev_proof]"

definition finding_is_terminal :: "claim_status \<Rightarrow> bool" where
  "finding_is_terminal s \<longleftrightarrow> s = Disclosed \<or> s = Rejected"

definition finding_evidence_kind :: "string \<Rightarrow> evidence_kind option" where
  "finding_evidence_kind s = map_of
     [(''code'', Ev_code), (''artifact'', Ev_artifact), (''command'', Ev_command), (''url'', Ev_url),
      (''calculation'', Ev_calculation), (''proof'', Ev_proof), (''publication'', Ev_publication),
      (''human_review'', Ev_human_review), (''runbook_execution'', Ev_runbook_execution),
      (''independent_verification'', Ev_independent_verification), (''report'', Ev_report),
      (''disclosure'', Ev_disclosure)] (js_trim s)"

definition research_claim_rating :: "string \<Rightarrow> claim_rating option" where
  "research_claim_rating s = map_of
     [(''informational'', Rating_informational), (''low'', Rating_low), (''medium'', Rating_medium),
      (''high'', Rating_high), (''critical'', Rating_critical)] s"

text \<open>What a status, the status a stale claim had, and the number of its evidence project to.\<close>

definition effective_status :: "claim_status \<Rightarrow> claim_status option \<Rightarrow> claim_status" where
  "effective_status s from = (if s = Stale then (case from of None \<Rightarrow> Observed | Some f \<Rightarrow> f) else s)"

definition claim_projection :: "claim_status \<Rightarrow> claim_status option \<Rightarrow> nat \<Rightarrow> projection_kind \<times> claim_maturity" where
  "claim_projection s from n =
     (let e = effective_status s from in
      (if e = Hypothesis \<or> e = Rejected \<and> n = 0 then Proj_lead else Proj_finding,
       if e = Hypothesis then Mat_lead else if e = Observed then Mat_observed
       else if e = Reproduced then Mat_reproduced else if e = Rejected then Mat_refuted
       else Mat_verified))"

section \<open>Errors and text\<close>

datatype claim_label = L_evidence_summary | L_title | L_reason | L_parent | L_component | L_memory
  | L_surface | L_asset | L_policy | L_blocker | L_basis | L_actor | L_time | L_conditions
  | L_evidence_id | L_vector | L_assessor | L_kind | L_identifier | L_value | L_artifact | L_hash
  | L_binding | L_replay | L_identity

datatype claim_refusal =
    Not_found | Is_duplicate | Revision_conflict | Append_needs_evidence | Outside_workspace
  | Bad_kind | Bad_rating | Bad_confidence | Bad_classification | Review_must_address_content
  | Board_cannot_move | Already_there | Sql_conflict | Memory_not_found | Memory_outside | Packet_needs_reportable
  | Packet_invalid

datatype gate_refusal =
    Needs_direct_evidence | Needs_steps | Needs_reproduction | Needs_review | Needs_report
  | Needs_disclosure

datatype link_refusal =
    Already_duplicate | Self_duplicate | Parent_not_found | Other_workspace | Other_subject
  | Parent_is_duplicate | Owns_duplicates | Not_duplicate
  | Too_many_components | Components_need_chain | Chain_needs_component | Chain_self
  | Bad_component | Chain_cycle

datatype tracking_refusal =
    Not_an_object | Not_an_array | Bad_state | Reach_needs_evidence | Reach_unknown_evidence
  | Bad_cvss_version | Bad_cvss_vector | Bad_cvss_score | Bad_nomenclature | Bad_time | Bad_url
  | Bad_reference_kind | Bad_decision | Bad_packet | Tracking_not_security | Blocker_needs_open
  | Decision_needs_verified | Report_bound | Needs_policy

datatype claim_error = Refused claim_refusal | Gate gate_refusal | Link link_refusal
  | Tracking tracking_refusal | Required claim_label | Not_allowed claim_status claim_status

text \<open>\<open>normalizedText\<close> and \<open>nullableText\<close>: \<open>None\<close> is \<open>null\<close>,
  \<open>undefined\<close> and every value that is not a string.\<close>

definition norm_text :: "string option \<Rightarrow> string option" where
  "norm_text v = (case v of None \<Rightarrow> None | Some s \<Rightarrow> if js_trim s = [] then None else Some (js_trim s))"

definition required_text :: "string option \<Rightarrow> claim_label \<Rightarrow> (claim_error, string) res" where
  "required_text v l = need (norm_text v) (Required l)"

definition text_or_empty :: "string option \<Rightarrow> string" where
  "text_or_empty v = (case norm_text v of None \<Rightarrow> [] | Some s \<Rightarrow> s)"

text \<open>The truth value of \<open>string | null\<close>.\<close>

definition truthy :: "string option \<Rightarrow> bool" where
  "truthy v \<longleftrightarrow> v \<noteq> None \<and> v \<noteq> Some []"

text \<open>\<open>/^[a-z0-9]+(?:[._-][a-z0-9]+)*$/u\<close>; the flag says that a name character must follow.\<close>

definition ident_char :: "char \<Rightarrow> bool" where
  "ident_char c = (let n = (of_char c :: nat) in 97 \<le> n \<and> n \<le> 122 \<or> 48 \<le> n \<and> n \<le> 57)"

fun ident_from :: "bool \<Rightarrow> string \<Rightarrow> bool" where
  "ident_from p [] = (\<not> p)"
| "ident_from p (c # cs) =
     (if ident_char c then ident_from False cs
      else c \<in> {CHR ''.'', CHR ''_'', CHR ''-''} \<and> \<not> p \<and> ident_from True cs)"

definition stable_identifier :: "string \<Rightarrow> bool" where
  "stable_identifier s = ident_from True s"

definition claim_classification :: "string option \<Rightarrow> (claim_error, string) res" where
  "claim_classification v = rbind (need (norm_text v) (Refused Bad_classification)) (\<lambda>c.
     ensure (stable_identifier c) (Refused Bad_classification) (Inr c))"

definition chain_class :: string where
  "chain_class = ''security.chain''"

definition security_classification :: "string \<Rightarrow> bool" where
  "security_classification c \<longleftrightarrow> c = ''security'' \<or> starts_with c ''security.''"

text \<open>A number of a \<open>[0, 1]\<close> or \<open>[0, 10]\<close> interval: an integral double is a
  \<open>JInt\<close>, any other is given by its shortest decimal text, which has an exponent only when
  the number is smaller than \<open>1e-6\<close>.\<close>

definition leading_digits :: "string \<Rightarrow> string" where
  "leading_digits t = takeWhile (\<lambda>c. digit_val c \<noteq> None) t"

fun number_upto :: "nat \<Rightarrow> json \<Rightarrow> bool" where
  "number_upto m (JInt i) = (0 \<le> i \<and> i \<le> int m)"
| "number_upto m (JReal t) = (\<not> starts_with t ''-'' \<and> (CHR ''e'' \<in> set t
     \<or> (case digits_from 0 (leading_digits t) of None \<Rightarrow> False | Some n \<Rightarrow> n < m)))"
| "number_upto m _ = False"

definition claim_confidence :: "json \<Rightarrow> (claim_error, json) res" where
  "claim_confidence v = ensure (number_upto 1 v) (Refused Bad_confidence) (Inr v)"

lemma norm_text_idem [simp]: "norm_text (norm_text v) = norm_text v"
  by (auto simp: norm_text_def split: option.split)

lemma norm_text_Some_iff: "norm_text v = Some t \<longleftrightarrow> (\<exists>s. v = Some s \<and> js_trim s = t \<and> t \<noteq> [])"
  by (auto simp: norm_text_def split: option.splits if_splits)

lemma required_text_Inr [guard_simps]:
  "required_text v l = Inr t \<longleftrightarrow> (\<exists>s. v = Some s \<and> js_trim s = t \<and> t \<noteq> [])"
  by (simp add: required_text_def need_Inr_iff norm_text_Some_iff)

text \<open>Texts that a trimming reader returns unchanged.\<close>

definition trimmed :: "string \<Rightarrow> bool" where
  "trimmed s \<longleftrightarrow> js_trim s = s \<and> s \<noteq> []"

lemma trimmed_norm: "norm_text v = Some t \<Longrightarrow> trimmed t"
  by (auto simp: norm_text_Some_iff trimmed_def)

lemma trimmed_required: "required_text v l = Inr t \<Longrightarrow> trimmed t"
  by (auto simp: required_text_Inr trimmed_def)

lemma required_trimmed [simp]: "trimmed s \<Longrightarrow> required_text (Some s) l = Inr s"
  by (simp add: required_text_Inr trimmed_def)

lemma norm_trimmed [simp]: "trimmed s \<Longrightarrow> norm_text (Some s) = Some s"
  by (simp add: norm_text_Some_iff trimmed_def)

section \<open>Security tracking\<close>

datatype reach_state = Not_assessed | Unreachable | Conditional | Reachable

record reachability =
  ra_state :: reach_state
  ra_conditions :: string
  ra_evidence :: "string list"
  ra_assessor :: "string option"
  ra_assessedAt :: "string option"
  ra_source :: "string option"
  ra_environment :: "string option"

datatype cvss_version = Cvss40 | Cvss31

datatype nomenclature = Cvss_B | Cvss_BT | Cvss_BE | Cvss_BTE | Cvss_31

record cvss =
  cv_version :: cvss_version
  cv_vector :: string
  cv_score :: json
  cv_nomenclature :: nomenclature
  cv_assessor :: string
  cv_assessedAt :: string
  cv_environment :: "string option"

record external_ref =
  xr_kind :: string
  xr_identifier :: string
  xr_url :: "string option"

record blocker =
  bl_reason :: string
  bl_actor :: string
  bl_setAt :: string

datatype decision = Reportable | Not_reportable

record reportability =
  rp_decision :: decision
  rp_basis :: string
  rp_policies :: "string list"
  rp_actor :: string
  rp_assessedAt :: string

record triage_packet =
  tp_artifact :: string
  tp_hash :: string
  tp_size :: int
  tp_binding :: string
  tp_replay :: string
  tp_verifiedAt :: string

record tracking =
  st_reachability :: reachability
  st_cvss :: "cvss list"
  st_assets :: "string list"
  st_surfaces :: "string list"
  st_progressBlocker :: "blocker option"
  st_reportability :: "reportability option"
  st_triageBlocker :: "blocker option"
  st_packet :: "triage_packet option"
  st_references :: "external_ref list"

definition empty_reachability :: reachability where
  "empty_reachability = \<lparr>ra_state = Not_assessed, ra_conditions = [], ra_evidence = [], ra_assessor = None,
     ra_assessedAt = None, ra_source = None, ra_environment = None\<rparr>"

definition empty_tracking :: tracking where
  "empty_tracking = \<lparr>st_reachability = empty_reachability, st_cvss = [], st_assets = [], st_surfaces = [],
     st_progressBlocker = None, st_reportability = None, st_triageBlocker = None, st_packet = None,
     st_references = []\<rparr>"

section \<open>Rows\<close>

record claim =
  c_id :: string
  c_workspace :: string
  c_subject :: string
  c_memory :: "string option"
  c_session :: "string option"
  c_surface :: "string option"
  c_classification :: string
  c_title :: string
  c_summary :: string
  c_impact :: string
  c_steps :: string
  c_rating :: claim_rating
  c_status :: claim_status
  c_staleFrom :: "claim_status option"
  c_confidence :: json
  c_source :: "string option"
  c_environment :: "string option"
  c_runbook :: "string option"
  c_report :: "string option"
  c_disclosure :: "string option"
  c_staleReason :: "string option"
  c_tracking :: "tracking option"
  c_duplicateOf :: "string option"
  c_duplicateAt :: "string option"
  c_createdAt :: string
  c_updatedAt :: string
  c_revision :: nat

record evidence =
  e_id :: string
  e_claim :: string
  e_kind :: evidence_kind
  e_reference :: "string option"
  e_hash :: "string option"
  e_summary :: string
  e_session :: "string option"
  e_actor :: "string option"
  e_independent :: bool
  e_binding :: "string option"
  e_metadata :: "(string \<times> json) list"
  e_createdAt :: string

record transition_row =
  t_claim :: string
  t_revision :: nat
  t_from :: "claim_status option"
  t_to :: claim_status
  t_reason :: string
  t_session :: "string option"
  t_actor :: "string option"
  t_evidence :: "string list"
  t_createdAt :: string
  t_override :: bool

record component_row =
  k_claim :: string
  k_component :: string
  k_position :: nat

record author_row =
  a_claim :: string
  a_revision :: nat
  a_provider :: string
  a_model :: string

record runbook_row =
  b_id :: string
  b_workspace :: string
  b_duplicateOf :: "string option"
  b_contentRevision :: "int option"

record run_row =
  r_run :: string
  r_runbook :: string
  r_workspace :: string
  r_status :: string
  r_full :: bool
  r_contentRevision :: "int option"
  r_contentHash :: "string option"
  r_selected :: int
  r_completed :: int
  r_source :: "string option"
  r_environment :: "string option"
  r_required :: "string list"

record cell_row =
  x_run :: string
  x_cell :: string
  x_status :: "string option"
  x_exit :: "int option"

record claim_store =
  s_claims :: "claim list"
  s_evidence :: "evidence list"
  s_transitions :: "transition_row list"
  s_components :: "component_row list"
  s_authors :: "author_row list"
  s_runbooks :: "runbook_row list"
  s_runs :: "run_row list option"
  s_cells :: "cell_row list"
  s_reports :: "(string \<times> string) list option"

text \<open>
  What an operation takes from its host: the context of the memory graph, the clock, the
  identifiers it draws (\<open>randomUUID\<close>), SHA-256, \<open>localeCompare\<close> and
  \<open>Date.parse\<close>.
\<close>

record memory_node =
  m_id :: string
  m_type :: string
  m_summary :: string
  m_confidence :: json
  m_surface :: "string option"
  m_workspaces :: "string list"

record host =
  h_workspace :: string
  h_subject :: "string option"
  h_session :: "string option"
  h_memory :: "memory_node list"
  h_now :: string
  h_uuid :: "nat \<Rightarrow> string"
  h_sha :: "string \<Rightarrow> string"
  h_compare :: "string \<Rightarrow> string \<Rightarrow> int"
  h_date :: "string \<Rightarrow> bool"

end
