(* ===== verification/Claim_Tracking.thy ===== *)
theory Claim_Tracking
  imports Claim_Model
begin

text \<open>
  The security tracking of a claim (\<open>findingSecurityTracking\<close>,
  \<open>revisedFindingSecurityTracking\<close> and the readers they use in
  \<open>packages/research-agent/src/findings.ts\<close>): the object a store operation writes, the
  reader that validates it, and the update a revision makes.
\<close>

section \<open>Writing\<close>

definition opt_json :: "string option \<Rightarrow> json" where
  "opt_json v = (case v of None \<Rightarrow> JNull | Some s \<Rightarrow> JStr s)"

definition strs_json :: "string list \<Rightarrow> json" where
  "strs_json xs = JArr (map JStr xs)"

fun reach_name :: "reach_state \<Rightarrow> string" where
  "reach_name Not_assessed = ''not_assessed''"
| "reach_name Unreachable = ''unreachable''"
| "reach_name Conditional = ''conditional''"
| "reach_name Reachable = ''reachable''"

fun nomenclature_name :: "nomenclature \<Rightarrow> string" where
  "nomenclature_name Cvss_B = ''CVSS-B''"
| "nomenclature_name Cvss_BT = ''CVSS-BT''"
| "nomenclature_name Cvss_BE = ''CVSS-BE''"
| "nomenclature_name Cvss_BTE = ''CVSS-BTE''"
| "nomenclature_name Cvss_31 = ''CVSS:3.1''"

fun version_name :: "cvss_version \<Rightarrow> string" where
  "version_name Cvss40 = ''4.0''"
| "version_name Cvss31 = ''3.1''"

fun decision_name :: "decision \<Rightarrow> string" where
  "decision_name Reportable = ''reportable''"
| "decision_name Not_reportable = ''not_reportable''"

definition reach_json :: "reachability \<Rightarrow> json" where
  "reach_json r = JObj [(''state'', JStr (reach_name (ra_state r))), (''conditions'', JStr (ra_conditions r)),
     (''evidenceIds'', strs_json (ra_evidence r)), (''assessorId'', opt_json (ra_assessor r)),
     (''assessedAt'', opt_json (ra_assessedAt r)), (''sourceRevision'', opt_json (ra_source r)),
     (''environmentFingerprint'', opt_json (ra_environment r))]"

definition cvss_json :: "cvss \<Rightarrow> json" where
  "cvss_json v = JObj [(''version'', JStr (version_name (cv_version v))), (''vector'', JStr (cv_vector v)),
     (''score'', cv_score v), (''nomenclature'', JStr (nomenclature_name (cv_nomenclature v))),
     (''assessorId'', JStr (cv_assessor v)), (''assessedAt'', JStr (cv_assessedAt v)),
     (''environmentFingerprint'', opt_json (cv_environment v))]"

definition reference_json :: "external_ref \<Rightarrow> json" where
  "reference_json x = JObj [(''kind'', JStr (xr_kind x)), (''identifier'', JStr (xr_identifier x)),
     (''url'', opt_json (xr_url x))]"

definition blocker_json :: "blocker option \<Rightarrow> json" where
  "blocker_json b = (case b of None \<Rightarrow> JNull | Some b \<Rightarrow> JObj [(''reason'', JStr (bl_reason b)),
     (''actorId'', JStr (bl_actor b)), (''setAt'', JStr (bl_setAt b))])"

definition reportability_json :: "reportability option \<Rightarrow> json" where
  "reportability_json r = (case r of None \<Rightarrow> JNull | Some r \<Rightarrow>
     JObj [(''decision'', JStr (decision_name (rp_decision r))), (''basis'', JStr (rp_basis r)),
       (''policyRefs'', strs_json (rp_policies r)), (''actorId'', JStr (rp_actor r)),
       (''assessedAt'', JStr (rp_assessedAt r))])"

definition packet_json :: "triage_packet option \<Rightarrow> json" where
  "packet_json p = (case p of None \<Rightarrow> JNull | Some p \<Rightarrow>
     JObj [(''artifactId'', JStr (tp_artifact p)), (''contentHash'', JStr (tp_hash p)),
       (''sizeBytes'', JInt (tp_size p)), (''claimBindingHash'', JStr (tp_binding p)),
       (''replayRunId'', JStr (tp_replay p)), (''verifiedAt'', JStr (tp_verifiedAt p))])"

definition tracking_json :: "tracking option \<Rightarrow> json" where
  "tracking_json t = (case t of None \<Rightarrow> JNull | Some t \<Rightarrow>
     JObj [(''reachability'', reach_json (st_reachability t)),
       (''cvssAssessments'', JArr (map cvss_json (st_cvss t))),
       (''affectedAssetIds'', strs_json (st_assets t)), (''surfaceIds'', strs_json (st_surfaces t)),
       (''progressBlocker'', blocker_json (st_progressBlocker t)),
       (''reportability'', reportability_json (st_reportability t)),
       (''triage'', JObj [(''blocker'', blocker_json (st_triageBlocker t)),
          (''packet'', packet_json (st_packet t))]),
       (''externalReferences'', JArr (map reference_json (st_references t)))])"

section \<open>Reading\<close>

definition require_string :: "json option \<Rightarrow> claim_label \<Rightarrow> (claim_error, string) res" where
  "require_string v l = required_text (as_string v) l"

definition nullable_string :: "json option \<Rightarrow> string option" where
  "nullable_string v = norm_text (as_string v)"

definition iso_timestamp :: "(string \<Rightarrow> bool) \<Rightarrow> string option \<Rightarrow> claim_label \<Rightarrow> (claim_error, string) res" where
  "iso_timestamp d v l = rbind (required_text v l) (\<lambda>t. ensure (d t) (Tracking Bad_time) (Inr t))"

definition unique_strings :: "string list \<Rightarrow> claim_label \<Rightarrow> (claim_error, string list) res" where
  "unique_strings xs l = rbind (rmap (\<lambda>x. required_text (Some x) l) xs) (\<lambda>ys. Inr (js_dedup ys))"

fun stored_strings :: "json option \<Rightarrow> (claim_error, string list) res" where
  "stored_strings None = Inr []"
| "stored_strings (Some (JArr xs)) = rmap (\<lambda>x. require_string (Some x) L_value) xs"
| "stored_strings _ = Inl (Tracking Not_an_array)"

definition stored_unique :: "json option \<Rightarrow> claim_label \<Rightarrow> (claim_error, string list) res" where
  "stored_unique v l = rbind (stored_strings v) (\<lambda>xs. unique_strings xs l)"

text \<open>\<open>uniqueRecords\<close> compares canonical JSON texts, which is equality of the records.\<close>

fun stored_array :: "(json \<Rightarrow> (claim_error, 'a) res) \<Rightarrow> json option \<Rightarrow> (claim_error, 'a list) res" where
  "stored_array f None = Inr []"
| "stored_array f (Some (JArr xs)) = rbind (rmap f xs) (\<lambda>ys. Inr (js_dedup ys))"
| "stored_array f _ = Inl (Tracking Not_an_array)"

definition reach_of :: "string \<Rightarrow> reach_state option" where
  "reach_of s = map_of (map (\<lambda>r. (reach_name r, r)) [Not_assessed, Unreachable, Conditional, Reachable]) s"

definition finding_reachability_state :: "string option \<Rightarrow> (claim_error, reach_state) res" where
  "finding_reachability_state v = need (Option.bind v reach_of) (Tracking Bad_state)"

definition stored_reachability :: "(string \<Rightarrow> bool) \<Rightarrow> json \<Rightarrow> (claim_error, reachability) res" where
  "stored_reachability d j =
     ensure (is_record j) (Tracking Not_an_object) (
     rbind (finding_reachability_state (as_string (jget j ''state''))) (\<lambda>s.
     if s = Not_assessed then Inr empty_reachability else
     rbind (stored_unique (jget j ''evidenceIds'') L_evidence_id) (\<lambda>ids.
     ensure (ids \<noteq> []) (Tracking Reach_needs_evidence) (
     rbind (require_string (jget j ''conditions'') L_conditions) (\<lambda>c.
     rbind (require_string (jget j ''assessorId'') L_assessor) (\<lambda>a.
     rbind (iso_timestamp d (as_string (jget j ''assessedAt'')) L_time) (\<lambda>t.
       Inr \<lparr>ra_state = s, ra_conditions = c, ra_evidence = ids, ra_assessor = Some a, ra_assessedAt = Some t,
         ra_source = nullable_string (jget j ''sourceRevision''),
         ra_environment = nullable_string (jget j ''environmentFingerprint'')\<rparr>)))))))"

text \<open>\<open>s.split(c)\<close> for a separator of one character\<close>

fun js_split :: "char \<Rightarrow> string \<Rightarrow> string list" where
  "js_split c [] = [[]]"
| "js_split c (x # xs) = (if x = c then [] # js_split c xs
     else (case js_split c xs of [] \<Rightarrow> [[x]] | y # ys \<Rightarrow> (x # y) # ys))"

fun cvss_metrics :: "(string \<times> string) list \<Rightarrow> string list \<Rightarrow> (string \<times> string) list option" where
  "cvss_metrics m [] = Some m"
| "cvss_metrics m (seg # segs) = (case js_split (CHR '':'') seg of
     [k, v] \<Rightarrow> if k \<noteq> [] \<and> v \<noteq> [] \<and> map_of m k = None then cvss_metrics ((k, v) # m) segs else None
   | _ \<Rightarrow> None)"

text \<open>The metrics a vector must have; every value is one letter.\<close>

fun required_metrics :: "cvss_version \<Rightarrow> (string \<times> string) list" where
  "required_metrics Cvss40 = [(''AV'', ''NALP''), (''AC'', ''LH''), (''AT'', ''NP''), (''PR'', ''NLH''),
     (''UI'', ''NPA''), (''VC'', ''HLN''), (''VI'', ''HLN''), (''VA'', ''HLN''), (''SC'', ''HLN''),
     (''SI'', ''HLN''), (''SA'', ''HLN'')]"
| "required_metrics Cvss31 = [(''AV'', ''NALP''), (''AC'', ''LH''), (''PR'', ''NLH''), (''UI'', ''NR''),
     (''S'', ''UC''), (''C'', ''HLN''), (''I'', ''HLN''), (''A'', ''HLN'')]"

definition valid_cvss_vector :: "cvss_version \<Rightarrow> string \<Rightarrow> bool" where
  "valid_cvss_vector ver vector = (case cvss_metrics [] (drop 1 (js_split (CHR ''/'') vector)) of
     None \<Rightarrow> False
   | Some m \<Rightarrow> list_all (\<lambda>(k, allowed). case map_of m k of
        None \<Rightarrow> False | Some v \<Rightarrow> v \<in> set (map (\<lambda>c. [c]) allowed)) (required_metrics ver))"

definition version_of :: "string \<Rightarrow> cvss_version option" where
  "version_of s = map_of [(''4.0'', Cvss40), (''3.1'', Cvss31)] s"

definition nomenclature_of :: "string \<Rightarrow> nomenclature option" where
  "nomenclature_of s = map_of (map (\<lambda>n. (nomenclature_name n, n)) [Cvss_B, Cvss_BT, Cvss_BE, Cvss_BTE, Cvss_31]) s"

definition stored_cvss :: "(string \<Rightarrow> bool) \<Rightarrow> json \<Rightarrow> (claim_error, cvss) res" where
  "stored_cvss d j =
     ensure (is_record j) (Tracking Not_an_object) (
     rbind (need (Option.bind (as_string (jget j ''version'')) version_of) (Tracking Bad_cvss_version)) (\<lambda>ver.
     rbind (require_string (jget j ''vector'') L_vector) (\<lambda>vec.
     ensure (starts_with vec (''CVSS:'' @ version_name ver @ ''/'')) (Tracking Bad_cvss_vector) (
     ensure (valid_cvss_vector ver vec) (Tracking Bad_cvss_vector) (
     rbind (need (jget j ''score'') (Tracking Bad_cvss_score)) (\<lambda>score.
     ensure (number_upto 10 score) (Tracking Bad_cvss_score) (
     rbind (need (Option.bind (as_string (jget j ''nomenclature'')) nomenclature_of) (Tracking Bad_nomenclature)) (\<lambda>n.
     ensure (ver = Cvss31 \<longleftrightarrow> n = Cvss_31) (Tracking Bad_nomenclature) (
     rbind (require_string (jget j ''assessorId'') L_assessor) (\<lambda>a.
     rbind (iso_timestamp d (as_string (jget j ''assessedAt'')) L_time) (\<lambda>t.
       Inr \<lparr>cv_version = ver, cv_vector = vec, cv_score = score, cv_nomenclature = n, cv_assessor = a,
         cv_assessedAt = t, cv_environment = nullable_string (jget j ''environmentFingerprint'')\<rparr>)))))))))))"

definition http_url :: "string \<Rightarrow> bool" where
  "http_url s \<longleftrightarrow> starts_with s ''http://'' \<or> starts_with s ''https://''"

definition stored_reference :: "json \<Rightarrow> (claim_error, external_ref) res" where
  "stored_reference j =
     ensure (is_record j) (Tracking Not_an_object) (
     rbind (require_string (jget j ''kind'') L_kind) (\<lambda>k.
     ensure (stable_identifier k) (Tracking Bad_reference_kind) (
     let url = nullable_string (jget j ''url'') in
     ensure (url = None \<or> http_url (the url)) (Tracking Bad_url) (
     rbind (require_string (jget j ''identifier'') L_identifier) (\<lambda>i.
       Inr \<lparr>xr_kind = k, xr_identifier = i, xr_url = url\<rparr>)))))"

definition absent :: "json option \<Rightarrow> bool" where
  "absent v \<longleftrightarrow> v = None \<or> v = Some JNull"

definition stored_blocker :: "(string \<Rightarrow> bool) \<Rightarrow> json option \<Rightarrow> (claim_error, blocker option) res" where
  "stored_blocker d v = (if absent v then Inr None else
     (let j = the v in
      ensure (is_record j) (Tracking Not_an_object) (
      rbind (require_string (jget j ''reason'') L_blocker) (\<lambda>r.
      rbind (require_string (jget j ''actorId'') L_actor) (\<lambda>a.
      rbind (iso_timestamp d (as_string (jget j ''setAt'')) L_time) (\<lambda>t.
        Inr (Some \<lparr>bl_reason = r, bl_actor = a, bl_setAt = t\<rparr>)))))))"

definition decision_of :: "string \<Rightarrow> decision option" where
  "decision_of s = map_of [(''reportable'', Reportable), (''not_reportable'', Not_reportable)] s"

definition stored_reportability :: "json option \<Rightarrow> (claim_error, reportability option) res" where
  "stored_reportability v = (if absent v then Inr None else
     (let j = the v in
      rbind (need (Option.bind (as_string (jget j ''decision'')) decision_of) (Tracking Bad_decision)) (\<lambda>dec.
      rbind (require_string (jget j ''basis'') L_basis) (\<lambda>b.
      rbind (stored_unique (jget j ''policyRefs'') L_policy) (\<lambda>ps.
      rbind (require_string (jget j ''actorId'') L_actor) (\<lambda>a.
      rbind (require_string (jget j ''assessedAt'') L_time) (\<lambda>t.
        Inr (Some \<lparr>rp_decision = dec, rp_basis = b, rp_policies = ps, rp_actor = a, rp_assessedAt = t\<rparr>))))))))"

definition safe_int :: "json option \<Rightarrow> int option" where
  "safe_int v = (case v of Some (JInt i) \<Rightarrow> if \<bar>i\<bar> \<le> 9007199254740991 then Some i else None | _ \<Rightarrow> None)"

definition stored_packet :: "json option \<Rightarrow> (claim_error, triage_packet option) res" where
  "stored_packet v = (if absent v then Inr None else
     (let j = the v in
      ensure (is_record j) (Tracking Bad_packet) (
      rbind (need (safe_int (jget j ''sizeBytes'')) (Tracking Bad_packet)) (\<lambda>size.
      rbind (require_string (jget j ''artifactId'') L_artifact) (\<lambda>a.
      rbind (require_string (jget j ''contentHash'') L_hash) (\<lambda>h.
      rbind (require_string (jget j ''claimBindingHash'') L_binding) (\<lambda>b.
      rbind (require_string (jget j ''replayRunId'') L_replay) (\<lambda>r.
      rbind (require_string (jget j ''verifiedAt'') L_time) (\<lambda>t.
        Inr (Some \<lparr>tp_artifact = a, tp_hash = h, tp_size = size, tp_binding = b, tp_replay = r,
          tp_verifiedAt = t\<rparr>))))))))))"

definition stored_triage ::
  "(string \<Rightarrow> bool) \<Rightarrow> json option \<Rightarrow> (claim_error, blocker option \<times> triage_packet option) res" where
  "stored_triage d v = (if absent v then Inr (None, None) else
     (let j = the v in
      ensure (is_record j) (Tracking Not_an_object) (
      rbind (stored_packet (jget j ''packet'')) (\<lambda>p.
      rbind (stored_blocker d (jget j ''blocker'')) (\<lambda>b. Inr (b, p))))))"

definition reach_field :: "(string \<Rightarrow> bool) \<Rightarrow> json option \<Rightarrow> (claim_error, reachability) res" where
  "reach_field d v = (if absent v then Inr empty_reachability else stored_reachability d (the v))"

definition stored_tracking :: "(string \<Rightarrow> bool) \<Rightarrow> json \<Rightarrow> (claim_error, tracking) res" where
  "stored_tracking d j =
     ensure (is_record j) (Tracking Not_an_object) (
     rbind (reach_field d (jget j ''reachability'')) (\<lambda>r.
     rbind (stored_array (stored_cvss d) (jget j ''cvssAssessments'')) (\<lambda>cv.
     rbind (stored_unique (jget j ''affectedAssetIds'') L_asset) (\<lambda>as.
     rbind (stored_unique (jget j ''surfaceIds'') L_surface) (\<lambda>su.
     rbind (stored_blocker d (jget j ''progressBlocker'')) (\<lambda>pb.
     rbind (stored_reportability (jget j ''reportability'')) (\<lambda>rp.
     rbind (stored_triage d (jget j ''triage'')) (\<lambda>(tb, pk).
     rbind (stored_array stored_reference (jget j ''externalReferences'')) (\<lambda>xs.
       Inr \<lparr>st_reachability = r, st_cvss = cv, st_assets = as, st_surfaces = su, st_progressBlocker = pb,
         st_reportability = rp, st_triageBlocker = tb, st_packet = pk, st_references = xs\<rparr>)))))))))"

text \<open>\<open>findingSecurityTracking\<close> on the parsed column\<close>

definition finding_security_tracking ::
  "(string \<Rightarrow> bool) \<Rightarrow> json \<Rightarrow> string \<Rightarrow> (claim_error, tracking option) res" where
  "finding_security_tracking d j c =
     (if \<not> security_classification c then Inr None
      else if j = JNull then Inr (Some empty_tracking)
      else rbind (stored_tracking d j) (\<lambda>t. Inr (Some t)))"

section \<open>Well-formed tracking\<close>

definition opt_trimmed :: "string option \<Rightarrow> bool" where
  "opt_trimmed v \<longleftrightarrow> (case v of None \<Rightarrow> True | Some s \<Rightarrow> trimmed s)"

definition stamp :: "(string \<Rightarrow> bool) \<Rightarrow> string \<Rightarrow> bool" where
  "stamp d s \<longleftrightarrow> trimmed s \<and> d s"

definition names :: "string list \<Rightarrow> bool" where
  "names xs \<longleftrightarrow> distinct xs \<and> list_all trimmed xs"

definition reach_wf :: "(string \<Rightarrow> bool) \<Rightarrow> reachability \<Rightarrow> bool" where
  "reach_wf d r \<longleftrightarrow> (if ra_state r = Not_assessed then r = empty_reachability
     else ra_evidence r \<noteq> [] \<and> names (ra_evidence r) \<and> trimmed (ra_conditions r)
       \<and> ra_assessor r \<noteq> None \<and> opt_trimmed (ra_assessor r)
       \<and> ra_assessedAt r \<noteq> None \<and> stamp d (the (ra_assessedAt r))
       \<and> opt_trimmed (ra_source r) \<and> opt_trimmed (ra_environment r))"

definition cvss_wf :: "(string \<Rightarrow> bool) \<Rightarrow> cvss \<Rightarrow> bool" where
  "cvss_wf d v \<longleftrightarrow> trimmed (cv_vector v)
     \<and> starts_with (cv_vector v) (''CVSS:'' @ version_name (cv_version v) @ ''/'')
     \<and> valid_cvss_vector (cv_version v) (cv_vector v) \<and> number_upto 10 (cv_score v)
     \<and> (cv_version v = Cvss31 \<longleftrightarrow> cv_nomenclature v = Cvss_31) \<and> trimmed (cv_assessor v)
     \<and> stamp d (cv_assessedAt v) \<and> opt_trimmed (cv_environment v)"

definition reference_wf :: "external_ref \<Rightarrow> bool" where
  "reference_wf x \<longleftrightarrow> trimmed (xr_kind x) \<and> stable_identifier (xr_kind x) \<and> trimmed (xr_identifier x)
     \<and> opt_trimmed (xr_url x) \<and> (xr_url x = None \<or> http_url (the (xr_url x)))"

definition blocker_wf :: "(string \<Rightarrow> bool) \<Rightarrow> blocker option \<Rightarrow> bool" where
  "blocker_wf d b \<longleftrightarrow> (case b of None \<Rightarrow> True | Some b \<Rightarrow>
     trimmed (bl_reason b) \<and> trimmed (bl_actor b) \<and> stamp d (bl_setAt b))"

definition reportability_wf :: "reportability option \<Rightarrow> bool" where
  "reportability_wf r \<longleftrightarrow> (case r of None \<Rightarrow> True | Some r \<Rightarrow>
     trimmed (rp_basis r) \<and> names (rp_policies r) \<and> trimmed (rp_actor r) \<and> trimmed (rp_assessedAt r))"

definition packet_wf :: "triage_packet option \<Rightarrow> bool" where
  "packet_wf p \<longleftrightarrow> (case p of None \<Rightarrow> True | Some p \<Rightarrow>
     trimmed (tp_artifact p) \<and> trimmed (tp_hash p) \<and> \<bar>tp_size p\<bar> \<le> 9007199254740991
     \<and> trimmed (tp_binding p) \<and> trimmed (tp_replay p) \<and> trimmed (tp_verifiedAt p))"

definition tracking_wf :: "(string \<Rightarrow> bool) \<Rightarrow> tracking \<Rightarrow> bool" where
  "tracking_wf d t \<longleftrightarrow> reach_wf d (st_reachability t)
     \<and> distinct (st_cvss t) \<and> list_all (cvss_wf d) (st_cvss t)
     \<and> names (st_assets t) \<and> names (st_surfaces t) \<and> blocker_wf d (st_progressBlocker t)
     \<and> reportability_wf (st_reportability t) \<and> blocker_wf d (st_triageBlocker t)
     \<and> packet_wf (st_packet t)
     \<and> distinct (st_references t) \<and> list_all reference_wf (st_references t)"

lemma empty_tracking_wf: "tracking_wf d empty_tracking"
  by (simp add: tracking_wf_def empty_tracking_def reach_wf_def empty_reachability_def names_def
      blocker_wf_def reportability_wf_def packet_wf_def)

section \<open>What is written is read back\<close>

lemma require_string_str: "trimmed s \<Longrightarrow> require_string (Some (JStr s)) l = Inr s"
  by (simp add: require_string_def)

lemma nullable_opt_json: "opt_trimmed v \<Longrightarrow> nullable_string (Some (opt_json v)) = v"
  by (cases v) (auto simp: nullable_string_def opt_json_def opt_trimmed_def norm_text_def trimmed_def)

lemma iso_timestamp_stamp: "stamp d s \<Longrightarrow> iso_timestamp d (Some s) l = Inr s"
  by (simp add: iso_timestamp_def stamp_def)

lemma rmap_same: "(\<And>x. x \<in> set xs \<Longrightarrow> f x = Inr x) \<Longrightarrow> rmap f xs = Inr xs"
  using rmap_cong_id [of xs f "\<lambda>x. x"] by simp

lemma unique_strings_names: "names xs \<Longrightarrow> unique_strings xs l = Inr xs"
  by (auto simp: unique_strings_def names_def list_all_iff js_dedup_distinct rmap_same)

lemma stored_unique_names: "names xs \<Longrightarrow> stored_unique (Some (strs_json xs)) l = Inr xs"
  by (simp add: stored_unique_def strs_json_def unique_strings_names rmap_cong_id require_string_str
      names_def list_all_iff)

lemma stored_array_map:
  "(\<And>x. x \<in> set xs \<Longrightarrow> f (g x) = Inr x) \<Longrightarrow> distinct xs \<Longrightarrow>
   stored_array f (Some (JArr (map g xs))) = Inr xs"
  by (simp add: rmap_cong_id js_dedup_distinct)

lemma reach_of_name [simp]: "reach_of (reach_name r) = Some r"
  by (cases r) (simp_all add: reach_of_def)

lemma nomenclature_of_name [simp]: "nomenclature_of (nomenclature_name n) = Some n"
  by (cases n) (simp_all add: nomenclature_of_def)

lemma version_of_name [simp]: "version_of (version_name v) = Some v"
  by (cases v) (simp_all add: version_of_def)

lemma decision_of_name [simp]: "decision_of (decision_name v) = Some v"
  by (cases v) (simp_all add: decision_of_def)

lemmas read_back = require_string_str nullable_opt_json iso_timestamp_stamp stored_unique_names absent_def

lemma as_string_JStr: "as_string (Some (JStr s)) = Some s"
  by simp

lemma stored_reachability_json:
  assumes "reach_wf d r" shows "stored_reachability d (reach_json r) = Inr r"
proof (cases "ra_state r = Not_assessed")
  case True
  then show ?thesis
    using assms by (simp add: reach_wf_def stored_reachability_def reach_json_def
        finding_reachability_state_def as_string_JStr del: reach_name.simps)
next
  case False
  then obtain a t where "ra_assessor r = Some a" "ra_assessedAt r = Some t"
    using assms by (auto simp: reach_wf_def)
  with False assms show ?thesis
    by (simp add: reach_wf_def stored_reachability_def reach_json_def finding_reachability_state_def
        read_back as_string_JStr opt_trimmed_def [of "Some a"] opt_json_def [of "Some a"] opt_json_def [of "Some t"]
        del: reach_name.simps as_string_iff)
qed

lemma stored_cvss_json: "cvss_wf d v \<Longrightarrow> stored_cvss d (cvss_json v) = Inr v"
  unfolding cvss_wf_def stored_cvss_def cvss_json_def
  by (simp add: read_back as_string_JStr del: version_name.simps nomenclature_name.simps as_string_iff)

lemma stored_reference_json: "reference_wf x \<Longrightarrow> stored_reference (reference_json x) = Inr x"
  unfolding reference_wf_def stored_reference_def reference_json_def
  by (simp add: read_back Let_def)

lemma stored_blocker_json: "blocker_wf d b \<Longrightarrow> stored_blocker d (Some (blocker_json b)) = Inr b"
  by (cases b) (simp_all add: blocker_wf_def stored_blocker_def blocker_json_def read_back as_string_JStr
      del: as_string_iff)

lemma stored_reportability_json:
  "reportability_wf r \<Longrightarrow> stored_reportability (Some (reportability_json r)) = Inr r"
  by (cases r) (simp_all add: reportability_wf_def stored_reportability_def reportability_json_def
      read_back as_string_JStr del: as_string_iff decision_name.simps)

lemma stored_packet_json: "packet_wf p \<Longrightarrow> stored_packet (Some (packet_json p)) = Inr p"
  by (cases p) (simp_all add: packet_wf_def stored_packet_def packet_json_def read_back safe_int_def)

lemma stored_triage_json:
  "blocker_wf d b \<Longrightarrow> packet_wf p \<Longrightarrow>
   stored_triage d (Some (JObj [(''blocker'', blocker_json b), (''packet'', packet_json p)])) = Inr (b, p)"
  by (simp add: stored_triage_def absent_def stored_packet_json stored_blocker_json)

lemma reach_field_json: "reach_wf d r \<Longrightarrow> reach_field d (Some (reach_json r)) = Inr r"
  by (simp add: reach_field_def absent_def stored_reachability_json) (simp add: reach_json_def)

lemma stored_tracking_json:
  assumes "tracking_wf d t" shows "stored_tracking d (tracking_json (Some t)) = Inr t"
proof -
  have "stored_array (stored_cvss d) (Some (JArr (map cvss_json (st_cvss t)))) = Inr (st_cvss t)"
    using assms by (intro stored_array_map stored_cvss_json) (auto simp: tracking_wf_def list_all_iff)
  moreover have "stored_array stored_reference (Some (JArr (map reference_json (st_references t))))
      = Inr (st_references t)"
    using assms by (intro stored_array_map stored_reference_json) (auto simp: tracking_wf_def list_all_iff)
  ultimately show ?thesis
    using assms
    by (simp add: tracking_wf_def stored_tracking_def tracking_json_def reach_field_json
        stored_blocker_json stored_reportability_json stored_unique_names stored_triage_json
        del: stored_array.simps)
qed

text \<open>The reader on what the store wrote for a claim of this classification.\<close>

definition visible_tracking :: "string \<Rightarrow> tracking option \<Rightarrow> tracking option" where
  "visible_tracking c t = (if security_classification c
     then Some (case t of None \<Rightarrow> empty_tracking | Some x \<Rightarrow> x) else None)"

end
