(* ===== verification/Claim_Reader.thy ===== *)
theory Claim_Reader
  imports Claim_Tracking
begin

text \<open>
  Reading a claim (\<open>readFindings\<close>, \<open>get\<close>) and judging its evidence
  (\<open>validReproductionEvidence\<close>, \<open>validIndependentEvidence\<close>,
  \<open>claimVerificationHash\<close>, \<open>successfulRunbookExecutionExists\<close> of
  \<open>packages/research-agent/src/findings.ts\<close>).
\<close>

section \<open>The content a review is bound to\<close>

text \<open>\<open>stableJson\<close>: the keys of an object sorted by \<open>localeCompare\<close>.\<close>

fun stable_json :: "(string \<Rightarrow> string \<Rightarrow> int) \<Rightarrow> json \<Rightarrow> string" where
  "stable_json lc (JArr xs) = ''['' @ js_join '','' (map (stable_json lc) xs) @ '']''"
| "stable_json lc (JObj kvs) = ''{'' @ js_join '','' (map (\<lambda>(k, t). quote k @ '':'' @ t)
     (js_sort (cmp_on fst lc) (map (\<lambda>(k, v). (k, stable_json lc v)) kvs))) @ ''}''"
| "stable_json lc j = stringify j"

definition verified_content :: "('a claim_scheme) \<Rightarrow> string \<Rightarrow> string list option \<Rightarrow> json" where
  "verified_content c cls comps = JObj (
     [(''id'', JStr (c_id c)), (''title'', JStr (c_title c)), (''summary'', JStr (c_summary c)),
      (''impact'', JStr (c_impact c))]
     @ (if c_steps c = [] then [] else [(''stepsToReproduce'', JStr (c_steps c))])
     @ [(''classification'', JStr cls)]
     @ (case comps of None \<Rightarrow> [] | Some ks \<Rightarrow> [(''componentClaimIds'', strs_json ks)])
     @ [(''sourceRevision'', opt_json (c_source c)), (''environmentFingerprint'', opt_json (c_environment c)),
        (''reproductionRunbookId'', opt_json (c_runbook c))])"

definition content_hash :: "host \<Rightarrow> json \<Rightarrow> string" where
  "content_hash h j = ''sha256:'' @ h_sha h (stable_json (h_compare h) j)"

definition claim_verification_hash :: "host \<Rightarrow> ('a claim_scheme) \<Rightarrow> string list \<Rightarrow> string" where
  "claim_verification_hash h c comps = content_hash h (verified_content c (c_classification c)
     (if c_classification c = chain_class then Some comps else None))"

section \<open>Queries\<close>

definition by_revision :: "transition_row \<Rightarrow> transition_row \<Rightarrow> int" where
  "by_revision = cmp_on (\<lambda>t. int (t_revision t)) cmp_int"

definition transitions_of :: "claim_store \<Rightarrow> string \<Rightarrow> transition_row list" where
  "transitions_of st k = js_sort by_revision (filter (\<lambda>t. t_claim t = k) (s_transitions st))"

definition evidence_of :: "claim_store \<Rightarrow> string \<Rightarrow> evidence list" where
  "evidence_of st k = js_sort (cmp_then (cmp_on e_createdAt cmp_units) (cmp_on e_id cmp_units))
     (filter (\<lambda>e. e_claim e = k) (s_evidence st))"

definition components_of :: "claim_store \<Rightarrow> string \<Rightarrow> string list" where
  "components_of st k = map k_component (js_sort (cmp_on (\<lambda>r. int (k_position r)) cmp_int)
     (filter (\<lambda>r. k_claim r = k) (s_components st)))"

definition stored_row :: "claim_store \<Rightarrow> string \<Rightarrow> claim option" where
  "stored_row st k = find (\<lambda>c. c_id c = k) (s_claims st)"

definition legacy_verification_hash :: "host \<Rightarrow> claim_store \<Rightarrow> ('a claim_scheme) \<Rightarrow> string option" where
  "legacy_verification_hash h st c = map_option (\<lambda>r. content_hash h
     (verified_content c (c_classification r) (Some (components_of st (c_id c))))) (stored_row st (c_id c))"

text \<open>Every cell the run had to execute has a row, and every row of it succeeded with exit code 0.\<close>

definition succeeded :: string where
  "succeeded = ''succeeded''"

definition cell_passed :: "claim_store \<Rightarrow> string \<Rightarrow> string \<Rightarrow> bool" where
  "cell_passed st run cell \<longleftrightarrow>
     (let xs = filter (\<lambda>x. x_run x = run \<and> x_cell x = cell) (s_cells st)
      in xs \<noteq> [] \<and> list_all (\<lambda>x. x_status x = Some succeeded \<and> x_exit x = Some 0) xs)"

definition run_qualifies :: "claim_store \<Rightarrow> ('a claim_scheme) \<Rightarrow> run_row \<Rightarrow> bool" where
  "run_qualifies st c r \<longleftrightarrow> r_workspace r = c_workspace c \<and> c_runbook c = Some (r_runbook r)
     \<and> r_status r = succeeded \<and> r_full r \<and> r_contentHash r \<noteq> None
     \<and> list_ex (\<lambda>b. b_id b = r_runbook r \<and> b_workspace b = r_workspace r \<and> b_duplicateOf b = None
          \<and> b_contentRevision b \<noteq> None \<and> r_contentRevision r = b_contentRevision b) (s_runbooks st)
     \<and> r_selected r > 0 \<and> r_selected r = r_completed r
     \<and> r_source r = c_source c \<and> r_environment r = c_environment c
     \<and> list_all (cell_passed st (r_run r)) (r_required r)"

definition successful_run :: "claim_store \<Rightarrow> ('a claim_scheme) \<Rightarrow> string \<Rightarrow> bool" where
  "successful_run st c run \<longleftrightarrow> truthy (c_runbook c) \<and> truthy (c_source c) \<and> truthy (c_environment c)
     \<and> (case s_runs st of None \<Rightarrow> False | Some rs \<Rightarrow> list_ex (\<lambda>r. r_run r = run \<and> run_qualifies st c r) rs)"

definition valid_reproduction :: "claim_store \<Rightarrow> ('a claim_scheme) \<Rightarrow> ('b evidence_scheme) \<Rightarrow> bool" where
  "valid_reproduction st c e \<longleftrightarrow> e_kind e = Ev_runbook_execution \<and> truthy (e_reference e)
     \<and> successful_run st c (the (e_reference e))"

text \<open>The revision at which a review was recorded; a review not yet recorded comes next.\<close>

definition review_revision :: "claim_store \<Rightarrow> ('a claim_scheme) \<Rightarrow> string \<Rightarrow> nat" where
  "review_revision st c eid = (case filter (\<lambda>t. eid \<in> set (t_evidence t)) (transitions_of st (c_id c)) of
     [] \<Rightarrow> c_revision c + 1 | t # _ \<Rightarrow> t_revision t)"

text \<open>The transitions whose actors wrote the claim: its creation, the moves to observed and
  reproduced, and the changes that record no evidence.\<close>

definition authoring :: "transition_row \<Rightarrow> bool" where
  "authoring t \<longleftrightarrow> t_revision t = 1
     \<or> t_from t \<noteq> Some (t_to t) \<and> (t_to t = Observed \<or> t_to t = Reproduced)
     \<or> t_from t = Some (t_to t) \<and> t_evidence t = []"

definition authors_before :: "claim_store \<Rightarrow> string \<Rightarrow> nat \<Rightarrow> transition_row list" where
  "authors_before st k n = filter (\<lambda>t. authoring t \<and> t_revision t < n) (transitions_of st k)"

definition unqualified :: string where
  "unqualified = ''unqualified''"

definition verification_context :: "('b evidence_scheme) \<Rightarrow> json option" where
  "verification_context e = map_of (e_metadata e) ''verificationContext''"

definition valid_independent ::
  "host \<Rightarrow> claim_store \<Rightarrow> ('a claim_scheme) \<Rightarrow> string list \<Rightarrow> ('b evidence_scheme) \<Rightarrow> bool" where
  "valid_independent h st c comps e \<longleftrightarrow>
     e_independent e \<and> e_kind e \<in> set review_kinds
     \<and> truthy (e_actor e) \<and> truthy (e_session e) \<and> truthy (e_reference e)
     \<and> verification_context e \<noteq> Some (JStr unqualified)
     \<and> (e_binding e = Some (claim_verification_hash h c comps)
        \<or> e_binding e \<noteq> None \<and> e_binding e = legacy_verification_hash h st c)
     \<and> successful_run st c (the (e_reference e))
     \<and> authors_before st (c_id c) (review_revision st c (e_id e)) \<noteq> []
     \<and> list_all (\<lambda>t. t_actor t \<noteq> None \<and> t_actor t \<noteq> e_actor e)
         (authors_before st (c_id c) (review_revision st c (e_id e)))"

section \<open>The claim an operation sees\<close>

record evidence_view = evidence +
  e_validated :: "bool option"

record duplicate_summary =
  d_id :: string
  d_projection :: projection_kind
  d_maturity :: claim_maturity
  d_rating :: claim_rating
  d_classification :: string
  d_title :: string
  d_status :: claim_status
  d_revision :: nat
  d_markedAt :: "string option"

record claim_view = claim +
  v_projection :: projection_kind
  v_maturity :: claim_maturity
  v_components :: "string list"
  v_duplicates :: "duplicate_summary list"
  v_override :: bool
  v_evidence :: "evidence_view list"
  v_transitions :: "transition_row list"
  v_authors :: "(string \<times> string) list"

definition evidence_count :: "claim_store \<Rightarrow> string \<Rightarrow> nat" where
  "evidence_count st k = length (filter (\<lambda>e. e_claim e = k) (s_evidence st))"

definition projection_of :: "claim_store \<Rightarrow> ('a claim_scheme) \<Rightarrow> projection_kind \<times> claim_maturity" where
  "projection_of st c = claim_projection (c_status c) (c_staleFrom c) (evidence_count st (c_id c))"

definition duplicates_of :: "claim_store \<Rightarrow> string \<Rightarrow> string \<Rightarrow> duplicate_summary list" where
  "duplicates_of st ws k =
     map (\<lambda>c. \<lparr>d_id = c_id c, d_projection = fst (projection_of st c), d_maturity = snd (projection_of st c),
         d_rating = c_rating c, d_classification = c_classification c, d_title = c_title c,
         d_status = c_status c, d_revision = c_revision c, d_markedAt = c_duplicateAt c\<rparr>)
       (js_sort (cmp_then (cmp_on (\<lambda>c. text_or_empty (c_duplicateAt c)) (\<lambda>x y. cmp_units y x)) (cmp_on c_id cmp_units))
         (filter (\<lambda>c. c_workspace c = ws \<and> c_duplicateOf c = Some k) (s_claims st)))"

text \<open>The flag of the last transition that changed the status.\<close>

definition status_override :: "claim_store \<Rightarrow> string \<Rightarrow> bool" where
  "status_override st k = (case filter (\<lambda>t. t_from t \<noteq> Some (t_to t)) (rev (transitions_of st k)) of
     [] \<Rightarrow> False | t # _ \<Rightarrow> t_override t)"

definition authors_of :: "claim_store \<Rightarrow> string \<Rightarrow> (string \<times> string) list" where
  "authors_of st k = js_dedup (map (\<lambda>a. (a_provider a, a_model a))
     (js_sort (cmp_then (cmp_on (\<lambda>a. int (a_revision a)) cmp_int)
        (cmp_then (cmp_on a_provider cmp_units) (cmp_on a_model cmp_units)))
       (filter (\<lambda>a. a_claim a = k) (s_authors st))))"

definition view_evidence ::
  "host \<Rightarrow> claim_store \<Rightarrow> ('a claim_scheme) \<Rightarrow> string list \<Rightarrow> evidence \<Rightarrow> evidence_view" where
  "view_evidence h st c comps e = evidence.extend e (evidence_view.fields
     (if e_kind e = Ev_runbook_execution then Some (valid_reproduction st c e)
      else if e_independent e \<and> e_kind e \<in> set review_kinds then Some (valid_independent h st c comps e)
      else None))"

definition shown :: "claim \<Rightarrow> claim" where
  "shown r = r\<lparr>c_tracking := visible_tracking (c_classification r) (c_tracking r)\<rparr>"

definition view_of :: "host \<Rightarrow> claim_store \<Rightarrow> claim \<Rightarrow> claim_view" where
  "view_of h st r = (let c = shown r; ks = components_of st (c_id r); p = projection_of st r in
     claim.extend c (claim_view.fields (fst p) (snd p) ks (duplicates_of st (c_workspace r) (c_id r))
       (status_override st (c_id r)) (map (view_evidence h st c ks) (evidence_of st (c_id r)))
       (transitions_of st (c_id r)) (authors_of st (c_id r))))"

definition find_row :: "host \<Rightarrow> claim_store \<Rightarrow> string \<Rightarrow> claim option" where
  "find_row h st k = find (\<lambda>c. c_id c = k \<and> c_workspace c = h_workspace h) (s_claims st)"

definition claim_get :: "host \<Rightarrow> claim_store \<Rightarrow> string \<Rightarrow> claim_view option" where
  "claim_get h st k = map_option (view_of h st) (find_row h st k)"

definition claim_list :: "host \<Rightarrow> claim_store \<Rightarrow> claim_view list" where
  "claim_list h st = map (view_of h st)
     (filter (\<lambda>c. c_duplicateOf c = None)
       (js_sort (cmp_then (cmp_on c_updatedAt (\<lambda>x y. cmp_units y x)) (cmp_on c_id cmp_units))
         (filter (\<lambda>c. c_workspace c = h_workspace h) (s_claims st))))"

lemma view_of_simps [simp]:
  "c_id (view_of h st r) = c_id r" "c_workspace (view_of h st r) = c_workspace r"
  "c_subject (view_of h st r) = c_subject r" "c_memory (view_of h st r) = c_memory r"
  "c_session (view_of h st r) = c_session r" "c_surface (view_of h st r) = c_surface r"
  "c_classification (view_of h st r) = c_classification r" "c_title (view_of h st r) = c_title r"
  "c_summary (view_of h st r) = c_summary r" "c_impact (view_of h st r) = c_impact r"
  "c_steps (view_of h st r) = c_steps r" "c_rating (view_of h st r) = c_rating r"
  "c_status (view_of h st r) = c_status r" "c_staleFrom (view_of h st r) = c_staleFrom r"
  "c_confidence (view_of h st r) = c_confidence r" "c_source (view_of h st r) = c_source r"
  "c_environment (view_of h st r) = c_environment r" "c_runbook (view_of h st r) = c_runbook r"
  "c_report (view_of h st r) = c_report r" "c_disclosure (view_of h st r) = c_disclosure r"
  "c_staleReason (view_of h st r) = c_staleReason r"
  "c_tracking (view_of h st r) = visible_tracking (c_classification r) (c_tracking r)"
  "c_duplicateOf (view_of h st r) = c_duplicateOf r" "c_duplicateAt (view_of h st r) = c_duplicateAt r"
  "c_createdAt (view_of h st r) = c_createdAt r" "c_updatedAt (view_of h st r) = c_updatedAt r"
  "c_revision (view_of h st r) = c_revision r"
  "v_components (view_of h st r) = components_of st (c_id r)"
  "v_duplicates (view_of h st r) = duplicates_of st (c_workspace r) (c_id r)"
  "v_evidence (view_of h st r) = map (view_evidence h st (shown r) (components_of st (c_id r))) (evidence_of st (c_id r))"
  "v_transitions (view_of h st r) = transitions_of st (c_id r)"
  by (simp_all add: view_of_def shown_def claim.defs claim_view.defs Let_def)

lemma find_row_Some: "find_row h st k = Some r \<Longrightarrow> r \<in> set (s_claims st) \<and> c_id r = k \<and> c_workspace r = h_workspace h"
  by (auto simp: find_row_def find_Some_iff)

lemma set_transitions_of [simp]: "set (transitions_of st k) = {t \<in> set (s_transitions st). t_claim t = k}"
  by (auto simp: transitions_of_def)

lemma set_evidence_of [simp]: "set (evidence_of st k) = {e \<in> set (s_evidence st). e_claim e = k}"
  by (auto simp: evidence_of_def)

lemma set_components_of [simp]:
  "set (components_of st k) = {k_component r |r. r \<in> set (s_components st) \<and> k_claim r = k}"
  by (auto simp: components_of_def)

lemma duplicates_of_Nil [simp]:
  "duplicates_of st ws k = [] \<longleftrightarrow> (\<forall>c\<in>set (s_claims st). c_workspace c = ws \<longrightarrow> c_duplicateOf c \<noteq> Some k)"
  by (auto simp: duplicates_of_def filter_empty_conv)

end
