(* ===== verification/Claim_Store.thy ===== *)
theory Claim_Store
  imports Claim_Reader
begin

text \<open>
  The operations of the claim ledger that change a claim's status
  (\<open>createWithStatus\<close>, \<open>transition\<close>, \<open>transitionByHuman\<close> of
  \<open>packages/research-agent/src/findings.ts\<close>), the gate that a transition has to pass
  (\<open>validateTransitionEvidence\<close>), and the writes every operation shares.

  An operation returns the store after its transaction; an error leaves the store as it was (the
  transaction is rolled back).  The claim it returns in the code is \<open>claim_get\<close> on the new
  store.
\<close>

section \<open>Inputs\<close>

text \<open>An option of an option: \<open>None\<close> is \<open>undefined\<close>, \<open>Some None\<close> is
  \<open>null\<close>.\<close>

record evidence_input =
  i_kind :: string
  i_reference :: "string option"
  i_hash :: "string option"
  i_summary :: string
  i_session :: "string option option"
  i_actor :: "string option option"
  i_independent :: bool
  i_metadata :: "(string \<times> json) list option"

record create_input =
  ni_surface :: "string option"
  ni_memory :: "string option"
  ni_classification :: "string option"
  ni_components :: "string list"
  ni_title :: string
  ni_summary :: "string option"
  ni_impact :: "string option"
  ni_steps :: "string option"
  ni_rating :: "string option"
  ni_confidence :: "json option"
  ni_source :: "string option"
  ni_environment :: "string option"
  ni_evidence :: "evidence_input list"
  ni_reason :: "string option"

record transition_input =
  ti_expected :: nat
  ti_to :: claim_status
  ti_reason :: string
  ti_evidence :: "evidence_input list"
  ti_source :: "string option option"
  ti_environment :: "string option option"
  ti_runbook :: "string option option"
  ti_steps :: "string option"
  ti_report :: "string option option"
  ti_disclosure :: "string option option"
  ti_classification :: "string option"
  ti_surface :: "string option"

text \<open>The model that acts, its actor id, and whether it reviews in a fresh context.\<close>

record caller =
  ca_author :: "(string \<times> string) option"
  ca_actor :: "string option"
  ca_fresh :: bool

section \<open>Evidence\<close>

definition review_context :: "caller \<Rightarrow> evidence_input \<Rightarrow> string" where
  "review_context ca i = (if i_kind i = ''human_review'' \<and> ca_author ca = None then ''human_operator''
     else if ca_fresh ca then ''fresh_subagent'' else unqualified)"

definition pending_id :: "nat \<Rightarrow> string" where
  "pending_id n = ''pending_'' @ nat_str n"

definition draft_evidence ::
  "host \<Rightarrow> caller \<Rightarrow> string \<Rightarrow> nat \<Rightarrow> evidence_input \<Rightarrow> evidence_kind \<Rightarrow> string \<Rightarrow> evidence" where
  "draft_evidence h ca k n i kind s =
     \<lparr>e_id = pending_id n, e_claim = k, e_kind = kind, e_reference = norm_text (i_reference i),
       e_hash = norm_text (i_hash i), e_summary = s,
       e_session = (case i_session i of Some v \<Rightarrow> if i_independent i then h_session h else norm_text v
          | None \<Rightarrow> h_session h),
       e_actor = (case i_actor i of Some v \<Rightarrow> if i_independent i then ca_actor ca else norm_text v
          | None \<Rightarrow> ca_actor ca),
       e_independent = i_independent i, e_binding = None,
       e_metadata = (let md = (case i_metadata i of None \<Rightarrow> [] | Some m \<Rightarrow> m) in
          if i_independent i then AList.update ''verificationContext'' (JStr (review_context ca i)) md
          else md),
       e_createdAt = h_now h\<rparr>"

definition normalize_evidence_item ::
  "host \<Rightarrow> caller \<Rightarrow> string \<Rightarrow> nat \<times> evidence_input \<Rightarrow> (claim_error, evidence) res" where
  "normalize_evidence_item h ca k x =
     rbind (need (finding_evidence_kind (i_kind (snd x))) (Refused Bad_kind)) (\<lambda>kind.
     rbind (required_text (Some (i_summary (snd x))) L_evidence_summary) (\<lambda>s.
       Inr (draft_evidence h ca k (fst x) (snd x) kind s)))"

definition normalize_evidence ::
  "host \<Rightarrow> caller \<Rightarrow> string \<Rightarrow> evidence_input list \<Rightarrow> (claim_error, evidence list) res" where
  "normalize_evidence h ca k is = rmap (normalize_evidence_item h ca k) (enumerate 0 is)"

definition direct_observation :: "('a evidence_scheme) \<Rightarrow> bool" where
  "direct_observation e \<longleftrightarrow> e_kind e \<in> set direct_observation_kinds \<and> (truthy (e_reference e) \<or> truthy (e_hash e))"

section \<open>Shared writes\<close>

text \<open>\<open>UPDATE ... WHERE id = ? AND revision = ?\<close>, and the check that it changed a row.\<close>

definition commit_row ::
  "claim_store \<Rightarrow> string \<Rightarrow> nat \<Rightarrow> (claim \<Rightarrow> claim) \<Rightarrow> (claim_error, claim_store) res" where
  "commit_row st k n f =
     ensure (list_ex (\<lambda>c. c_id c = k \<and> c_revision c = n) (s_claims st)) (Refused Revision_conflict)
       (Inr (st\<lparr>s_claims := map (\<lambda>c. if c_id c = k \<and> c_revision c = n then f c else c) (s_claims st)\<rparr>))"

definition evidence_prefix :: string where
  "evidence_prefix = ''claim_evidence_''"

definition evidence_uuid :: "host \<Rightarrow> nat \<Rightarrow> string" where
  "evidence_uuid h n = evidence_prefix @ h_uuid h n"

definition with_ids :: "host \<Rightarrow> evidence list \<Rightarrow> evidence list" where
  "with_ids h es = map (\<lambda>(n, e). e\<lparr>e_id := evidence_uuid h (Suc n)\<rparr>) (enumerate 0 es)"

definition insert_evidence :: "host \<Rightarrow> evidence list \<Rightarrow> claim_store \<Rightarrow> claim_store" where
  "insert_evidence h es st = st\<lparr>s_evidence := s_evidence st @ with_ids h es\<rparr>"

definition insert_transition :: "transition_row \<Rightarrow> claim_store \<Rightarrow> claim_store" where
  "insert_transition t st = st\<lparr>s_transitions := s_transitions st @ [t]\<rparr>"

text \<open>\<open>INSERT OR IGNORE\<close> on the primary key of the four columns.\<close>

definition insert_author :: "caller \<Rightarrow> string \<Rightarrow> nat \<Rightarrow> claim_store \<Rightarrow> claim_store" where
  "insert_author ca k n st = (case ca_author ca of
     None \<Rightarrow> st
   | Some (p, m) \<Rightarrow>
       if js_trim p = [] \<or> js_trim m = [] then st
       else (let a = \<lparr>a_claim = k, a_revision = n, a_provider = js_trim p, a_model = js_trim m\<rparr> in
         if a \<in> set (s_authors st) then st else st\<lparr>s_authors := s_authors st @ [a]\<rparr>))"

definition log_row ::
  "host \<Rightarrow> string \<Rightarrow> nat \<Rightarrow> claim_status option \<Rightarrow> claim_status \<Rightarrow> string \<Rightarrow> string option \<Rightarrow> string list \<Rightarrow> bool
   \<Rightarrow> transition_row" where
  "log_row h k n from to reason actor eids over =
     \<lparr>t_claim = k, t_revision = n, t_from = from, t_to = to, t_reason = reason, t_session = h_session h,
      t_actor = actor, t_evidence = eids, t_createdAt = h_now h, t_override = over\<rparr>"

text \<open>A change that keeps the status: the reason is required inside the transaction.\<close>

definition commit_change ::
  "host \<Rightarrow> caller \<Rightarrow> claim_store \<Rightarrow> ('a claim_scheme) \<Rightarrow> string \<Rightarrow> (claim \<Rightarrow> claim)
   \<Rightarrow> (claim_store \<Rightarrow> claim_store) \<Rightarrow> (claim_error, claim_store) res" where
  "commit_change h ca st cur reason f g =
     rbind (commit_row st (c_id cur) (c_revision cur)
       (\<lambda>r. (f r)\<lparr>c_updatedAt := h_now h, c_revision := c_revision cur + 1\<rparr>)) (\<lambda>st'.
     rbind (required_text (Some reason) L_reason) (\<lambda>why.
       Inr (insert_author ca (c_id cur) (c_revision cur + 1)
         (insert_transition (log_row h (c_id cur) (c_revision cur + 1) (Some (c_status cur)) (c_status cur)
            why (ca_actor ca) [] False) (g st')))))"

section \<open>The gate of a transition\<close>

definition reproduced_or_later :: "claim_status list" where
  "reproduced_or_later = [Reproduced, Verified, Report_ready, Disclosed]"

definition verified_or_later :: "claim_status list" where
  "verified_or_later = [Verified, Report_ready, Disclosed]"

definition given_or :: "string option option \<Rightarrow> string option \<Rightarrow> string option" where
  "given_or v d = (case Option.bind v norm_text of
     Some s \<Rightarrow> Some s | None \<Rightarrow> d)"

definition report_exists :: "claim_store \<Rightarrow> string \<Rightarrow> string \<Rightarrow> bool" where
  "report_exists st k ws = (case s_reports st of None \<Rightarrow> False | Some rs \<Rightarrow> (k, ws) \<in> set rs)"

definition named_evidence :: "evidence_kind \<Rightarrow> string option \<Rightarrow> evidence list \<Rightarrow> bool" where
  "named_evidence kind k es \<longleftrightarrow> truthy k \<and> list_ex (\<lambda>e. e_kind e = kind \<and> e_reference e = k) es"

definition validate_transition_evidence ::
  "host \<Rightarrow> claim_store \<Rightarrow> ('a claim_scheme) \<Rightarrow> string list \<Rightarrow> transition_input \<Rightarrow> evidence list
   \<Rightarrow> (claim_error, unit) res" where
  "validate_transition_evidence h st c comps i es =
     ensure (ti_to i = Observed \<longrightarrow> list_ex direct_observation es) (Gate Needs_direct_evidence) (
     ensure (ti_to i \<in> set reproduced_or_later \<longrightarrow> js_trim (c_steps c) \<noteq> []) (Gate Needs_steps) (
     ensure (ti_to i \<in> set reproduced_or_later \<longrightarrow>
         truthy (given_or (ti_runbook i) (c_runbook c)) \<and> list_ex (valid_reproduction st c) es)
       (Gate Needs_reproduction) (
     ensure (ti_to i \<in> set verified_or_later \<longrightarrow> list_ex (valid_independent h st c comps) es)
       (Gate Needs_review) (
     ensure (ti_to i = Report_ready \<longrightarrow>
         (let k = given_or (ti_report i) (c_report c) in
          truthy k \<and> report_exists st (the k) (c_workspace c) \<and> named_evidence Ev_report k es))
       (Gate Needs_report) (
     ensure (ti_to i = Disclosed \<longrightarrow>
         named_evidence Ev_disclosure (given_or (ti_disclosure i) (c_disclosure c)) es)
       (Gate Needs_disclosure) (Inr ()))))))"

section \<open>Transitions\<close>

definition require_canonical :: "('a claim_scheme) \<Rightarrow> (claim_error, 'b) res \<Rightarrow> (claim_error, 'b) res" where
  "require_canonical c k = ensure (\<not> truthy (c_duplicateOf c)) (Refused Is_duplicate) k"

definition keep_or :: "string option option \<Rightarrow> string option \<Rightarrow> string option" where
  "keep_or v d = (case v of None \<Rightarrow> d | Some x \<Rightarrow> norm_text x)"

text \<open>The content under review: what the claim will say after the transition.\<close>

definition reviewed_content :: "claim_view \<Rightarrow> transition_input \<Rightarrow> string \<Rightarrow> claim_view" where
  "reviewed_content cur i cls = cur\<lparr>
     c_source := (if ti_to i = Stale then c_source cur else keep_or (ti_source i) (c_source cur)),
     c_environment := (if ti_to i = Stale then c_environment cur else keep_or (ti_environment i) (c_environment cur)),
     c_runbook := keep_or (ti_runbook i) (c_runbook cur),
     c_steps := (case ti_steps i of None \<Rightarrow> c_steps cur | Some s \<Rightarrow> text_or_empty (Some s)),
     c_classification := cls\<rparr>"

definition base_tracking :: "('a claim_scheme) \<Rightarrow> tracking" where
  "base_tracking c = (case c_tracking c of None \<Rightarrow> empty_tracking | Some t \<Rightarrow> t)"

definition transition_tracking ::
  "('a claim_scheme) \<Rightarrow> transition_input \<Rightarrow> string \<Rightarrow> (claim_error, tracking option) res" where
  "transition_tracking cur i cls = (if \<not> security_classification cls then Inr None else
     rbind (if ti_to i = Observed \<and> truthy (ti_surface i)
            then unique_strings (st_surfaces (base_tracking cur) @ [the (ti_surface i)]) L_surface
            else Inr (st_surfaces (base_tracking cur))) (\<lambda>su.
       Inr (Some ((base_tracking cur)\<lparr>st_surfaces := su,
         st_progressBlocker := (if ti_to i = Observed \<or> ti_to i = Reproduced
            then st_progressBlocker (base_tracking cur) else None)\<rparr>))))"

definition bind_review :: "string \<Rightarrow> evidence \<Rightarrow> evidence" where
  "bind_review hash e = (if e_independent e then e\<lparr>e_binding := Some hash\<rparr> else e)"

definition transition_row_update ::
  "host \<Rightarrow> claim_view \<Rightarrow> transition_input \<Rightarrow> string \<Rightarrow> tracking option \<Rightarrow> string option \<Rightarrow> claim \<Rightarrow> claim" where
  "transition_row_update h cur i cls tr why r = r\<lparr>
     c_status := ti_to i,
     c_staleFrom := (if ti_to i = Stale then (if c_status cur = Stale then c_staleFrom cur else Some (c_status cur))
        else None),
     c_classification := (if ti_classification i = None then c_classification r else cls),
     c_source := c_source (reviewed_content cur i cls),
     c_environment := c_environment (reviewed_content cur i cls),
     c_runbook := c_runbook (reviewed_content cur i cls),
     c_steps := c_steps (reviewed_content cur i cls),
     c_report := keep_or (ti_report i) (c_report cur),
     c_disclosure := keep_or (ti_disclosure i) (c_disclosure cur),
     c_staleReason := why, c_tracking := tr,
     c_surface := (case c_surface r of None \<Rightarrow> ti_surface i | Some s \<Rightarrow> Some s),
     c_updatedAt := h_now h, c_revision := c_revision cur + 1\<rparr>"

definition commit_transition ::
  "host \<Rightarrow> caller \<Rightarrow> claim_store \<Rightarrow> claim_view \<Rightarrow> transition_input \<Rightarrow> string \<Rightarrow> tracking option \<Rightarrow> evidence list
   \<Rightarrow> (claim_error, claim_store) res" where
  "commit_transition h ca st cur i cls tr new =
     rbind (if ti_to i = Stale then rbind (required_text (Some (ti_reason i)) L_reason) (\<lambda>w. Inr (Some w))
            else Inr None) (\<lambda>why.
     rbind (commit_row st (c_id cur) (c_revision cur) (transition_row_update h cur i cls tr why)) (\<lambda>st'.
     rbind (required_text (Some (ti_reason i)) L_reason) (\<lambda>reason.
       Inr (insert_author ca (c_id cur) (c_revision cur + 1)
         (insert_transition (log_row h (c_id cur) (c_revision cur + 1) (Some (c_status cur)) (ti_to i) reason
            (ca_actor ca) (map e_id (with_ids h new)) False)
           (insert_evidence h new st'))))))"

text \<open>The claim was read as \<open>cur\<close>; the store may have changed since.\<close>

definition transition_from ::
  "host \<Rightarrow> caller \<Rightarrow> claim_store \<Rightarrow> claim_view \<Rightarrow> transition_input \<Rightarrow> (claim_error, claim_store) res" where
  "transition_from h ca st cur i =
     require_canonical cur (
     ensure (c_revision cur = ti_expected i) (Refused Revision_conflict) (
     ensure (c_status cur = ti_to i \<or> ti_to i \<in> set (allowed_transitions (c_status cur)))
       (Not_allowed (c_status cur) (ti_to i)) (
     ensure (c_status cur = ti_to i \<longrightarrow> ti_evidence i \<noteq> []) (Refused Append_needs_evidence) (
     ensure (c_workspace cur = h_workspace h) (Refused Outside_workspace) (
     rbind (normalize_evidence h ca (c_id cur) (ti_evidence i)) (\<lambda>new0.
     rbind (claim_classification (Some (case ti_classification i of None \<Rightarrow> c_classification cur | Some c \<Rightarrow> c))) (\<lambda>cls.
     rbind (transition_tracking cur i cls) (\<lambda>tr.
     let reviewed = reviewed_content cur i cls;
         hash = claim_verification_hash h reviewed (v_components cur);
         new = map (bind_review hash) new0 in
     ensure (list_ex e_independent new \<longrightarrow> hash = claim_verification_hash h cur (v_components cur))
       (Refused Review_must_address_content) (
     rbind (validate_transition_evidence h st reviewed (v_components cur) i
         (map evidence.truncate (v_evidence cur) @ new)) (\<lambda>_.
       commit_transition h ca st cur i cls tr new))))))))))"

definition transition ::
  "host \<Rightarrow> caller \<Rightarrow> claim_store \<Rightarrow> string \<Rightarrow> transition_input \<Rightarrow> (claim_error, claim_store) res" where
  "transition h ca st k i = rbind (need (claim_get h st k) (Refused Not_found)) (\<lambda>cur. transition_from h ca st cur i)"

section \<open>The Findings board\<close>

definition board_statuses :: "claim_status list" where
  "board_statuses = [Hypothesis, Observed, Reproduced, Verified, Rejected]"

fun status_name :: "claim_status \<Rightarrow> string" where
  "status_name Hypothesis = ''hypothesis''"
| "status_name Observed = ''observed''"
| "status_name Reproduced = ''reproduced''"
| "status_name Verified = ''verified''"
| "status_name Report_ready = ''report_ready''"
| "status_name Disclosed = ''disclosed''"
| "status_name Stale = ''stale''"
| "status_name Rejected = ''rejected''"

definition board_reason :: "claim_status \<Rightarrow> string" where
  "board_reason s = ''Human operator moved this finding to '' @ status_name s @ '' on the Findings board. ''
     @ ''Normal agent transition prerequisites were not required; inspect evidence before relying on this status.''"

definition human_operator :: string where
  "human_operator = ''human-operator''"

definition transition_by_human ::
  "host \<Rightarrow> claim_store \<Rightarrow> string \<Rightarrow> nat \<Rightarrow> claim_status \<Rightarrow> (claim_error, claim_store) res" where
  "transition_by_human h st k expected to =
     ensure (to \<in> set board_statuses) (Refused Board_cannot_move) (
     rbind (need (claim_get h st k) (Refused Not_found)) (\<lambda>cur.
     require_canonical cur (
     ensure (c_revision cur = expected) (Refused Revision_conflict) (
     ensure (c_status cur \<noteq> to \<or> c_status cur = Stale) (Refused Already_there) (
     ensure (c_workspace cur = h_workspace h) (Refused Outside_workspace) (
     ensure (to \<in> {Reproduced, Verified} \<longrightarrow> js_trim (c_steps cur) \<noteq> []) (Gate Needs_steps) (
     rbind (commit_row st k (c_revision cur) (\<lambda>r. r\<lparr>c_status := to, c_staleFrom := None,
         c_staleReason := None, c_updatedAt := h_now h, c_revision := c_revision cur + 1\<rparr>)) (\<lambda>st'.
       Inr (insert_transition (log_row h k (c_revision cur + 1) (Some (c_status cur)) to (board_reason to)
         (Some human_operator) [] True) st')))))))))"

end
