(* ===== verification/Claim_Links.thy ===== *)
theory Claim_Links
  imports Claim_Store
begin

text \<open>
  The operations of the claim ledger that keep the status (\<open>createWithStatus\<close>,
  \<open>markDuplicate\<close>, \<open>undoDuplicate\<close>, \<open>revise\<close>,
  \<open>recordTriagePacket\<close> of \<open>packages/research-agent/src/findings.ts\<close>): the
  composition of chains, duplicate links, revisions of the content and of the security tracking.
\<close>

section \<open>Dependencies of a chain\<close>

type_synonym edges = "(string \<times> string) list"

definition component_edges :: "claim_store \<Rightarrow> edges" where
  "component_edges st = map (\<lambda>r. (k_claim r, k_component r)) (s_components st)"

definition targets :: "edges \<Rightarrow> string \<Rightarrow> string list" where
  "targets es k = map snd (filter (\<lambda>e. fst e = k) es)"

text \<open>The recursive query: rows already in the result are not expanded again.\<close>

function closure :: "edges \<Rightarrow> string list \<Rightarrow> string list \<Rightarrow> string list" where
  "closure es seen [] = seen"
| "closure es seen (k # ks) = (if k \<in> set seen then closure es seen ks
     else closure es (k # seen) (targets es k @ ks))"
  by pat_completeness auto

definition open_edges :: "edges \<Rightarrow> string list \<Rightarrow> nat" where
  "open_edges es seen = length (filter (\<lambda>e. fst e \<notin> set seen) es)"

lemma open_edges_le: "open_edges es (k # seen) \<le> open_edges es seen"
  unfolding open_edges_def by (induction es) auto

lemma open_edges_less:
  assumes "targets es k \<noteq> []" "k \<notin> set seen" shows "open_edges es (k # seen) < open_edges es seen"
  using assms
proof (induction es)
  case (Cons e es)
  have "length (filter (\<lambda>e. fst e \<notin> set (k # seen)) es) \<le> length (filter (\<lambda>e. fst e \<notin> set seen) es)"
    using open_edges_le [of es k seen] by (simp add: open_edges_def)
  with Cons show ?case by (cases "fst e = k") (auto simp: open_edges_def targets_def)
qed (simp add: targets_def)

termination closure
proof (relation "measures [\<lambda>(es, seen, ks). open_edges es seen, \<lambda>(es, seen, ks). length ks]")
  fix es :: edges and seen ks :: "string list" and k :: string
  assume "k \<notin> set seen"
  then show "((es, k # seen, targets es k @ ks), es, seen, k # ks)
      \<in> measures [\<lambda>(es, seen, ks). open_edges es seen, \<lambda>(es, seen, ks). length ks]"
    using open_edges_less [of es k seen] open_edges_le [of es k seen] by (cases "targets es k") auto
qed auto

definition dependencies :: "edges \<Rightarrow> string \<Rightarrow> string list" where
  "dependencies es k = closure es [] (targets es k)"

lemma set_targets [simp]: "set (targets es k) = {y. (k, y) \<in> set es}"
  by (force simp: targets_def)

lemma closure_invariant:
  assumes "\<And>x y. x \<in> set seen \<Longrightarrow> (x, y) \<in> set es \<Longrightarrow> y \<in> set seen \<or> y \<in> set ks"
  shows "set (closure es seen ks) = set seen \<union> {y. \<exists>x\<in>set ks. (x, y) \<in> (set es)\<^sup>*}"
  using assms
proof (induction es seen ks rule: closure.induct)
  case (1 es seen)
  then show ?case by simp
next
  case (2 es seen k ks)
  show ?case
  proof (cases "k \<in> set seen")
    case True
    have closed: "\<And>x y. x \<in> set seen \<Longrightarrow> (x, y) \<in> set es \<Longrightarrow> y \<in> set seen \<or> y \<in> set ks"
      using "2.prems" True by fastforce
    have reach: "y \<in> set seen \<or> (\<exists>x\<in>set ks. (x, y) \<in> (set es)\<^sup>*)" if "(x, y) \<in> (set es)\<^sup>*" "x \<in> set seen" for x y
      using that
    proof (induction rule: converse_rtrancl_induct)
      case (step a b)
      then show ?case using closed [of a b] by (meson)
    qed auto
    have "set (closure es seen ks) = set seen \<union> {y. \<exists>x\<in>set ks. (x, y) \<in> (set es)\<^sup>*}"
      using "2.IH"(1) [OF True] closed by blast
    then show ?thesis
      using True reach [of k] by auto
  next
    case False
    have "set (closure es (k # seen) (targets es k @ ks)) =
        set (k # seen) \<union> {y. \<exists>x\<in>set (targets es k @ ks). (x, y) \<in> (set es)\<^sup>*}"
      using "2.prems" False by (intro "2.IH") auto
    moreover have "{y. (k, y) \<in> (set es)\<^sup>*} = insert k {y. \<exists>x. (k, x) \<in> set es \<and> (x, y) \<in> (set es)\<^sup>*}"
      by (auto intro: converse_rtrancl_into_rtrancl elim: converse_rtranclE)
    ultimately show ?thesis using False by auto
  qed
qed

lemma dependencies_trancl: "y \<in> set (dependencies es k) \<longleftrightarrow> (k, y) \<in> (set es)\<^sup>+"
  unfolding dependencies_def by (subst closure_invariant) (auto simp: trancl_unfold_left)

section \<open>Components\<close>

definition good_component :: "host \<Rightarrow> claim_store \<Rightarrow> string \<Rightarrow> bool" where
  "good_component h st k = (case claim_get h st k of
     None \<Rightarrow> False
   | Some v \<Rightarrow> \<not> truthy (c_duplicateOf v) \<and> v_projection v = Proj_finding \<and> c_status v \<noteq> Rejected
       \<and> security_classification (c_classification v))"

fun check_components ::
  "host \<Rightarrow> claim_store \<Rightarrow> string option \<Rightarrow> string list \<Rightarrow> (claim_error, unit) res" where
  "check_components h st self [] = Inr ()"
| "check_components h st self (k # ks) =
     ensure (self \<noteq> Some k) (Link Chain_self) (
     ensure (good_component h st k) (Link Bad_component) (
     ensure (\<forall>s \<in> set_option self. truthy self \<longrightarrow> s \<notin> set (dependencies (component_edges st) k)) (Link Chain_cycle)
       (check_components h st self ks)))"

definition validated_components ::
  "host \<Rightarrow> claim_store \<Rightarrow> string \<Rightarrow> string list \<Rightarrow> string option \<Rightarrow> (claim_error, string list) res" where
  "validated_components h st cls ks self =
     ensure (length ks \<le> 8) (Link Too_many_components) (
     rbind (unique_strings ks L_component) (\<lambda>us.
     if cls \<noteq> chain_class then ensure (us = []) (Link Components_need_chain) (Inr [])
     else ensure (us \<noteq> []) (Link Chain_needs_component) (
       rbind (check_components h st self us) (\<lambda>_. Inr us))))"

definition write_components :: "string \<Rightarrow> string list \<Rightarrow> claim_store \<Rightarrow> claim_store" where
  "write_components k ks st = st\<lparr>s_components := filter (\<lambda>r. k_claim r \<noteq> k) (s_components st)
     @ map (\<lambda>(n, x). \<lparr>k_claim = k, k_component = x, k_position = n\<rparr>) (enumerate 0 ks)\<rparr>"

section \<open>Creation\<close>

definition require_memory :: "host \<Rightarrow> string option \<Rightarrow> (claim_error, memory_node option) res" where
  "require_memory h v = (if \<not> truthy v then Inr None else
     rbind (required_text v L_memory) (\<lambda>k.
     rbind (need (find (\<lambda>m. m_id m = k) (h_memory h)) (Refused Memory_not_found)) (\<lambda>m.
     ensure (h_workspace h \<in> set (m_workspaces m)) (Refused Memory_outside) (Inr (Some m)))))"

definition stable_finding_id :: "host \<Rightarrow> string \<Rightarrow> string" where
  "stable_finding_id h m = ''finding_'' @ take 20 (h_sha h (h_workspace h @ [CHR 0x00] @ m))"

definition legacy_classification :: "string option \<Rightarrow> string" where
  "legacy_classification v = (case v of None \<Rightarrow> ''general.result'' | Some t \<Rightarrow>
     if t \<in> {''hypothesis'', ''primitive'', ''chain''} then ''security.vulnerability''
     else if t = ''conjecture'' then ''mathematics.conjecture''
     else if t = ''theorem'' then ''mathematics.theorem''
     else if t = ''counterexample'' then ''mathematics.counterexample'' else ''general.result'')"

definition creation_reason :: "claim_status \<Rightarrow> string" where
  "creation_reason s = (if s = Observed then ''Observed finding created.'' else ''Research lead created.'')"

definition default_subject :: "host \<Rightarrow> string" where
  "default_subject h = (case h_subject h of Some s \<Rightarrow> s | None \<Rightarrow> ''subject_workspace:'' @ h_workspace h)"

definition first_given :: "'a option list \<Rightarrow> 'a option" where
  "first_given vs = (case filter (\<lambda>v. v \<noteq> None) vs of [] \<Rightarrow> None | v # _ \<Rightarrow> v)"

definition parse_rating :: "string option \<Rightarrow> (claim_error, claim_rating) res" where
  "parse_rating v = (case v of None \<Rightarrow> Inr Rating_informational
     | Some s \<Rightarrow> need (research_claim_rating s) (Refused Bad_rating))"

definition half :: json where
  "half = JReal ''0.5''"

text \<open>The claim's row, as the insert statement builds it.\<close>

definition new_row ::
  "host \<Rightarrow> create_input \<Rightarrow> claim_status \<Rightarrow> memory_node option \<Rightarrow> string \<Rightarrow> string \<Rightarrow> string option
   \<Rightarrow> (claim_error, claim) res" where
  "new_row h i status m k cls surface =
     rbind (required_text (Some (ni_title i)) L_title) (\<lambda>title.
     rbind (parse_rating (ni_rating i)) (\<lambda>rating.
     rbind (claim_confidence (case ni_confidence i of Some v \<Rightarrow> v | None \<Rightarrow>
        (case m of None \<Rightarrow> half | Some n \<Rightarrow> m_confidence n))) (\<lambda>conf.
       Inr \<lparr>c_id = k, c_workspace = h_workspace h, c_subject = default_subject h,
         c_memory = map_option m_id m, c_session = h_session h, c_surface = surface,
         c_classification = cls, c_title = title,
         c_summary = (case norm_text (ni_summary i) of Some s \<Rightarrow> s | None \<Rightarrow>
            (case m of None \<Rightarrow> [] | Some n \<Rightarrow> m_summary n)),
         c_impact = text_or_empty (ni_impact i), c_steps = text_or_empty (ni_steps i), c_rating = rating,
         c_status = status, c_staleFrom = None, c_confidence = conf, c_source = norm_text (ni_source i),
         c_environment = norm_text (ni_environment i), c_runbook = None, c_report = None,
         c_disclosure = None, c_staleReason = None,
         c_tracking = (if security_classification cls then Some (empty_tracking\<lparr>st_surfaces :=
            (if truthy surface then [the surface] else [])\<rparr>) else None),
         c_duplicateOf = None, c_duplicateAt = None, c_createdAt = h_now h, c_updatedAt = h_now h,
         c_revision = 1\<rparr>)))"

definition insert_claim ::
  "host \<Rightarrow> caller \<Rightarrow> create_input \<Rightarrow> claim \<Rightarrow> string list \<Rightarrow> evidence list \<Rightarrow> claim_store
   \<Rightarrow> (claim_error, claim_store) res" where
  "insert_claim h ca i row comps es st =
     ensure (c_id row \<notin> c_id ` set (s_claims st)) (Refused Sql_conflict) (
       Inr (insert_author ca (c_id row) 1
         (insert_transition (log_row h (c_id row) 1 None (c_status row)
             (case norm_text (ni_reason i) of Some r \<Rightarrow> r | None \<Rightarrow> creation_reason (c_status row))
             (ca_actor ca) (map e_id (with_ids h es)) False)
           (insert_evidence h es (write_components (c_id row) comps
             (st\<lparr>s_claims := s_claims st @ [row]\<rparr>))))))"

definition create_id :: "host \<Rightarrow> memory_node option \<Rightarrow> string" where
  "create_id h m = (case m of Some n \<Rightarrow> stable_finding_id h (m_id n) | None \<Rightarrow> ''claim_'' @ h_uuid h 0)"

definition creation_surface :: "host \<Rightarrow> create_input \<Rightarrow> string option \<Rightarrow> memory_node option \<Rightarrow> string option" where
  "creation_surface h i surface m = first_given [ni_surface i, surface, Option.bind m m_surface]"

text \<open>The evidence of a creation is normalised without a reviewer context.\<close>

definition create_new ::
  "host \<Rightarrow> caller \<Rightarrow> claim_store \<Rightarrow> create_input \<Rightarrow> claim_status \<Rightarrow> string option \<Rightarrow> memory_node option
   \<Rightarrow> (claim_error, claim_store) res" where
  "create_new h ca st i status surface m =
     rbind (normalize_evidence h (ca\<lparr>ca_fresh := False, ca_author := None\<rparr>) (create_id h m) (ni_evidence i)) (\<lambda>es.
     ensure (status = Observed \<longrightarrow> list_ex direct_observation es) (Gate Needs_direct_evidence) (
     rbind (claim_classification (Some (case ni_classification i of Some c \<Rightarrow> c
        | None \<Rightarrow> legacy_classification (map_option m_type m)))) (\<lambda>cls.
     rbind (validated_components h st cls (ni_components i) None) (\<lambda>comps.
     rbind (new_row h i status m (create_id h m) cls (creation_surface h i surface m)) (\<lambda>row.
       insert_claim h ca i row comps es st)))))"

text \<open>The result names the claim, which exists already when the memory record was migrated.\<close>

definition existing_claim :: "host \<Rightarrow> claim_store \<Rightarrow> memory_node option \<Rightarrow> claim option" where
  "existing_claim h st m = Option.bind m (\<lambda>n.
     find (\<lambda>c. c_workspace c = h_workspace h \<and> c_memory c = Some (m_id n)) (s_claims st))"

definition create_with_status ::
  "host \<Rightarrow> caller \<Rightarrow> claim_store \<Rightarrow> create_input \<Rightarrow> claim_status \<Rightarrow> string option
   \<Rightarrow> (claim_error, claim_store \<times> string) res" where
  "create_with_status h ca st i status surface =
     rbind (require_memory h (ni_memory i)) (\<lambda>m.
     case existing_claim h st m of
       Some c \<Rightarrow> Inr (st, c_id c)
     | None \<Rightarrow> rbind (create_new h ca st i status surface m) (\<lambda>st'. Inr (st', create_id h m)))"

definition create_lead where
  "create_lead h ca st i surface = create_with_status h ca st i Hypothesis surface"

definition create_observed where
  "create_observed h ca st i surface = create_with_status h ca st i Observed surface"

section \<open>Duplicates\<close>

definition mark_duplicate ::
  "host \<Rightarrow> caller \<Rightarrow> claim_store \<Rightarrow> string \<Rightarrow> nat \<Rightarrow> string \<Rightarrow> string \<Rightarrow> (claim_error, claim_store) res" where
  "mark_duplicate h ca st k expected parent reason =
     rbind (need (claim_get h st k) (Refused Not_found)) (\<lambda>cur.
     ensure (c_revision cur = expected) (Refused Revision_conflict) (
     ensure (\<not> truthy (c_duplicateOf cur)) (Link Already_duplicate) (
     rbind (required_text (Some parent) L_parent) (\<lambda>p.
     ensure (p \<noteq> k) (Link Self_duplicate) (
     rbind (need (claim_get h st p) (Link Parent_not_found)) (\<lambda>par.
     ensure (c_workspace par = c_workspace cur) (Link Other_workspace) (
     ensure (c_subject par = c_subject cur) (Link Other_subject) (
     ensure (\<not> truthy (c_duplicateOf par)) (Link Parent_is_duplicate) (
     ensure (v_duplicates cur = []) (Link Owns_duplicates) (
     rbind (required_text (Some reason) L_reason) (\<lambda>_.
       commit_change h ca st cur reason (\<lambda>r. r\<lparr>c_duplicateOf := Some p, c_duplicateAt := Some (h_now h)\<rparr>) id)))))))))))"

definition undo_duplicate ::
  "host \<Rightarrow> caller \<Rightarrow> claim_store \<Rightarrow> string \<Rightarrow> nat \<Rightarrow> string \<Rightarrow> (claim_error, claim_store) res" where
  "undo_duplicate h ca st k expected reason =
     rbind (need (claim_get h st k) (Refused Not_found)) (\<lambda>cur.
     ensure (c_revision cur = expected) (Refused Revision_conflict) (
     ensure (truthy (c_duplicateOf cur)) (Link Not_duplicate) (
     rbind (required_text (Some reason) L_reason) (\<lambda>_.
       commit_change h ca st cur reason (\<lambda>r. r\<lparr>c_duplicateOf := None, c_duplicateAt := None\<rparr>) id))))"

end
