(* ===== verification/Claim_Revise.thy ===== *)
theory Claim_Revise
  imports Claim_Links
begin

text \<open>
  Revisions of a claim's content and of its security tracking (\<open>revise\<close>,
  \<open>revisedFindingSecurityTracking\<close>, \<open>recordTriagePacket\<close> of
  \<open>packages/research-agent/src/findings.ts\<close>).
\<close>

section \<open>Updates of the security tracking\<close>

record reach_update =
  ru_state :: string
  ru_conditions :: "string option"
  ru_evidence :: "string list"
  ru_assessedAt :: "string option"
  ru_source :: "string option option"
  ru_environment :: "string option option"

record report_update =
  pu_decision :: string
  pu_basis :: string
  pu_policies :: "string list"

record tracking_update =
  tu_reachability :: "reach_update option"
  tu_cvss :: "(string \<times> json) list option"
  tu_assets :: "string list option"
  tu_surfaces :: "string list option"
  tu_progressBlocker :: "string option option"
  tu_reportability :: "report_update option option"
  tu_triageBlocker :: "string option option"
  tu_references :: "json list option"

definition resolved_actor :: "caller \<Rightarrow> string" where
  "resolved_actor ca = (case norm_text (ca_actor ca) of Some a \<Rightarrow> a
     | None \<Rightarrow> (case ca_author ca of Some (p, m) \<Rightarrow> ''model:'' @ p @ '':'' @ m | None \<Rightarrow> ''host''))"

definition revised_reachability ::
  "host \<Rightarrow> claim_view \<Rightarrow> reach_update \<Rightarrow> string \<Rightarrow> (claim_error, reachability) res" where
  "revised_reachability h cur u actor =
     rbind (finding_reachability_state (Some (ru_state u))) (\<lambda>s.
     if s = Not_assessed then Inr empty_reachability else
     rbind (unique_strings (ru_evidence u) L_evidence_id) (\<lambda>ids.
     ensure (ids \<noteq> []) (Tracking Reach_needs_evidence) (
     ensure (list_all (\<lambda>k. k \<in> set (map e_id (v_evidence cur))) ids) (Tracking Reach_unknown_evidence) (
     rbind (required_text (ru_conditions u) L_conditions) (\<lambda>c.
     rbind (iso_timestamp (h_date h) (Some (case ru_assessedAt u of Some t \<Rightarrow> t | None \<Rightarrow> h_now h)) L_time) (\<lambda>t.
       Inr \<lparr>ra_state = s, ra_conditions = c, ra_evidence = ids, ra_assessor = Some actor,
         ra_assessedAt = Some t, ra_source = keep_or (ru_source u) (c_source cur),
         ra_environment = keep_or (ru_environment u) (c_environment cur)\<rparr>))))))"

text \<open>\<open>{...input, assessorId, assessedAt: input.assessedAt ?? now}\<close>\<close>

definition revised_cvss ::
  "host \<Rightarrow> (string \<times> json) list \<Rightarrow> string \<Rightarrow> (claim_error, cvss) res" where
  "revised_cvss h kvs actor = stored_cvss (h_date h) (JObj (AList.update ''assessedAt''
     (if absent (map_of kvs ''assessedAt'') then JStr (h_now h) else the (map_of kvs ''assessedAt''))
     (AList.update ''assessorId'' (JStr actor) kvs)))"

definition unresolved :: "claim_status list" where
  "unresolved = [Hypothesis, Observed, Reproduced, Stale]"

definition revised_blocker ::
  "host \<Rightarrow> string \<Rightarrow> string option option \<Rightarrow> blocker option \<Rightarrow> (claim_error, blocker option) res" where
  "revised_blocker h actor u old = (case u of None \<Rightarrow> Inr old | Some None \<Rightarrow> Inr None
     | Some (Some r) \<Rightarrow> rbind (required_text (Some r) L_blocker) (\<lambda>why.
         Inr (Some \<lparr>bl_reason = why, bl_actor = actor, bl_setAt = h_now h\<rparr>)))"

definition revised_reportability ::
  "host \<Rightarrow> string \<Rightarrow> report_update option option \<Rightarrow> reportability option
   \<Rightarrow> (claim_error, reportability option) res" where
  "revised_reportability h actor u old = (case u of None \<Rightarrow> Inr old | Some None \<Rightarrow> Inr None
     | Some (Some p) \<Rightarrow>
         rbind (need (decision_of (pu_decision p)) (Tracking Bad_decision)) (\<lambda>dec.
         rbind (required_text (Some (pu_basis p)) L_basis) (\<lambda>b.
         rbind (unique_strings (pu_policies p) L_policy) (\<lambda>ps.
           Inr (Some \<lparr>rp_decision = dec, rp_basis = b, rp_policies = ps, rp_actor = actor,
             rp_assessedAt = h_now h\<rparr>)))))"

definition revised_names ::
  "string list option \<Rightarrow> claim_label \<Rightarrow> string list \<Rightarrow> (claim_error, string list) res" where
  "revised_names u l old = (case u of None \<Rightarrow> Inr old | Some xs \<Rightarrow> unique_strings xs l)"

text \<open>The checks between the assessments and the new object.\<close>

definition check_decisions :: "claim_view \<Rightarrow> tracking_update \<Rightarrow> (claim_error, unit) res" where
  "check_decisions cur u =
     ensure ((case tu_progressBlocker u of Some (Some _) \<Rightarrow> c_status cur \<in> set unresolved | _ \<Rightarrow> True))
       (Tracking Blocker_needs_open) (
     ensure (tu_reportability u \<noteq> None \<or> tu_triageBlocker u \<noteq> None \<longrightarrow> c_status cur = Verified)
       (Tracking Decision_needs_verified) (
     case tu_reportability u of
       Some (Some p) \<Rightarrow>
         ensure (\<not> (pu_decision p = ''not_reportable'' \<and> truthy (c_report cur))) (Tracking Report_bound) (
         ensure (decision_of (pu_decision p) \<noteq> None) (Tracking Bad_decision) (
         ensure (pu_policies p \<noteq> []) (Tracking Needs_policy) (Inr ())))
     | _ \<Rightarrow> Inr ()))"

definition updated_tracking ::
  "host \<Rightarrow> caller \<Rightarrow> claim_view \<Rightarrow> tracking_update \<Rightarrow> (claim_error, tracking) res" where
  "updated_tracking h ca cur u =
     (let base = base_tracking cur; actor = resolved_actor ca in
      rbind (case tu_reachability u of None \<Rightarrow> Inr (st_reachability base)
         | Some r \<Rightarrow> revised_reachability h cur r actor) (\<lambda>reach.
      rbind (case tu_cvss u of None \<Rightarrow> Inr (st_cvss base)
         | Some kvs \<Rightarrow> rbind (revised_cvss h kvs actor) (\<lambda>v. Inr (js_dedup (st_cvss base @ [v])))) (\<lambda>cv.
      rbind (check_decisions cur u) (\<lambda>_.
      rbind (revised_names (tu_assets u) L_asset (st_assets base)) (\<lambda>as.
      rbind (revised_names (tu_surfaces u) L_surface (st_surfaces base)) (\<lambda>su.
      rbind (revised_blocker h actor (tu_progressBlocker u) (st_progressBlocker base)) (\<lambda>pb.
      rbind (revised_reportability h actor (tu_reportability u) (st_reportability base)) (\<lambda>rp.
      rbind (revised_blocker h actor (tu_triageBlocker u) (st_triageBlocker base)) (\<lambda>tb.
      rbind (case tu_references u of None \<Rightarrow> Inr (st_references base)
         | Some js \<Rightarrow> rbind (rmap stored_reference js) (\<lambda>xs. Inr (js_dedup xs))) (\<lambda>xs.
        Inr \<lparr>st_reachability = reach, st_cvss = cv, st_assets = as, st_surfaces = su,
          st_progressBlocker = pb, st_reportability = rp, st_triageBlocker = tb,
          st_packet = (if tu_reportability u = None then st_packet base else None),
          st_references = xs\<rparr>))))))))))"

definition revised_tracking ::
  "host \<Rightarrow> caller \<Rightarrow> claim_view \<Rightarrow> string \<Rightarrow> tracking_update option \<Rightarrow> (claim_error, tracking option) res" where
  "revised_tracking h ca cur cls u =
     (if \<not> security_classification cls then ensure (u = None) (Tracking Tracking_not_security) (Inr None)
      else (case u of None \<Rightarrow> Inr (Some (base_tracking cur))
        | Some u \<Rightarrow> rbind (updated_tracking h ca cur u) (\<lambda>t. Inr (Some t))))"

section \<open>Revision\<close>

record revise_input =
  vi_expected :: nat
  vi_reason :: string
  vi_surface :: "string option option"
  vi_title :: "string option"
  vi_summary :: "string option"
  vi_impact :: "string option"
  vi_steps :: "string option"
  vi_rating :: "string option"
  vi_confidence :: "json option"
  vi_classification :: "string option"
  vi_components :: "string list option"
  vi_tracking :: "tracking_update option"

definition revised_components ::
  "host \<Rightarrow> claim_store \<Rightarrow> claim_view \<Rightarrow> revise_input \<Rightarrow> string \<Rightarrow> (claim_error, string list) res" where
  "revised_components h st cur i cls =
     (if vi_components i = None \<and> vi_classification i = None then Inr (v_components cur)
      else validated_components h st cls
        (case vi_components i of Some ks \<Rightarrow> ks | None \<Rightarrow> v_components cur) (Some (c_id cur)))"

definition revise_row ::
  "claim_view \<Rightarrow> revise_input \<Rightarrow> string \<Rightarrow> string \<Rightarrow> claim_rating \<Rightarrow> json \<Rightarrow> tracking option \<Rightarrow> claim \<Rightarrow> claim" where
  "revise_row cur i cls title rating conf tr r = r\<lparr>
     c_title := title,
     c_summary := (case vi_summary i of None \<Rightarrow> c_summary cur | Some s \<Rightarrow> text_or_empty (Some s)),
     c_impact := (case vi_impact i of None \<Rightarrow> c_impact cur | Some s \<Rightarrow> text_or_empty (Some s)),
     c_steps := (case vi_steps i of None \<Rightarrow> c_steps cur | Some s \<Rightarrow> text_or_empty (Some s)),
     c_rating := rating, c_confidence := conf,
     c_classification := (if vi_classification i = None then c_classification r else cls),
     c_tracking := tr,
     c_surface := (case vi_surface i of None \<Rightarrow> c_surface cur | Some s \<Rightarrow> s)\<rparr>"

definition revise_from ::
  "host \<Rightarrow> caller \<Rightarrow> claim_store \<Rightarrow> claim_view \<Rightarrow> revise_input \<Rightarrow> (claim_error, claim_store) res" where
  "revise_from h ca st cur i =
     require_canonical cur (
     ensure (c_revision cur = vi_expected i) (Refused Revision_conflict) (
     rbind (claim_classification (Some (case vi_classification i of None \<Rightarrow> c_classification cur | Some c \<Rightarrow> c))) (\<lambda>cls.
     rbind (revised_components h st cur i cls) (\<lambda>comps.
     ensure (\<not> (vi_steps i \<noteq> None \<and> c_status cur \<in> set reproduced_or_later \<and> norm_text (vi_steps i) = None))
       (Gate Needs_steps) (
     rbind (revised_tracking h ca cur cls (vi_tracking i)) (\<lambda>tr.
     rbind (case vi_title i of None \<Rightarrow> Inr (c_title cur) | Some t \<Rightarrow> required_text (Some t) L_title) (\<lambda>title.
     rbind (case vi_rating i of None \<Rightarrow> Inr (c_rating cur) | Some r \<Rightarrow> parse_rating (Some r)) (\<lambda>rating.
     rbind (case vi_confidence i of None \<Rightarrow> Inr (c_confidence cur) | Some v \<Rightarrow> claim_confidence v) (\<lambda>conf.
       commit_change h ca st cur (vi_reason i) (revise_row cur i cls title rating conf tr)
         (if vi_components i = None then id else write_components (c_id cur) comps))))))))))"

definition revise ::
  "host \<Rightarrow> caller \<Rightarrow> claim_store \<Rightarrow> string \<Rightarrow> revise_input \<Rightarrow> (claim_error, claim_store) res" where
  "revise h ca st k i = rbind (need (claim_get h st k) (Refused Not_found)) (\<lambda>cur. revise_from h ca st cur i)"

section \<open>Triage packets\<close>

record packet_input =
  pi_expected :: nat
  pi_artifact :: string
  pi_hash :: string
  pi_size :: int
  pi_replay :: string
  pi_reason :: string

definition lower_hex :: "char \<Rightarrow> bool" where
  "lower_hex c = (let n = (of_char c :: nat) in 48 \<le> n \<and> n \<le> 57 \<or> 97 \<le> n \<and> n \<le> 102)"

text \<open>\<open>/^sha256:[a-f0-9]{64}$/u\<close>\<close>

definition sha256_reference :: "string \<Rightarrow> bool" where
  "sha256_reference s \<longleftrightarrow> starts_with s ''sha256:'' \<and> length s = 71 \<and> list_all lower_hex (drop 7 s)"

definition is_reportable :: "claim_view \<Rightarrow> bool" where
  "is_reportable cur \<longleftrightarrow> (case Option.bind (c_tracking cur) st_reportability of
     None \<Rightarrow> False | Some r \<Rightarrow> rp_decision r = Reportable)"

definition record_triage_packet ::
  "host \<Rightarrow> caller \<Rightarrow> claim_store \<Rightarrow> string \<Rightarrow> packet_input \<Rightarrow> (claim_error, claim_store) res" where
  "record_triage_packet h ca st k i =
     rbind (need (claim_get h st k) (Refused Not_found)) (\<lambda>cur.
     require_canonical cur (
     ensure (c_revision cur = pi_expected i) (Refused Revision_conflict) (
     ensure (c_status cur = Verified \<and> is_reportable cur) (Refused Packet_needs_reportable) (
     ensure (1 \<le> pi_size i \<and> pi_size i \<le> 128 * 1024 * 1024 \<and> sha256_reference (pi_hash i))
       (Refused Packet_invalid) (
     rbind (required_text (Some (pi_artifact i)) L_artifact) (\<lambda>a.
     rbind (required_text (Some (pi_hash i)) L_hash) (\<lambda>hash.
     rbind (required_text (Some (pi_replay i)) L_replay) (\<lambda>r.
       commit_change h ca st cur (pi_reason i) (\<lambda>row. row\<lparr>c_tracking := Some ((base_tracking cur)\<lparr>
           st_triageBlocker := None,
           st_packet := Some \<lparr>tp_artifact = a, tp_hash = hash, tp_size = pi_size i,
             tp_binding = claim_verification_hash h cur (v_components cur), tp_replay = r,
             tp_verifiedAt = h_now h\<rparr>\<rparr>)\<rparr>) id))))))))"

end
