(* ===== verification/Claim_Staleness.thy ===== *)
theory Claim_Staleness
  imports Claim_Links
begin

text \<open>
  Staleness of claims (\<open>stalenessReasons\<close>, \<open>parseComparableFindingIdentity\<close>,
  \<open>refreshStaleness\<close> and the stand-alone \<open>refreshFindingStaleness\<close> of
  \<open>packages/research-agent/src/findings.ts\<close>).
\<close>

section \<open>Comparable identities\<close>

datatype identity_domain = Source_domain | Environment_domain

record identity =
  id_kind :: string
  id_resource :: string
  id_value :: string

definition identity_kind_char :: "char \<Rightarrow> bool" where
  "identity_kind_char c \<longleftrightarrow> ident_char c \<or> c = CHR ''-''"

definition resource_char :: "char \<Rightarrow> bool" where
  "resource_char c = (let n = (of_char c :: nat) in
     97 \<le> n \<and> n \<le> 122 \<or> 65 \<le> n \<and> n \<le> 90 \<or> 48 \<le> n \<and> n \<le> 57 \<or> c \<in> {CHR ''.'', CHR ''_'', CHR ''/'', CHR ''-''})"

definition line_char :: "char \<Rightarrow> bool" where
  "line_char c \<longleftrightarrow> (of_char c :: nat) \<notin> {10, 13}"

fun accepted_kinds :: "identity_domain \<Rightarrow> string list" where
  "accepted_kinds Source_domain = [''git'', ''source-drop'', ''product-build'', ''binary-sha256'']"
| "accepted_kinds Environment_domain = [''environment'', ''runtime'']"

definition not_colon :: "char \<Rightarrow> bool" where
  "not_colon c \<longleftrightarrow> c \<noteq> CHR '':''"

text \<open>\<open>/^([a-z][a-z0-9-]*):([A-Za-z0-9._/-]+):(.+)$/u\<close>: neither of the first two groups
  can contain a colon.\<close>

definition split_identity :: "string \<Rightarrow> (string \<times> string \<times> string) option" where
  "split_identity v =
     (let kind = takeWhile not_colon v; rest = drop 1 (dropWhile not_colon v);
          resource = takeWhile not_colon rest; tail = drop 1 (dropWhile not_colon rest) in
      oguard (dropWhile not_colon v \<noteq> [] \<and> dropWhile not_colon rest \<noteq> []
          \<and> kind \<noteq> [] \<and> list_all identity_kind_char kind
          \<and> 97 \<le> (of_char (hd kind) :: nat) \<and> (of_char (hd kind) :: nat) \<le> 122
          \<and> resource \<noteq> [] \<and> list_all resource_char resource
          \<and> tail \<noteq> [] \<and> list_all line_char tail)
        (Some (kind, resource, tail)))"

definition parse_identity :: "identity_domain \<Rightarrow> string option \<Rightarrow> identity option" where
  "parse_identity d v = Option.bind v (\<lambda>s. Option.bind (split_identity s) (\<lambda>(kind, resource, tail).
     oguard (kind \<in> set (accepted_kinds d) \<and> js_trim tail \<noteq> [])
       (Some \<lparr>id_kind = kind, id_resource = resource, id_value = js_trim tail\<rparr>)))"

definition identity_changed :: "identity_domain \<Rightarrow> string option \<Rightarrow> string option \<Rightarrow> bool" where
  "identity_changed d recorded current = (case (parse_identity d recorded, parse_identity d current) of
     (Some r, Some c) \<Rightarrow> id_kind r = id_kind c \<and> id_resource r = id_resource c \<and> id_value r \<noteq> id_value c
   | _ \<Rightarrow> False)"

definition source_reason :: "string option \<Rightarrow> string option \<Rightarrow> string" where
  "source_reason recorded current = ''Recorded source revision '' @ the recorded
     @ '' differs from current revision '' @ the current @ ''.''"

definition environment_reason :: string where
  "environment_reason =
     ''The current execution environment differs from the verified environment fingerprint.''"

definition staleness_reasons :: "('a claim_scheme) \<Rightarrow> string option \<Rightarrow> string option \<Rightarrow> string list" where
  "staleness_reasons c src env =
     (if identity_changed Source_domain (c_source c) src then [source_reason (c_source c) src] else [])
     @ (if identity_changed Environment_domain (c_environment c) env then [environment_reason] else [])"

section \<open>Refreshing\<close>

definition exempt :: "claim_status \<Rightarrow> bool" where
  "exempt s \<longleftrightarrow> s = Hypothesis \<or> s = Rejected \<or> s = Stale"

definition stale_input :: "('a claim_scheme) \<Rightarrow> string list \<Rightarrow> transition_input" where
  "stale_input c reasons = \<lparr>ti_expected = c_revision c, ti_to = Stale, ti_reason = js_join '' '' reasons,
     ti_evidence = [], ti_source = None, ti_environment = None, ti_runbook = None, ti_steps = None,
     ti_report = None, ti_disclosure = None, ti_classification = None, ti_surface = None\<rparr>"

definition host_caller :: "string \<Rightarrow> caller" where
  "host_caller actor = \<lparr>ca_author = None, ca_actor = Some actor, ca_fresh = False\<rparr>"

text \<open>\<open>hs\<close> is the host at each transition: its clock goes on.\<close>

fun refresh_from ::
  "(nat \<Rightarrow> host) \<Rightarrow> string \<Rightarrow> string option \<Rightarrow> string option \<Rightarrow> nat \<Rightarrow> claim_view list \<Rightarrow> claim_store
   \<Rightarrow> (claim_error, claim_store \<times> string list) res" where
  "refresh_from hs actor src env n [] st = Inr (st, [])"
| "refresh_from hs actor src env n (c # cs) st =
     (if exempt (c_status c) \<or> staleness_reasons c src env = [] then refresh_from hs actor src env n cs st
      else rbind (transition (hs n) (host_caller actor) st (c_id c) (stale_input c (staleness_reasons c src env))) (\<lambda>st'.
        rbind (refresh_from hs actor src env (Suc n) cs st') (\<lambda>(st'', ks). Inr (st'', c_id c # ks))))"

definition refresh_staleness ::
  "(nat \<Rightarrow> host) \<Rightarrow> string \<Rightarrow> string option \<Rightarrow> string option \<Rightarrow> claim_store
   \<Rightarrow> (claim_error, claim_store \<times> string list) res" where
  "refresh_staleness hs actor src env st = refresh_from hs actor src env 0 (claim_list (hs 0) st) st"

text \<open>The stand-alone function updates the row itself; its transition row has no session.\<close>

definition mark_stale ::
  "host \<Rightarrow> string \<Rightarrow> claim_view \<Rightarrow> string \<Rightarrow> claim_store \<Rightarrow> (claim_error, claim_store) res" where
  "mark_stale h actor c reason st =
     rbind (commit_row st (c_id c) (c_revision c) (\<lambda>r. r\<lparr>c_status := Stale, c_staleFrom := Some (c_status c),
        c_staleReason := Some reason, c_updatedAt := h_now h, c_revision := c_revision c + 1\<rparr>)) (\<lambda>st'.
       Inr (insert_transition (log_row (h\<lparr>h_session := None\<rparr>) (c_id c) (c_revision c + 1) (Some (c_status c))
         Stale reason (Some actor) [] False) st'))"

fun refresh_rows ::
  "(nat \<Rightarrow> host) \<Rightarrow> string \<Rightarrow> string option \<Rightarrow> string option \<Rightarrow> nat \<Rightarrow> claim_view list \<Rightarrow> claim_store
   \<Rightarrow> (claim_error, claim_store \<times> string list) res" where
  "refresh_rows hs actor src env n [] st = Inr (st, [])"
| "refresh_rows hs actor src env n (c # cs) st =
     (if exempt (c_status c) \<or> staleness_reasons c src env = [] then refresh_rows hs actor src env n cs st
      else rbind (mark_stale (hs n) actor c (js_join '' '' (staleness_reasons c src env)) st) (\<lambda>st'.
        rbind (refresh_rows hs actor src env (Suc n) cs st') (\<lambda>(st'', ks). Inr (st'', c_id c # ks))))"

definition refresh_finding_staleness ::
  "(nat \<Rightarrow> host) \<Rightarrow> string option \<Rightarrow> string option \<Rightarrow> string option \<Rightarrow> claim_store
   \<Rightarrow> (claim_error, claim_store \<times> string list) res" where
  "refresh_finding_staleness hs actor src env st =
     refresh_rows hs (case norm_text actor of Some a \<Rightarrow> a | None \<Rightarrow> ''host'') (norm_text src) (norm_text env) 0
       (claim_list (hs 0) st) st"

end
