(* ===== verification/Claim_Invariant.thy ===== *)
theory Claim_Invariant
  imports Claim_Revise Claim_Staleness
begin

text \<open>
  The invariant of the claim ledger and the shape that every successful operation has: one row is
  replaced, one entry is appended to the transition log, evidence is only added.
\<close>

section \<open>The invariant\<close>

text \<open>What a log entry may record.\<close>

definition legal_entry :: "transition_row \<Rightarrow> bool" where
  "legal_entry t \<longleftrightarrow> (case t_from t of
     None \<Rightarrow> t_to t = Hypothesis \<or> t_to t = Observed
   | Some f \<Rightarrow> t_to t = f \<or> t_to t \<in> set (allowed_transitions f) \<or> t_override t \<and> t_to t \<in> set board_statuses)"

fun traced :: "claim_status option \<Rightarrow> transition_row list \<Rightarrow> claim_status option \<Rightarrow> bool" where
  "traced p [] q = (p = q)"
| "traced p (t # ts) q = (t_from t = p \<and> legal_entry t \<and> traced (Some (t_to t)) ts q)"

lemma traced_snoc:
  "traced p (ts @ [t]) q \<longleftrightarrow> traced p ts (t_from t) \<and> legal_entry t \<and> q = Some (t_to t)"
  by (induction ts arbitrary: p) auto

definition log_of :: "claim_store \<Rightarrow> string \<Rightarrow> transition_row list" where
  "log_of st k = filter (\<lambda>t. t_claim t = k) (s_transitions st)"

definition history_ok :: "claim_store \<Rightarrow> claim \<Rightarrow> bool" where
  "history_ok st c \<longleftrightarrow> map t_revision (log_of st (c_id c)) = [1..<Suc (c_revision c)]
     \<and> traced None (log_of st (c_id c)) (Some (c_status c))"

definition history_inv :: "claim_store \<Rightarrow> bool" where
  "history_inv st \<longleftrightarrow> distinct (map c_id (s_claims st))
     \<and> (\<forall>c\<in>set (s_claims st). 1 \<le> c_revision c \<and> history_ok st c)
     \<and> t_claim ` set (s_transitions st) \<subseteq> c_id ` set (s_claims st)
     \<and> e_claim ` set (s_evidence st) \<subseteq> c_id ` set (s_claims st)
     \<and> distinct (map e_id (s_evidence st)) \<and> (\<forall>e\<in>set (s_evidence st). starts_with (e_id e) evidence_prefix)
     \<and> (\<forall>t\<in>set (s_transitions st). set (t_evidence t) \<subseteq> e_id ` set (s_evidence st))"

definition stale_statuses :: "claim_status list" where
  "stale_statuses = [Observed, Reproduced, Verified, Report_ready, Disclosed]"

definition row_ok :: "(string \<Rightarrow> bool) \<Rightarrow> claim \<Rightarrow> bool" where
  "row_ok d c \<longleftrightarrow> c_id c \<noteq> [] \<and> (c_status c = Stale \<longleftrightarrow> c_staleFrom c \<noteq> None) \<and> set_option (c_staleFrom c) \<subseteq> set stale_statuses
     \<and> (c_status c = Stale \<longleftrightarrow> c_staleReason c \<noteq> None)
     \<and> (c_status c \<in> set reproduced_or_later \<longrightarrow> js_trim (c_steps c) \<noteq> [])
     \<and> stable_identifier (c_classification c) \<and> trimmed (c_classification c)
     \<and> trimmed (c_title c) \<and> number_upto 1 (c_confidence c)
     \<and> opt_trimmed (c_source c) \<and> opt_trimmed (c_environment c)
     \<and> (\<forall>t\<in>set_option (c_tracking c). tracking_wf d t)"

definition duplicate_ok :: "claim_store \<Rightarrow> claim \<Rightarrow> bool" where
  "duplicate_ok st c \<longleftrightarrow> (case c_duplicateOf c of None \<Rightarrow> True | Some p \<Rightarrow> trimmed p \<and> p \<noteq> c_id c
     \<and> (\<exists>q\<in>set (s_claims st). c_id q = p \<and> c_workspace q = c_workspace c \<and> c_subject q = c_subject c
          \<and> c_duplicateOf q = None))"

definition links_inv :: "claim_store \<Rightarrow> bool" where
  "links_inv st \<longleftrightarrow> (\<forall>c\<in>set (s_claims st). duplicate_ok st c)
     \<and> acyclic (set (component_edges st))
     \<and> (\<forall>r\<in>set (s_components st). k_claim r \<in> c_id ` set (s_claims st) \<and> k_component r \<in> c_id ` set (s_claims st))"

definition claim_inv :: "(string \<Rightarrow> bool) \<Rightarrow> claim_store \<Rightarrow> bool" where
  "claim_inv d st \<longleftrightarrow> history_inv st \<and> (\<forall>c\<in>set (s_claims st). row_ok d c) \<and> links_inv st"

section \<open>The shape of a change\<close>

definition put_claim :: "claim \<Rightarrow> claim_store \<Rightarrow> claim_store" where
  "put_claim r st = st\<lparr>s_claims := map (\<lambda>c. if c_id c = c_id r then r else c) (s_claims st)\<rparr>"

definition successor :: "claim \<Rightarrow> claim \<Rightarrow> transition_row \<Rightarrow> evidence list \<Rightarrow> bool" where
  "successor r r' t es \<longleftrightarrow> c_id r' = c_id r \<and> c_workspace r' = c_workspace r \<and> c_subject r' = c_subject r
     \<and> c_revision r' = Suc (c_revision r) \<and> t_claim t = c_id r \<and> t_revision t = Suc (c_revision r)
     \<and> t_from t = Some (c_status r) \<and> t_to t = c_status r' \<and> legal_entry t
     \<and> t_evidence t = map e_id es \<and> (\<forall>e\<in>set es. e_claim e = c_id r)"

definition committed ::
  "claim_store \<Rightarrow> claim \<Rightarrow> claim \<Rightarrow> transition_row \<Rightarrow> evidence list \<Rightarrow> component_row list \<Rightarrow> claim_store \<Rightarrow> bool" where
  "committed st r r' t es ks st' \<longleftrightarrow> r \<in> set (s_claims st) \<and> successor r r' t es
     \<and> s_claims st' = s_claims (put_claim r' st) \<and> s_transitions st' = s_transitions st @ [t]
     \<and> s_evidence st' = s_evidence st @ es \<and> s_components st' = ks
     \<and> s_runbooks st' = s_runbooks st \<and> s_runs st' = s_runs st \<and> s_cells st' = s_cells st
     \<and> s_reports st' = s_reports st"

definition fresh_ids :: "claim_store \<Rightarrow> evidence list \<Rightarrow> bool" where
  "fresh_ids st es \<longleftrightarrow> distinct (map e_id es) \<and> e_id ` set es \<inter> e_id ` set (s_evidence st) = {}
     \<and> (\<forall>e\<in>set es. starts_with (e_id e) evidence_prefix)"

lemma put_claim_simps [simp]:
  "s_transitions (put_claim r st) = s_transitions st" "s_evidence (put_claim r st) = s_evidence st"
  "s_components (put_claim r st) = s_components st" "s_runs (put_claim r st) = s_runs st"
  "s_runbooks (put_claim r st) = s_runbooks st" "s_cells (put_claim r st) = s_cells st"
  "s_reports (put_claim r st) = s_reports st" "s_authors (put_claim r st) = s_authors st"
  by (simp_all add: put_claim_def)

lemma set_put_claim:
  "r \<in> set (s_claims st) \<Longrightarrow> c_id r' = c_id r \<Longrightarrow>
   set (s_claims (put_claim r' st)) = insert r' {c \<in> set (s_claims st). c_id c \<noteq> c_id r}"
  by (auto simp: put_claim_def)

lemma ids_put_claim [simp]: "map c_id (s_claims (put_claim r st)) = map c_id (s_claims st)"
  by (simp add: put_claim_def)

lemma id_set_put_claim [simp]: "c_id ` set (s_claims (put_claim r st)) = c_id ` set (s_claims st)"
  by (metis ids_put_claim list.set_map)

lemma insert_author_simps [simp]:
  "s_claims (insert_author ca k n st) = s_claims st" "s_evidence (insert_author ca k n st) = s_evidence st"
  "s_transitions (insert_author ca k n st) = s_transitions st"
  "s_components (insert_author ca k n st) = s_components st"
  "s_runbooks (insert_author ca k n st) = s_runbooks st" "s_runs (insert_author ca k n st) = s_runs st"
  "s_cells (insert_author ca k n st) = s_cells st" "s_reports (insert_author ca k n st) = s_reports st"
  by (auto simp: insert_author_def Let_def split: option.splits prod.splits)

lemma insert_transition_simps [simp]:
  "s_claims (insert_transition t st) = s_claims st" "s_evidence (insert_transition t st) = s_evidence st"
  "s_transitions (insert_transition t st) = s_transitions st @ [t]"
  "s_components (insert_transition t st) = s_components st"
  "s_runbooks (insert_transition t st) = s_runbooks st" "s_runs (insert_transition t st) = s_runs st"
  "s_cells (insert_transition t st) = s_cells st" "s_reports (insert_transition t st) = s_reports st"
  by (simp_all add: insert_transition_def)

lemma insert_evidence_simps [simp]:
  "s_claims (insert_evidence h es st) = s_claims st"
  "s_evidence (insert_evidence h es st) = s_evidence st @ with_ids h es"
  "s_transitions (insert_evidence h es st) = s_transitions st"
  "s_components (insert_evidence h es st) = s_components st"
  "s_runbooks (insert_evidence h es st) = s_runbooks st" "s_runs (insert_evidence h es st) = s_runs st"
  "s_cells (insert_evidence h es st) = s_cells st" "s_reports (insert_evidence h es st) = s_reports st"
  by (simp_all add: insert_evidence_def)

lemma distinct_row:
  "distinct (map c_id xs) \<Longrightarrow> r \<in> set xs \<Longrightarrow> c \<in> set xs \<Longrightarrow> c_id c = c_id r \<Longrightarrow> c = r"
  by (metis distinct_map inj_on_def)

lemma commit_row_put:
  assumes "distinct (map c_id (s_claims st))" "r \<in> set (s_claims st)" "c_id (f r) = c_id r"
  shows "commit_row st (c_id r) (c_revision r) f = Inr (put_claim (f r) st)"
proof -
  have "map (\<lambda>c. if c_id c = c_id r \<and> c_revision c = c_revision r then f c else c) (s_claims st)
      = map (\<lambda>c. if c_id c = c_id r then f r else c) (s_claims st)"
    using distinct_row [OF assms(1,2)] by (intro map_cong) auto
  moreover have "list_ex (\<lambda>c. c_id c = c_id r \<and> c_revision c = c_revision r) (s_claims st)"
    using assms(2) by (auto simp: list_ex_iff)
  ultimately show ?thesis
    using assms(3) by (simp add: commit_row_def put_claim_def)
qed

section \<open>The log\<close>

lemma log_of_snoc:
  "log_of (st\<lparr>s_transitions := s_transitions st @ [t]\<rparr>) k = log_of st k @ (if t_claim t = k then [t] else [])"
  by (simp add: log_of_def)

lemma log_of_cong: "s_transitions st' = s_transitions st @ [t] \<Longrightarrow>
   log_of st' k = log_of st k @ (if t_claim t = k then [t] else [])"
  by (simp add: log_of_def)

lemma history_invD:
  assumes "history_inv st"
  shows "distinct (map c_id (s_claims st))" "c \<in> set (s_claims st) \<Longrightarrow> history_ok st c"
    "c \<in> set (s_claims st) \<Longrightarrow> 1 \<le> c_revision c"
    "t_claim ` set (s_transitions st) \<subseteq> c_id ` set (s_claims st)"
    "e_claim ` set (s_evidence st) \<subseteq> c_id ` set (s_claims st)"
    "distinct (map e_id (s_evidence st))"
    "t \<in> set (s_transitions st) \<Longrightarrow> set (t_evidence t) \<subseteq> e_id ` set (s_evidence st)"
    "e \<in> set (s_evidence st) \<Longrightarrow> starts_with (e_id e) evidence_prefix"
  using assms by (simp_all add: history_inv_def)

lemma history_committed:
  assumes inv: "history_inv st" and c: "committed st r r' t es ks st'" and f: "fresh_ids st es"
  shows "history_inv st'"
proof -
  note s = c [unfolded committed_def successor_def]
  have claims: "set (s_claims st') = insert r' {c \<in> set (s_claims st). c_id c \<noteq> c_id r}"
    using s set_put_claim [of r st r'] by auto
  have ids: "map c_id (s_claims st') = map c_id (s_claims st)"
    using s by auto
  then have id_set: "c_id ` set (s_claims st') = c_id ` set (s_claims st)"
    by (metis list.set_map)
  have log: "log_of st' k = log_of st k @ (if t_claim t = k then [t] else [])" for k
    using s by (intro log_of_cong) auto
  have "history_ok st r"
    using inv s by (auto simp: history_inv_def)
  then have new: "history_ok st' r'"
    using s by (auto simp: history_ok_def log traced_snoc)
  have "history_ok st' c" if "c \<in> set (s_claims st)" "c_id c \<noteq> c_id r" for c
    using that inv s by (auto simp: history_ok_def log history_inv_def)
  then have "\<forall>c\<in>set (s_claims st'). 1 \<le> c_revision c \<and> history_ok st' c"
    using inv new s unfolding claims history_inv_def by auto
  moreover have "distinct (map e_id (s_evidence st'))"
  proof -
    have "s_evidence st' = s_evidence st @ es"
      using s by auto
    then show ?thesis
      using inv f by (simp add: history_inv_def fresh_ids_def Int_commute)
  qed
  moreover have "\<forall>e\<in>set (s_evidence st'). starts_with (e_id e) evidence_prefix"
    using f s history_invD(8) [OF inv] by (auto simp: fresh_ids_def)
  moreover have "t_claim ` set (s_transitions st') \<subseteq> c_id ` set (s_claims st')"
    "e_claim ` set (s_evidence st') \<subseteq> c_id ` set (s_claims st')"
    "\<forall>t\<in>set (s_transitions st'). set (t_evidence t) \<subseteq> e_id ` set (s_evidence st')"
  proof -
    have tr: "set (s_transitions st') = insert t (set (s_transitions st))"
      and ev: "set (s_evidence st') = set (s_evidence st) \<union> set es"
      using s by auto
    have r: "c_id r \<in> c_id ` set (s_claims st)" "t_claim t = c_id r"
      "e_claim ` set es \<subseteq> {c_id r}" "set (t_evidence t) = e_id ` set es"
      using s by auto
    show "t_claim ` set (s_transitions st') \<subseteq> c_id ` set (s_claims st')"
      using history_invD(4) [OF inv] r(1,2) unfolding tr id_set by simp
    show "e_claim ` set (s_evidence st') \<subseteq> c_id ` set (s_claims st')"
    proof -
      have "e_claim ` set es \<subseteq> c_id ` set (s_claims st)"
        using r(1,3) by (meson empty_subsetI insert_subset subset_trans)
      then show ?thesis
        unfolding ev id_set image_Un using history_invD(5) [OF inv] by (rule Un_least [rotated])
    qed
    show "\<forall>t\<in>set (s_transitions st'). set (t_evidence t) \<subseteq> e_id ` set (s_evidence st')"
      using history_invD(7) [OF inv] r(4) unfolding tr ev image_Un by (metis insert_iff le_supI1 sup_ge2)
  qed
  ultimately show ?thesis
    using inv ids unfolding history_inv_def by simp
qed

end
