(* ===== verification/Claim_Steps.thy ===== *)
theory Claim_Steps
  imports Claim_Invariant
begin

text \<open>
  Every operation of the claim ledger has the shape \<open>committed\<close>, and keeps the invariant.
\<close>

section \<open>Evidence\<close>

text \<open>The identifiers \<open>randomUUID\<close> returns are new.\<close>

definition fresh_host :: "host \<Rightarrow> claim_store \<Rightarrow> bool" where
  "fresh_host h st \<longleftrightarrow> inj (h_uuid h) \<and> (\<forall>n. evidence_uuid h n \<notin> e_id ` set (s_evidence st))
     \<and> (\<forall>n. ''claim_'' @ h_uuid h n \<notin> c_id ` set (s_claims st))"

lemma enumerate_nth: "enumerate 0 xs = zip [0..<length xs] xs"
  by (simp add: enumerate_eq_zip)

lemma with_ids_ids: "map e_id (with_ids h es) = map (\<lambda>n. evidence_uuid h (Suc n)) [0..<length es]"
  by (intro nth_equalityI) (auto simp: with_ids_def nth_enumerate_eq)

lemma set_with_ids: "e \<in> set (with_ids h es) \<Longrightarrow> \<exists>x\<in>set es. \<exists>k. e = x\<lparr>e_id := k\<rparr>"
  by (auto simp: with_ids_def enumerate_nth dest: set_zip_rightD)

lemma starts_with_append [simp]: "starts_with (p @ x) p"
  by (induction p) auto

lemma fresh_with_ids: "fresh_host h st \<Longrightarrow> fresh_ids st (with_ids h es)"
  unfolding fresh_ids_def
proof (intro conjI)
  assume f: "fresh_host h st"
  have "inj (\<lambda>n. evidence_uuid h (Suc n))"
    using f by (auto simp: inj_def fresh_host_def evidence_uuid_def)
  then show "distinct (map e_id (with_ids h es))"
    unfolding with_ids_ids by (auto simp: distinct_map intro: inj_on_subset)
  have "e_id ` set (with_ids h es) \<subseteq> range (evidence_uuid h)"
    unfolding set_map [symmetric] with_ids_ids by auto
  then show "e_id ` set (with_ids h es) \<inter> e_id ` set (s_evidence st) = {}"
    using f by (force simp: fresh_host_def)
  show "\<forall>e\<in>set (with_ids h es). starts_with (e_id e) evidence_prefix"
    by (auto simp: with_ids_def evidence_uuid_def)
qed

lemma normalize_claims:
  assumes "normalize_evidence h ca k is = Inr es" "e \<in> set es"
  shows "e_claim e = k" "e_binding e = None" "\<exists>n. e_id e = pending_id n"
proof -
  obtain x where "normalize_evidence_item h ca k x = Inr e"
    using rmap_Inr_member [OF assms(1) [unfolded normalize_evidence_def] assms(2)] by blast
  then show "e_claim e = k" "e_binding e = None" "\<exists>n. e_id e = pending_id n"
    by (auto simp: normalize_evidence_item_def rbind_Inr_iff draft_evidence_def)
qed

lemma normalize_length: "normalize_evidence h ca k is = Inr es \<Longrightarrow> length es = length is"
  by (auto simp: normalize_evidence_def rmap_Inr_all2 dest: list_all2_lengthD)

section \<open>Shapes\<close>

lemma transition_from_Inr:
  assumes "transition_from h ca st cur i = Inr st'"
  obtains new0 cls tr new where
    "\<not> truthy (c_duplicateOf cur)" "c_revision cur = ti_expected i"
    "c_status cur = ti_to i \<or> ti_to i \<in> set (allowed_transitions (c_status cur))"
    "c_status cur = ti_to i \<Longrightarrow> ti_evidence i \<noteq> []" "c_workspace cur = h_workspace h"
    "normalize_evidence h ca (c_id cur) (ti_evidence i) = Inr new0"
    "claim_classification (Some (case ti_classification i of None \<Rightarrow> c_classification cur | Some c \<Rightarrow> c)) = Inr cls"
    "transition_tracking cur i cls = Inr tr"
    "new = map (bind_review (claim_verification_hash h (reviewed_content cur i cls) (v_components cur))) new0"
    "list_ex e_independent new \<Longrightarrow> claim_verification_hash h (reviewed_content cur i cls) (v_components cur)
       = claim_verification_hash h cur (v_components cur)"
    "validate_transition_evidence h st (reviewed_content cur i cls) (v_components cur) i
       (map evidence.truncate (v_evidence cur) @ new) = Inr ()"
    "commit_transition h ca st cur i cls tr new = Inr st'"
  using assms unfolding transition_from_def require_canonical_def Let_def guard_simps
  by (elim exE conjE) (rule that; (assumption | rule refl | simp))

lemma gate_Inr:
  "validate_transition_evidence h st c comps i es = Inr u \<longleftrightarrow>
     (ti_to i = Observed \<longrightarrow> list_ex direct_observation es)
     \<and> (ti_to i \<in> set reproduced_or_later \<longrightarrow> js_trim (c_steps c) \<noteq> []
          \<and> truthy (given_or (ti_runbook i) (c_runbook c)) \<and> list_ex (valid_reproduction st c) es)
     \<and> (ti_to i \<in> set verified_or_later \<longrightarrow> list_ex (valid_independent h st c comps) es)
     \<and> (ti_to i = Report_ready \<longrightarrow> (let k = given_or (ti_report i) (c_report c) in
          truthy k \<and> report_exists st (the k) (c_workspace c) \<and> named_evidence Ev_report k es))
     \<and> (ti_to i = Disclosed \<longrightarrow> named_evidence Ev_disclosure (given_or (ti_disclosure i) (c_disclosure c)) es)"
  unfolding validate_transition_evidence_def guard_simps by auto

lemma bind_review_simps [simp]:
  "e_claim (bind_review x e) = e_claim e" "e_id (bind_review x e) = e_id e"
  "e_independent (bind_review x e) = e_independent e" "e_kind (bind_review x e) = e_kind e"
  by (simp_all add: bind_review_def)

definition stale_note :: "transition_input \<Rightarrow> string option" where
  "stale_note i = (if ti_to i = Stale then Some (js_trim (ti_reason i)) else None)"

lemma commit_transition_shape:
  assumes d: "distinct (map c_id (s_claims st))" and r: "r \<in> set (s_claims st)"
    and ok: "commit_transition h ca st (view_of h st r) i cls tr new = Inr st'"
    and e: "\<forall>e\<in>set new. e_claim e = c_id r"
    and a: "c_status r = ti_to i \<or> ti_to i \<in> set (allowed_transitions (c_status r))"
  shows "committed st r (transition_row_update h (view_of h st r) i cls tr (stale_note i) r)
      (log_row h (c_id r) (Suc (c_revision r)) (Some (c_status r)) (ti_to i) (js_trim (ti_reason i)) (ca_actor ca)
        (map e_id (with_ids h new)) False)
      (with_ids h new) (s_components st) st'"
    and "js_trim (ti_reason i) \<noteq> []"
proof -
  let ?r' = "transition_row_update h (view_of h st r) i cls tr (stale_note i) r"
  let ?t = "log_row h (c_id r) (Suc (c_revision r)) (Some (c_status r)) (ti_to i) (js_trim (ti_reason i))
      (ca_actor ca) (map e_id (with_ids h new)) False"
  have why: "js_trim (ti_reason i) \<noteq> []"
    using ok by (auto simp: commit_transition_def guard_simps)
  then show "js_trim (ti_reason i) \<noteq> []" .
  have "commit_row st (c_id r) (c_revision r) (transition_row_update h (view_of h st r) i cls tr (stale_note i))
      = Inr (put_claim ?r' st)"
    by (rule commit_row_put [OF d r]) (simp add: transition_row_update_def)
  then have "st' = insert_author ca (c_id r) (Suc (c_revision r)) (insert_transition ?t
      (insert_evidence h new (put_claim ?r' st)))"
    using ok why by (simp add: commit_transition_def stale_note_def required_text_def norm_text_def
        split: if_splits)
  moreover have "successor r ?r' ?t (with_ids h new)"
    using a e by (auto simp: successor_def transition_row_update_def log_row_def legal_entry_def
        dest!: set_with_ids)
  ultimately show "committed st r ?r' ?t (with_ids h new) (s_components st) st'"
    by (simp add: committed_def r)
qed

lemma commit_change_shape:
  assumes d: "distinct (map c_id (s_claims st))" and r: "r \<in> set (s_claims st)"
    and ok: "commit_change h ca st (view_of h st r) reason f g = Inr st'"
    and f: "c_id (f r) = c_id r" "c_workspace (f r) = c_workspace r" "c_subject (f r) = c_subject r"
      "c_status (f r) = c_status r"
    and g: "\<And>x. g x = x\<lparr>s_components := k (s_components x)\<rparr>"
  shows "committed st r ((f r)\<lparr>c_updatedAt := h_now h, c_revision := Suc (c_revision r)\<rparr>)
      (log_row h (c_id r) (Suc (c_revision r)) (Some (c_status r)) (c_status r) (js_trim reason) (ca_actor ca) [] False)
      [] (k (s_components st)) st'"
    and "js_trim reason \<noteq> []"
proof -
  let ?f = "\<lambda>r'. (f r')\<lparr>c_updatedAt := h_now h, c_revision := Suc (c_revision r)\<rparr>"
  have why: "js_trim reason \<noteq> []"
    using ok by (auto simp: commit_change_def guard_simps)
  then show "js_trim reason \<noteq> []" .
  have "commit_row st (c_id r) (c_revision r) ?f = Inr (put_claim (?f r) st)"
    by (rule commit_row_put [OF d r]) (simp add: f)
  then have st': "st' = insert_author ca (c_id r) (Suc (c_revision r)) (insert_transition
      (log_row h (c_id r) (Suc (c_revision r)) (Some (c_status r)) (c_status r) (js_trim reason) (ca_actor ca) [] False)
      (g (put_claim (?f r) st)))"
    using ok why by (simp add: commit_change_def required_text_def norm_text_def)
  show "committed st r (?f r)
      (log_row h (c_id r) (Suc (c_revision r)) (Some (c_status r)) (c_status r) (js_trim reason) (ca_actor ca) [] False)
      [] (k (s_components st)) st'"
    using st' r by (simp add: committed_def successor_def f log_row_def legal_entry_def g)
qed

section \<open>Rows and links under a change\<close>

lemma committed_claims:
  "committed st r r' t es ks st' \<Longrightarrow>
   set (s_claims st') = insert r' {c \<in> set (s_claims st). c_id c \<noteq> c_id r}"
  by (simp add: committed_def successor_def set_put_claim)

lemma committed_ids: "committed st r r' t es ks st' \<Longrightarrow> map c_id (s_claims st') = map c_id (s_claims st)"
  by (simp add: committed_def)

lemma committed_id_set: "committed st r r' t es ks st' \<Longrightarrow> c_id ` set (s_claims st') = c_id ` set (s_claims st)"
  by (metis committed_ids list.set_map)

lemma duplicates_committed:
  assumes d: "distinct (map c_id (s_claims st))" and dup: "\<forall>x\<in>set (s_claims st). duplicate_ok st x"
    and c: "committed st r r' t es ks st'" and own: "duplicate_ok st r'"
    and target: "c_duplicateOf r' = None \<or> (\<forall>x\<in>set (s_claims st). c_duplicateOf x \<noteq> Some (c_id r))"
  shows "\<forall>x\<in>set (s_claims st'). duplicate_ok st' x"
proof
  have r: "r \<in> set (s_claims st)" "c_id r' = c_id r" "c_workspace r' = c_workspace r" "c_subject r' = c_subject r"
    using c by (auto simp: committed_def successor_def)
  have keep: "duplicate_ok st' x"
    if x: "duplicate_ok st x" and ne: "c_duplicateOf x = Some (c_id r) \<Longrightarrow> c_duplicateOf r' = None" for x
  proof (cases "c_duplicateOf x")
    case (Some p)
    then obtain q where q: "q \<in> set (s_claims st)" "c_id q = p" "c_workspace q = c_workspace x"
        "c_subject q = c_subject x" "c_duplicateOf q = None" "trimmed p" "p \<noteq> c_id x"
      using x by (auto simp: duplicate_ok_def)
    define q' where "q' = (if c_id q = c_id r then r' else q)"
    have "q' \<in> set (s_claims st')"
      using q(1) by (simp add: q'_def committed_claims [OF c])
    moreover have "c_id q = c_id r \<Longrightarrow> q = r"
      using distinct_row [OF d r(1) q(1)] by simp
    then have "c_id q' = p \<and> c_workspace q' = c_workspace x \<and> c_subject q' = c_subject x \<and> c_duplicateOf q' = None"
      using q r ne Some by (auto simp: q'_def)
    ultimately show ?thesis
      using Some q(6,7) by (auto simp: duplicate_ok_def)
  qed (simp add: duplicate_ok_def)
  fix x assume "x \<in> set (s_claims st')"
  then consider "x = r'" | "x \<in> set (s_claims st)"
    unfolding committed_claims [OF c] by blast
  then show "duplicate_ok st' x"
  proof cases
    case 1
    have "c_duplicateOf r' \<noteq> Some (c_id r)"
      using own r(2) by (auto simp: duplicate_ok_def)
    then show ?thesis using keep [of r'] own 1 by simp
  next
    case 2
    then show ?thesis using keep [of x] target dup by blast
  qed
qed

lemma claim_invD:
  assumes "claim_inv d st"
  shows "history_inv st" "distinct (map c_id (s_claims st))" "c \<in> set (s_claims st) \<Longrightarrow> row_ok d c"
    "\<forall>c\<in>set (s_claims st). duplicate_ok st c" "acyclic (set (component_edges st))"
    "x \<in> set (s_components st) \<Longrightarrow> k_claim x \<in> c_id ` set (s_claims st)"
    "x \<in> set (s_components st) \<Longrightarrow> k_component x \<in> c_id ` set (s_claims st)"
  using assms by (simp_all add: claim_inv_def links_inv_def history_inv_def)

text \<open>What an operation has to show for its new row and its new component rows.\<close>

lemma claim_inv_committed:
  assumes inv: "claim_inv d st" and c: "committed st r r' t es ks st'" and f: "fresh_ids st es"
    and row: "row_ok d r'" and own: "duplicate_ok st r'"
    and target: "c_duplicateOf r' = None \<or> (\<forall>x\<in>set (s_claims st). c_duplicateOf x \<noteq> Some (c_id r))"
    and ks: "acyclic (set (map (\<lambda>r. (k_claim r, k_component r)) ks))"
      "\<And>x. x \<in> set ks \<Longrightarrow> k_claim x \<in> c_id ` set (s_claims st) \<and> k_component x \<in> c_id ` set (s_claims st)"
  shows "claim_inv d st'"
proof -
  have "s_components st' = ks"
    using c by (simp add: committed_def)
  moreover have "\<forall>x\<in>set (s_claims st'). row_ok d x"
    using claim_invD(3) [OF inv] row unfolding committed_claims [OF c] by blast
  ultimately show ?thesis
    using history_committed [OF claim_invD(1) [OF inv] c f]
      duplicates_committed [OF claim_invD(2) [OF inv] claim_invD(4) [OF inv] c own target] ks
    unfolding claim_inv_def links_inv_def component_edges_def committed_id_set [OF c] by blast
qed

lemma claim_inv_same_links:
  assumes inv: "claim_inv d st" and c: "committed st r r' t es (s_components st) st'" and f: "fresh_ids st es"
    and row: "row_ok d r'" and same: "c_duplicateOf r' = c_duplicateOf r"
  shows "claim_inv d st'"
proof (rule claim_inv_committed [OF inv c f row])
  have r: "r \<in> set (s_claims st)" "c_id r' = c_id r" "c_workspace r' = c_workspace r" "c_subject r' = c_subject r"
    using c by (auto simp: committed_def successor_def)
  then show own: "duplicate_ok st r'"
    using claim_invD(4) [OF inv] same by (auto simp: duplicate_ok_def split: option.splits)
  show "c_duplicateOf r' = None \<or> (\<forall>x\<in>set (s_claims st). c_duplicateOf x \<noteq> Some (c_id r))"
  proof (rule ccontr)
    assume "\<not> ?thesis"
    then obtain x where x: "x \<in> set (s_claims st)" "c_duplicateOf x = Some (c_id r)" "c_duplicateOf r \<noteq> None"
      using same by auto
    then obtain q where "q \<in> set (s_claims st)" "c_id q = c_id r" "c_duplicateOf q = None"
      using claim_invD(4) [OF inv] by (fastforce simp: duplicate_ok_def)
    then show False
      using x(3) distinct_row [OF claim_invD(2) [OF inv] r(1)] by metis
  qed
qed (use claim_invD(5,6,7) [OF inv] in \<open>simp_all add: component_edges_def\<close>)

end
