(* ===== verification/Claim_Preserve.thy ===== *)
theory Claim_Preserve
  imports Claim_Steps
begin

text \<open>
  The security tracking that the operations write is well formed, and every operation keeps the
  invariant of the ledger.
\<close>

section \<open>Tracking\<close>

lemma unique_strings_wf: "unique_strings xs l = Inr ys \<Longrightarrow> names ys"
proof -
  assume "unique_strings xs l = Inr ys"
  then obtain zs where zs: "rmap (\<lambda>x. required_text (Some x) l) xs = Inr zs" "ys = js_dedup zs"
    by (auto simp: unique_strings_def rbind_Inr_iff)
  have "\<forall>z\<in>set zs. trimmed z"
    using rmap_Inr_member [OF zs(1)] trimmed_required by blast
  then show ?thesis
    by (simp add: zs(2) names_def list_all_iff)
qed

lemma nullable_trimmed: "opt_trimmed (nullable_string v)"
  by (auto simp: opt_trimmed_def nullable_string_def split: option.split dest: trimmed_norm)

lemma norm_text_trimmed: "opt_trimmed (norm_text v)"
  by (auto simp: opt_trimmed_def split: option.split dest: trimmed_norm)

lemma keep_or_trimmed: "opt_trimmed d \<Longrightarrow> opt_trimmed (keep_or v d)"
  by (cases v) (simp_all add: keep_or_def norm_text_trimmed)

lemma iso_timestamp_wf: "iso_timestamp d v l = Inr t \<Longrightarrow> stamp d t"
  by (auto simp: iso_timestamp_def rbind_Inr_iff ensure_Inr_iff stamp_def dest: trimmed_required)

lemma require_string_wf: "require_string v l = Inr t \<Longrightarrow> trimmed t"
  by (auto simp: require_string_def dest: trimmed_required)

lemma stored_cvss_wf: "stored_cvss d j = Inr v \<Longrightarrow> cvss_wf d v"
  unfolding stored_cvss_def rbind_Inr_iff ensure_Inr_iff
  by (elim exE conjE, drule sym)
    (simp add: cvss_wf_def nullable_trimmed require_string_wf iso_timestamp_wf)

lemma stored_reference_wf: "stored_reference j = Inr x \<Longrightarrow> reference_wf x"
  unfolding stored_reference_def rbind_Inr_iff ensure_Inr_iff Let_def
  by (elim exE conjE, drule sym) (simp add: reference_wf_def nullable_trimmed require_string_wf)

lemma stored_references_wf: "rmap stored_reference js = Inr xs \<Longrightarrow> x \<in> set xs \<Longrightarrow> reference_wf x"
  by (drule (1) rmap_Inr_member) (auto intro: stored_reference_wf)

lemma revised_reachability_wf:
  assumes "revised_reachability h cur u actor = Inr r" "trimmed actor"
    "opt_trimmed (c_source cur)" "opt_trimmed (c_environment cur)"
  shows "reach_wf (h_date h) r"
proof -
  obtain s where s: "finding_reachability_state (Some (ru_state u)) = Inr s"
    using assms(1) by (auto simp: revised_reachability_def rbind_Inr_iff)
  show ?thesis
  proof (cases "s = Not_assessed")
    case True
    then have "r = empty_reachability"
      using assms(1) s by (auto simp: revised_reachability_def)
    then show ?thesis
      by (simp add: reach_wf_def empty_reachability_def)
  next
    case False
    then show ?thesis
      using assms s unfolding revised_reachability_def
      by (auto simp: rbind_Inr_iff ensure_Inr_iff reach_wf_def keep_or_trimmed opt_trimmed_def [of "Some actor"]
          dest: unique_strings_wf iso_timestamp_wf trimmed_required)
  qed
qed

lemma revised_blocker_wf:
  assumes "revised_blocker h actor u old = Inr b" "blocker_wf (h_date h) old" "trimmed actor"
    "stamp (h_date h) (h_now h)"
  shows "blocker_wf (h_date h) b"
  using assms unfolding revised_blocker_def
  by (auto simp: rbind_Inr_iff blocker_wf_def split: option.splits dest: trimmed_required)

lemma revised_reportability_wf:
  assumes "revised_reportability h actor u old = Inr b" "reportability_wf old" "trimmed actor"
    "stamp (h_date h) (h_now h)"
  shows "reportability_wf b"
  using assms unfolding revised_reportability_def
  by (auto simp: rbind_Inr_iff reportability_wf_def stamp_def split: option.splits
      dest: trimmed_required unique_strings_wf)

lemma revised_names_wf: "revised_names u l old = Inr xs \<Longrightarrow> names old \<Longrightarrow> names xs"
  by (auto simp: revised_names_def split: option.splits dest: unique_strings_wf)

lemma base_tracking_wf: "(\<And>t. c_tracking c = Some t \<Longrightarrow> tracking_wf d t) \<Longrightarrow> tracking_wf d (base_tracking c)"
  by (auto simp: base_tracking_def empty_tracking_wf split: option.split)

lemma visible_tracking_wf:
  "(\<And>t. tr = Some t \<Longrightarrow> tracking_wf d t) \<Longrightarrow> visible_tracking c tr = Some t \<Longrightarrow> tracking_wf d t"
  by (auto simp: visible_tracking_def empty_tracking_wf split: if_splits option.splits)

lemma updated_tracking_wf:
  assumes ok: "updated_tracking h ca cur u = Inr t" and base: "tracking_wf (h_date h) (base_tracking cur)"
    and a: "trimmed (resolved_actor ca)" and now: "stamp (h_date h) (h_now h)"
    and c: "opt_trimmed (c_source cur)" "opt_trimmed (c_environment cur)"
  shows "tracking_wf (h_date h) t"
proof -
  let ?b = "base_tracking cur" and ?a = "resolved_actor ca"
  obtain reach cv as su pb rp tb xs where
    reach: "(case tu_reachability u of None \<Rightarrow> Inr (st_reachability ?b) | Some r \<Rightarrow> revised_reachability h cur r ?a) = Inr reach"
    and cv: "(case tu_cvss u of None \<Rightarrow> Inr (st_cvss ?b)
         | Some kvs \<Rightarrow> rbind (revised_cvss h kvs ?a) (\<lambda>v. Inr (js_dedup (st_cvss ?b @ [v])))) = Inr cv"
    and names: "revised_names (tu_assets u) L_asset (st_assets ?b) = Inr as"
      "revised_names (tu_surfaces u) L_surface (st_surfaces ?b) = Inr su"
    and pb: "revised_blocker h ?a (tu_progressBlocker u) (st_progressBlocker ?b) = Inr pb"
    and rp: "revised_reportability h ?a (tu_reportability u) (st_reportability ?b) = Inr rp"
    and tb: "revised_blocker h ?a (tu_triageBlocker u) (st_triageBlocker ?b) = Inr tb"
    and xs: "(case tu_references u of None \<Rightarrow> Inr (st_references ?b)
         | Some js \<Rightarrow> rbind (rmap stored_reference js) (\<lambda>xs. Inr (js_dedup xs))) = Inr xs"
    and t: "t = \<lparr>st_reachability = reach, st_cvss = cv, st_assets = as, st_surfaces = su,
          st_progressBlocker = pb, st_reportability = rp, st_triageBlocker = tb,
          st_packet = (if tu_reportability u = None then st_packet ?b else None), st_references = xs\<rparr>"
    using ok unfolding updated_tracking_def Let_def rbind_Inr_iff sum.inject(2)
    by (elim exE conjE) (rule that, assumption+, erule sym)
  have b: "reach_wf (h_date h) (st_reachability ?b)" "distinct (st_cvss ?b)" "list_all (cvss_wf (h_date h)) (st_cvss ?b)"
    "names (st_assets ?b)" "names (st_surfaces ?b)" "blocker_wf (h_date h) (st_progressBlocker ?b)"
    "reportability_wf (st_reportability ?b)" "blocker_wf (h_date h) (st_triageBlocker ?b)"
    "packet_wf (st_packet ?b)" "distinct (st_references ?b)" "list_all reference_wf (st_references ?b)"
    using base by (simp_all add: tracking_wf_def)
  have "reach_wf (h_date h) reach"
    using reach b(1) a c by (auto split: option.splits dest: revised_reachability_wf)
  moreover have "distinct cv \<and> list_all (cvss_wf (h_date h)) cv"
    using cv b(2,3) by (auto simp: rbind_Inr_iff list_all_iff revised_cvss_def split: option.splits dest: stored_cvss_wf)
  moreover have "distinct xs \<and> list_all reference_wf xs"
    using xs b(10,11) by (auto simp: rbind_Inr_iff list_all_iff split: option.splits
        dest: stored_references_wf)
  moreover have "names as" "names su"
    using names b(4,5) revised_names_wf by blast+
  moreover have "blocker_wf (h_date h) pb" "blocker_wf (h_date h) tb" "reportability_wf rp"
    using revised_blocker_wf [OF pb b(6) a now] revised_blocker_wf [OF tb b(8) a now]
      revised_reportability_wf [OF rp b(7) a now] by auto
  ultimately show ?thesis
    using b(9) by (simp add: t tracking_wf_def packet_wf_def)
qed

lemma revised_tracking_wf:
  assumes "revised_tracking h ca cur cls u = Inr tr" "tr = Some t"
    "tracking_wf (h_date h) (base_tracking cur)" "trimmed (resolved_actor ca)" "stamp (h_date h) (h_now h)"
    "opt_trimmed (c_source cur)" "opt_trimmed (c_environment cur)"
  shows "tracking_wf (h_date h) t"
  using assms unfolding revised_tracking_def
  by (auto simp: rbind_Inr_iff ensure_Inr_iff split: if_splits option.splits dest: updated_tracking_wf)

lemma transition_tracking_wf:
  assumes ok: "transition_tracking cur i cls = Inr tr" "tr = Some t" and b: "tracking_wf d (base_tracking cur)"
  shows "tracking_wf d t"
proof -
  obtain su where su: "names su" and t: "t = (base_tracking cur)\<lparr>st_surfaces := su, st_progressBlocker :=
      (if ti_to i = Observed \<or> ti_to i = Reproduced then st_progressBlocker (base_tracking cur) else None)\<rparr>"
    using ok b unfolding transition_tracking_def
    by (auto simp: rbind_Inr_iff tracking_wf_def split: if_splits dest: unique_strings_wf)
  show ?thesis
    using b su by (simp add: t tracking_wf_def blocker_wf_def)
qed

section \<open>Status changes\<close>

text \<open>The host of an operation, and a caller whose name the tracking records.\<close>

definition plain :: "string \<Rightarrow> bool" where
  "plain s \<longleftrightarrow> list_all (\<lambda>c. \<not> is_ws c) s"

definition good_host :: "(string \<Rightarrow> bool) \<Rightarrow> host \<Rightarrow> claim_store \<Rightarrow> bool" where
  "good_host d h st \<longleftrightarrow> h_date h = d \<and> stamp d (h_now h) \<and> fresh_host h st \<and> (\<forall>s. plain (h_sha h s))"

lemma claim_classification_Inr:
  "claim_classification v = Inr c \<Longrightarrow> trimmed c \<and> stable_identifier c"
  by (auto simp: claim_classification_def rbind_Inr_iff ensure_Inr_iff need_Inr_iff dest: trimmed_norm)

lemma row_okD:
  assumes "row_ok d c"
  shows "c_status c = Stale \<longleftrightarrow> c_staleFrom c \<noteq> None" "set_option (c_staleFrom c) \<subseteq> set stale_statuses"
    "c_status c = Stale \<longleftrightarrow> c_staleReason c \<noteq> None"
    "c_status c \<in> set reproduced_or_later \<Longrightarrow> js_trim (c_steps c) \<noteq> []"
    "stable_identifier (c_classification c)" "trimmed (c_classification c)" "trimmed (c_title c)"
    "number_upto 1 (c_confidence c)" "opt_trimmed (c_source c)" "opt_trimmed (c_environment c)"
    "c_tracking c = Some t \<Longrightarrow> tracking_wf d t" "c_id c \<noteq> []"
  using assms by (auto simp: row_ok_def)

lemma view_tracking_wf: "row_ok d r \<Longrightarrow> tracking_wf d (base_tracking (view_of h st r))"
  by (rule base_tracking_wf) (auto intro: visible_tracking_wf dest: row_okD(11))

lemma reviewed_simps [simp]:
  "c_id (reviewed_content v i cls) = c_id v" "c_workspace (reviewed_content v i cls) = c_workspace v"
  "c_classification (reviewed_content v i cls) = cls"
  "c_revision (reviewed_content v i cls) = c_revision v"
  by (simp_all add: reviewed_content_def)

lemma allowed_stale: "Stale \<in> set (allowed_transitions s) \<Longrightarrow> s \<in> set stale_statuses"
  by (cases s) (simp_all add: stale_statuses_def)

lemma transition_row_ok:
  assumes r: "row_ok d r" and cls: "trimmed cls" "stable_identifier cls"
    and tr: "\<And>t. tr = Some t \<Longrightarrow> tracking_wf d t"
    and a: "c_status r = ti_to i \<or> ti_to i \<in> set (allowed_transitions (c_status r))"
    and steps: "ti_to i \<in> set reproduced_or_later \<Longrightarrow> js_trim (c_steps (reviewed_content (view_of h st r) i cls)) \<noteq> []"
  shows "row_ok d (transition_row_update h (view_of h st r) i cls tr (stale_note i) r)"
proof -
  let ?v = "view_of h st r"
  have from_ok: "set_option (c_staleFrom r) \<subseteq> set stale_statuses" "c_status r = Stale \<Longrightarrow> c_staleFrom r \<noteq> None"
    using row_okD(1,2) [OF r] by auto
  have "opt_trimmed (c_source (reviewed_content ?v i cls)) \<and> opt_trimmed (c_environment (reviewed_content ?v i cls))"
    using row_okD(9,10) [OF r] by (simp add: reviewed_content_def keep_or_trimmed)
  moreover have "ti_to i = Stale \<Longrightarrow> c_status r \<noteq> Stale \<Longrightarrow> c_status r \<in> set stale_statuses"
    using a allowed_stale by auto
  ultimately show ?thesis
    using from_ok row_okD(5,6,7,8,12) [OF r] cls tr steps
    unfolding row_ok_def transition_row_update_def stale_note_def by auto
qed

lemma given_classification:
  "trimmed c \<Longrightarrow> stable_identifier c \<Longrightarrow> claim_classification (Some c) = Inr c"
  by (simp add: claim_classification_def)

text \<open>The step of a transition, in the form the invariant and the contracts use.\<close>

lemma transition_committed:
  assumes inv: "claim_inv d st" and ok: "transition h ca st k i = Inr st'"
  obtains r cls tr new where
    "find_row h st k = Some r" "c_status r = ti_to i \<or> ti_to i \<in> set (allowed_transitions (c_status r))"
    "c_duplicateOf r = None" "c_revision r = ti_expected i"
    "claim_classification (Some (case ti_classification i of None \<Rightarrow> c_classification r | Some c \<Rightarrow> c)) = Inr cls"
    "transition_tracking (view_of h st r) i cls = Inr tr"
    "validate_transition_evidence h st (reviewed_content (view_of h st r) i cls) (components_of st k) i
       (map evidence.truncate (v_evidence (view_of h st r)) @ new) = Inr ()"
    "length new = length (ti_evidence i)" "\<And>e. e \<in> set new \<Longrightarrow> e_claim e = k"
    "\<And>e. e \<in> set new \<Longrightarrow> \<exists>n. e_id e = pending_id n"
    "c_status r = ti_to i \<Longrightarrow> ti_evidence i \<noteq> []"
    "committed st r (transition_row_update h (view_of h st r) i cls tr (stale_note i) r)
      (log_row h k (Suc (c_revision r)) (Some (c_status r)) (ti_to i) (js_trim (ti_reason i)) (ca_actor ca)
        (map e_id (with_ids h new)) False) (with_ids h new) (s_components st) st'"
proof -
  obtain r where r: "find_row h st k = Some r" and ok: "transition_from h ca st (view_of h st r) i = Inr st'"
    using ok by (auto simp: transition_def rbind_Inr_iff need_Inr_iff claim_get_def)
  have mem: "r \<in> set (s_claims st)" "c_id r = k"
    using find_row_Some [OF r] by auto
  have dup: "c_duplicateOf r = None \<or> truthy (c_duplicateOf r)"
    using claim_invD(4) [OF inv] mem(1) by (auto simp: duplicate_ok_def truthy_def trimmed_def split: option.splits)
  show thesis
  proof (rule transition_from_Inr [OF ok])
    fix new0 cls tr new
    let ?v = "view_of h st r"
    assume a: "\<not> truthy (c_duplicateOf ?v)" "c_revision ?v = ti_expected i"
      "c_status ?v = ti_to i \<or> ti_to i \<in> set (allowed_transitions (c_status ?v))"
      "c_status ?v = ti_to i \<Longrightarrow> ti_evidence i \<noteq> []"
      "normalize_evidence h ca (c_id ?v) (ti_evidence i) = Inr new0"
      "claim_classification (Some (case ti_classification i of None \<Rightarrow> c_classification ?v | Some c \<Rightarrow> c)) = Inr cls"
      "transition_tracking ?v i cls = Inr tr"
      "new = map (bind_review (claim_verification_hash h (reviewed_content ?v i cls) (v_components ?v))) new0"
      "validate_transition_evidence h st (reviewed_content ?v i cls) (v_components ?v) i
         (map evidence.truncate (v_evidence ?v) @ new) = Inr ()"
      "commit_transition h ca st ?v i cls tr new = Inr st'"
    have claims: "\<forall>e\<in>set new. e_claim e = c_id r"
      using normalize_claims(1) [OF a(5)] by (auto simp: a(8))
    have allowed: "c_status r = ti_to i \<or> ti_to i \<in> set (allowed_transitions (c_status r))"
      using a(3) by simp
    show thesis
    proof (rule that)
      show "find_row h st k = Some r" by (rule r)
      show "c_status r = ti_to i \<or> ti_to i \<in> set (allowed_transitions (c_status r))" by (rule allowed)
      show "c_duplicateOf r = None" using dup a(1) by auto
      show "committed st r (transition_row_update h ?v i cls tr (stale_note i) r)
        (log_row h k (Suc (c_revision r)) (Some (c_status r)) (ti_to i) (js_trim (ti_reason i)) (ca_actor ca)
          (map e_id (with_ids h new)) False) (with_ids h new) (s_components st) st'"
        using commit_transition_shape(1) [OF claim_invD(2) [OF inv] mem(1) a(10) claims allowed] mem(2) by simp
      show "length new = length (ti_evidence i)"
        using normalize_length [OF a(5)] by (simp add: a(8))
      show "validate_transition_evidence h st (reviewed_content ?v i cls) (components_of st k) i
         (map evidence.truncate (v_evidence ?v) @ new) = Inr ()"
        using a(9) mem(2) by simp
      show "\<And>e. e \<in> set new \<Longrightarrow> e_claim e = k"
        using claims mem(2) by blast
      show "\<And>e. e \<in> set new \<Longrightarrow> \<exists>n. e_id e = pending_id n"
        using normalize_claims(3) [OF a(5)] by (auto simp: a(8))
      show "c_revision r = ti_expected i" using a(2) by simp
      show "c_status r = ti_to i \<Longrightarrow> ti_evidence i \<noteq> []" using a(4) by simp
      show "claim_classification (Some (case ti_classification i of None \<Rightarrow> c_classification r | Some c \<Rightarrow> c)) = Inr cls"
        using a(6) by (simp cong: option.case_cong)
      show "transition_tracking ?v i cls = Inr tr" by (rule a(7))
    qed
  qed
qed

lemma transition_inv:
  assumes inv: "claim_inv d st" and h: "good_host d h st" and ok: "transition h ca st k i = Inr st'"
  shows "claim_inv d st'"
proof (rule transition_committed [OF inv ok])
  fix r cls tr new
  assume r: "find_row h st k = Some r"
    and allowed: "c_status r = ti_to i \<or> ti_to i \<in> set (allowed_transitions (c_status r))"
    and cls: "claim_classification (Some (case ti_classification i of None \<Rightarrow> c_classification r | Some c \<Rightarrow> c)) = Inr cls"
    and tr: "transition_tracking (view_of h st r) i cls = Inr tr"
    and gate: "validate_transition_evidence h st (reviewed_content (view_of h st r) i cls) (components_of st k) i
       (map evidence.truncate (v_evidence (view_of h st r)) @ new) = Inr ()"
    and c: "committed st r (transition_row_update h (view_of h st r) i cls tr (stale_note i) r)
      (log_row h k (Suc (c_revision r)) (Some (c_status r)) (ti_to i) (js_trim (ti_reason i)) (ca_actor ca)
        (map e_id (with_ids h new)) False) (with_ids h new) (s_components st) st'"
  have row: "row_ok d r"
    using find_row_Some [OF r] claim_invD(3) [OF inv] by blast
  show "claim_inv d st'"
  proof (rule claim_inv_same_links [OF inv c fresh_with_ids])
    show "fresh_host h st" using h by (simp add: good_host_def)
    show "row_ok d (transition_row_update h (view_of h st r) i cls tr (stale_note i) r)"
      using claim_classification_Inr [OF cls] transition_tracking_wf [OF tr _ view_tracking_wf [OF row]]
        gate [unfolded gate_Inr] allowed
      by (intro transition_row_ok [OF row]) blast+
    show "c_duplicateOf (transition_row_update h (view_of h st r) i cls tr (stale_note i) r) = c_duplicateOf r"
      by (simp add: transition_row_update_def)
  qed
qed

end
