(* ===== verification/Claim_Ledger.thy ===== *)
theory Claim_Ledger
  imports Claim_Preserve
begin

text \<open>
  The remaining operations of the claim ledger keep its invariant; the ledger as a transition
  system, and the invariant of its reachable states.
\<close>

section \<open>Rewiring an acyclic graph\<close>

lemma rtrancl_rewire:
  assumes "(x, k) \<in> (E \<union> {k} \<times> C)\<^sup>*" shows "(x, k) \<in> E\<^sup>*"
  using assms
proof (induction rule: converse_rtrancl_induct)
  case (step x y)
  then show ?case by (cases "x = k") (auto intro: converse_rtrancl_into_rtrancl)
qed simp

lemma acyclic_add_targets:
  assumes "acyclic E" "\<And>c. c \<in> set cs \<Longrightarrow> (c, k) \<notin> E\<^sup>*" shows "acyclic (E \<union> {k} \<times> set cs)"
  using assms(2)
proof (induction cs)
  case (Cons c cs)
  have "(c, k) \<notin> (E \<union> {k} \<times> set cs)\<^sup>*"
    using Cons.prems rtrancl_rewire by (metis list.set_intros(1))
  moreover have "E \<union> {k} \<times> set (c # cs) = insert (k, c) (E \<union> {k} \<times> set cs)"
    by auto
  ultimately show ?case
    using Cons by (simp add: acyclic_insert)
qed (simp add: assms(1))

lemma new_component_rows:
  "map (\<lambda>r. (k_claim r, k_component r))
     (map (\<lambda>(n, x). \<lparr>k_claim = k, k_component = x, k_position = n\<rparr>) (enumerate m ks)) = map (Pair k) ks"
  by (induction ks arbitrary: m) auto

lemma written_edges:
  "set (component_edges (write_components k ks st)) =
     {e \<in> set (component_edges st). fst e \<noteq> k} \<union> {k} \<times> set ks"
proof -
  have "component_edges (write_components k ks st) =
      filter (\<lambda>e. fst e \<noteq> k) (component_edges st) @ map (Pair k) ks"
    unfolding component_edges_def write_components_def by (simp add: new_component_rows [of k 0 ks, unfolded map_map o_def] filter_map o_def)
  then show ?thesis by auto
qed

lemma acyclic_written:
  assumes a: "acyclic (set (component_edges st))"
    and c: "\<And>c. c \<in> set ks \<Longrightarrow> (c, k) \<notin> (set (component_edges st))\<^sup>*"
  shows "acyclic (set (component_edges (write_components k ks st)))"
  unfolding written_edges
proof (rule acyclic_add_targets)
  let ?E = "{e \<in> set (component_edges st). fst e \<noteq> k}"
  show "acyclic ?E"
    by (rule acyclic_subset [OF a]) auto
  show "(c, k) \<notin> ?E\<^sup>*" if "c \<in> set ks" for c
    using c [OF that] rtrancl_mono [of ?E "set (component_edges st)"] by blast
qed

section \<open>Components\<close>

lemma check_components_Inr:
  "check_components h st self ks = Inr u \<longleftrightarrow>
     (\<forall>k\<in>set ks. self \<noteq> Some k \<and> good_component h st k
        \<and> (truthy self \<longrightarrow> (k, the self) \<notin> (set (component_edges st))\<^sup>+))"
  by (induction ks) (auto simp: ensure_Inr_iff dependencies_trancl truthy_def)

lemma good_component_exists: "good_component h st k \<Longrightarrow> k \<in> c_id ` set (s_claims st)"
  by (auto simp: good_component_def claim_get_def split: option.splits dest!: find_row_Some)

lemma validated_components_Inr:
  assumes "validated_components h st cls ks self = Inr us"
  shows "k \<in> set us \<Longrightarrow> k \<in> c_id ` set (s_claims st)"
    "k \<in> set us \<Longrightarrow> self = Some x \<Longrightarrow> x \<noteq> [] \<Longrightarrow> (k, x) \<notin> (set (component_edges st))\<^sup>*"
    "cls = chain_class \<longleftrightarrow> us \<noteq> []" "length us \<le> 8" "distinct us"
proof -
  obtain zs where zs: "unique_strings ks L_component = Inr zs" and len: "length ks \<le> 8"
    and "if cls \<noteq> chain_class then us = [] else zs \<noteq> [] \<and> us = zs \<and> check_components h st self us = Inr ()"
    using assms by (auto simp: validated_components_def rbind_Inr_iff ensure_Inr_iff split: if_splits)
  then have us: "us = [] \<or> us = zs \<and> check_components h st self us = Inr ()" "cls = chain_class \<longleftrightarrow> us \<noteq> []"
    by (auto split: if_splits)
  then show "cls = chain_class \<longleftrightarrow> us \<noteq> []" by simp
  show "k \<in> set us \<Longrightarrow> k \<in> c_id ` set (s_claims st)"
    using us(1) good_component_exists by (auto simp: check_components_Inr)
  show "(k, x) \<notin> (set (component_edges st))\<^sup>*" if "k \<in> set us" "self = Some x" "x \<noteq> []"
    using us(1) that by (auto simp: check_components_Inr truthy_def rtrancl_eq_or_trancl)
  have "length zs \<le> length ks"
    using zs by (auto simp: unique_strings_def rbind_Inr_iff rmap_Inr_all2 dest!: list_all2_lengthD)
      (metis length_js_dedup)
  then show "length us \<le> 8" using us(1) len by auto
  show "distinct us" using us(1) unique_strings_wf [OF zs] by (auto simp: names_def)
qed

section \<open>Operations that keep the status\<close>

lemma row_ok_stamp [simp]: "row_ok d (c\<lparr>c_updatedAt := t, c_revision := n\<rparr>) = row_ok d c"
  by (simp add: row_ok_def)

lemma row_ok_link [simp]: "row_ok d (c\<lparr>c_duplicateOf := p, c_duplicateAt := a\<rparr>) = row_ok d c"
  by (simp add: row_ok_def)

lemma row_ok_tracking: "row_ok d c \<Longrightarrow> tracking_wf d t \<Longrightarrow> row_ok d (c\<lparr>c_tracking := Some t\<rparr>)"
  by (auto simp: row_ok_def)

lemma fresh_ids_Nil [simp]: "fresh_ids st []"
  by (simp add: fresh_ids_def)

lemma not_truthy_duplicate:
  assumes "claim_inv d st" "r \<in> set (s_claims st)" "\<not> truthy (c_duplicateOf r)"
  shows "c_duplicateOf r = None"
  using claim_invD(4) [OF assms(1)] assms(2,3)
  by (auto simp: duplicate_ok_def truthy_def trimmed_def split: option.splits)

lemma mark_duplicate_committed:
  assumes inv: "claim_inv d st" and ok: "mark_duplicate h ca st k n parent reason = Inr st'"
  obtains r p q where "find_row h st k = Some r" "c_revision r = n" "c_duplicateOf r = None"
    "p = js_trim parent" "p \<noteq> k" "trimmed p" "find_row h st p = Some q" "c_subject q = c_subject r"
    "c_duplicateOf q = None" "\<forall>x\<in>set (s_claims st). c_duplicateOf x \<noteq> Some k"
    "committed st r (r\<lparr>c_duplicateOf := Some p, c_duplicateAt := Some (h_now h), c_updatedAt := h_now h,
        c_revision := Suc (c_revision r)\<rparr>)
      (log_row h k (Suc (c_revision r)) (Some (c_status r)) (c_status r) (js_trim reason) (ca_actor ca) [] False)
      [] (s_components st) st'"
proof -
  obtain r q p where r: "find_row h st k = Some r" "c_revision r = n" "\<not> truthy (c_duplicateOf r)"
      "required_text (Some parent) L_parent = Inr p" "p \<noteq> k" "find_row h st p = Some q"
      "c_subject q = c_subject r" "\<not> truthy (c_duplicateOf q)" "duplicates_of st (c_workspace r) (c_id r) = []"
      "commit_change h ca st (view_of h st r) reason
         (\<lambda>r. r\<lparr>c_duplicateOf := Some p, c_duplicateAt := Some (h_now h)\<rparr>) id = Inr st'"
    using ok unfolding mark_duplicate_def claim_get_def guard_simps by auto
  have mem: "r \<in> set (s_claims st)" "c_id r = k" "q \<in> set (s_claims st)"
    using find_row_Some r by blast+
  have none: "\<forall>x\<in>set (s_claims st). c_duplicateOf x \<noteq> Some k"
  proof
    fix x assume x: "x \<in> set (s_claims st)"
    show "c_duplicateOf x \<noteq> Some k"
    proof
      assume dup: "c_duplicateOf x = Some k"
      then obtain y where "y \<in> set (s_claims st)" "c_id y = k" "c_workspace y = c_workspace x"
        using claim_invD(4) [OF inv] x by (fastforce simp: duplicate_ok_def)
      then have "c_workspace x = c_workspace r"
        using distinct_row [OF claim_invD(2) [OF inv] mem(1)] mem(2) by metis
      then show False using r(9) x dup mem(2) by auto
    qed
  qed
  show thesis
  proof (rule that [OF r(1,2) _ _ r(5) _ r(6,7) _ none])
    show "p = js_trim parent" "trimmed p"
      using r(4) by (auto simp: required_text_Inr trimmed_def)
    show "c_duplicateOf r = None" "c_duplicateOf q = None"
      using not_truthy_duplicate [OF inv] mem r by blast+
    show "committed st r (r\<lparr>c_duplicateOf := Some p, c_duplicateAt := Some (h_now h), c_updatedAt := h_now h,
        c_revision := Suc (c_revision r)\<rparr>)
      (log_row h k (Suc (c_revision r)) (Some (c_status r)) (c_status r) (js_trim reason) (ca_actor ca) [] False)
      [] (s_components st) st'"
      using commit_change_shape(1) [OF claim_invD(2) [OF inv] mem(1) r(10), of "\<lambda>x. x"] mem(2) by simp
  qed
qed

lemma mark_duplicate_inv:
  assumes inv: "claim_inv d st" and ok: "mark_duplicate h ca st k n parent reason = Inr st'"
  shows "claim_inv d st'"
proof (rule mark_duplicate_committed [OF inv ok])
  fix r q :: claim and p
  let ?r' = "r\<lparr>c_duplicateOf := Some p, c_duplicateAt := Some (h_now h), c_updatedAt := h_now h,
        c_revision := Suc (c_revision r)\<rparr>"
  assume r: "find_row h st k = Some r" "p \<noteq> k" "trimmed p" "find_row h st p = Some q" "c_subject q = c_subject r"
    "c_duplicateOf q = None" and none: "\<forall>x\<in>set (s_claims st). c_duplicateOf x \<noteq> Some k"
    and c: "committed st r ?r' (log_row h k (Suc (c_revision r)) (Some (c_status r)) (c_status r) (js_trim reason)
      (ca_actor ca) [] False) [] (s_components st) st'"
  note mem = find_row_Some [OF r(1)] find_row_Some [OF r(4)]
  have "row_ok d r" using claim_invD(3) [OF inv] mem by blast
  then have "row_ok d ?r'" by simp
  moreover have "duplicate_ok st ?r'"
    using mem r by (auto simp: duplicate_ok_def)
  ultimately show "claim_inv d st'"
    using none mem claim_invD(5,6,7) [OF inv]
    by (intro claim_inv_committed [OF inv c]) (auto simp: component_edges_def)
qed

lemma undo_duplicate_committed:
  assumes inv: "claim_inv d st" and ok: "undo_duplicate h ca st k n reason = Inr st'"
  obtains r where "find_row h st k = Some r" "c_revision r = n" "c_duplicateOf r \<noteq> None"
    "committed st r (r\<lparr>c_duplicateOf := None, c_duplicateAt := None, c_updatedAt := h_now h,
        c_revision := Suc (c_revision r)\<rparr>)
      (log_row h k (Suc (c_revision r)) (Some (c_status r)) (c_status r) (js_trim reason) (ca_actor ca) [] False)
      [] (s_components st) st'"
proof -
  obtain r where r: "find_row h st k = Some r" "c_revision r = n" "truthy (c_duplicateOf r)"
      "commit_change h ca st (view_of h st r) reason (\<lambda>r. r\<lparr>c_duplicateOf := None, c_duplicateAt := None\<rparr>) id = Inr st'"
    using ok unfolding undo_duplicate_def claim_get_def guard_simps by auto
  have mem: "r \<in> set (s_claims st)" "c_id r = k"
    using find_row_Some r(1) by blast+
  show thesis
    using commit_change_shape(1) [OF claim_invD(2) [OF inv] mem(1) r(4), of "\<lambda>x. x"] mem(2) r
    by (intro that [OF r(1,2)]) (auto simp: truthy_def)
qed

lemma undo_duplicate_inv:
  assumes inv: "claim_inv d st" and ok: "undo_duplicate h ca st k n reason = Inr st'"
  shows "claim_inv d st'"
proof (rule undo_duplicate_committed [OF inv ok])
  fix r :: claim
  let ?r' = "r\<lparr>c_duplicateOf := None, c_duplicateAt := None, c_updatedAt := h_now h,
        c_revision := Suc (c_revision r)\<rparr>"
  assume r: "find_row h st k = Some r"
    and c: "committed st r ?r' (log_row h k (Suc (c_revision r)) (Some (c_status r)) (c_status r) (js_trim reason)
      (ca_actor ca) [] False) [] (s_components st) st'"
  have "row_ok d r" using claim_invD(3) [OF inv] find_row_Some [OF r] by blast
  then have "row_ok d ?r'" by simp
  then show "claim_inv d st'"
    using claim_invD(5,6,7) [OF inv]
    by (intro claim_inv_committed [OF inv c]) (auto simp: component_edges_def duplicate_ok_def)
qed

section \<open>Revision and triage packets\<close>

lemma revise_committed:
  assumes inv: "claim_inv d st" and ok: "revise h ca st k i = Inr st'"
  obtains r cls comps tr title rating conf where
    "find_row h st k = Some r" "c_revision r = vi_expected i" "c_duplicateOf r = None"
    "claim_classification (Some (case vi_classification i of None \<Rightarrow> c_classification r | Some c \<Rightarrow> c)) = Inr cls"
    "revised_components h st (view_of h st r) i cls = Inr comps"
    "\<not> (vi_steps i \<noteq> None \<and> c_status r \<in> set reproduced_or_later \<and> norm_text (vi_steps i) = None)"
    "revised_tracking h ca (view_of h st r) cls (vi_tracking i) = Inr tr"
    "trimmed title \<or> title = c_title r" "number_upto 1 conf \<or> conf = c_confidence r"
    "committed st r ((revise_row (view_of h st r) i cls title rating conf tr r)
        \<lparr>c_updatedAt := h_now h, c_revision := Suc (c_revision r)\<rparr>)
      (log_row h k (Suc (c_revision r)) (Some (c_status r)) (c_status r) (js_trim (vi_reason i)) (ca_actor ca) [] False)
      [] (s_components (if vi_components i = None then st else write_components k comps st)) st'"
proof -
  let ?f = "\<lambda>r cls title rating conf tr. revise_row (view_of h st r) i cls title rating conf tr"
  obtain r where r1: "find_row h st k = Some r" and r2: "revise_from h ca st (view_of h st r) i = Inr st'"
    using ok unfolding revise_def claim_get_def by (auto simp: rbind_Inr_iff need_Inr_iff)
  obtain cls comps tr title rating conf where
    v: "\<not> truthy (c_duplicateOf (view_of h st r))" "c_revision (view_of h st r) = vi_expected i"
    "claim_classification (Some (case vi_classification i of None \<Rightarrow> c_classification (view_of h st r) | Some c \<Rightarrow> c)) = Inr cls"
    "revised_components h st (view_of h st r) i cls = Inr comps"
    "\<not> (vi_steps i \<noteq> None \<and> c_status (view_of h st r) \<in> set reproduced_or_later \<and> norm_text (vi_steps i) = None)"
    "revised_tracking h ca (view_of h st r) cls (vi_tracking i) = Inr tr"
    "(case vi_title i of None \<Rightarrow> Inr (c_title (view_of h st r)) | Some t \<Rightarrow> required_text (Some t) L_title) = Inr title"
    "(case vi_confidence i of None \<Rightarrow> Inr (c_confidence (view_of h st r)) | Some v \<Rightarrow> claim_confidence v) = Inr conf"
    "commit_change h ca st (view_of h st r) (vi_reason i) (?f r cls title rating conf tr)
       (if vi_components i = None then id else write_components (c_id (view_of h st r)) comps) = Inr st'"
    using r2 unfolding revise_from_def require_canonical_def rbind_Inr_iff ensure_Inr_iff
    by (elim exE conjE) (rule that; assumption)
  note r = r1 v [unfolded view_of_simps]
  have mem: "r \<in> set (s_claims st)" "c_id r = k"
    using find_row_Some [OF r1] by auto
  have title: "trimmed title \<or> title = c_title r"
    using r(8) by (cases "vi_title i") (auto dest: trimmed_required)
  have conf: "number_upto 1 conf \<or> conf = c_confidence r"
    using r(9) by (cases "vi_confidence i") (auto simp: claim_confidence_def ensure_Inr_iff)
  have dup: "c_duplicateOf r = None"
    using not_truthy_duplicate [OF inv mem(1) r(2)] .
  let ?k = "\<lambda>rows. if vi_components i = None then rows
     else s_components (write_components k comps (st\<lparr>s_components := rows\<rparr>))"
  have "committed st r ((?f r cls title rating conf tr r)\<lparr>c_updatedAt := h_now h, c_revision := Suc (c_revision r)\<rparr>)
      (log_row h (c_id r) (Suc (c_revision r)) (Some (c_status r)) (c_status r) (js_trim (vi_reason i)) (ca_actor ca) [] False)
      [] (?k (s_components st)) st'"
    by (rule commit_change_shape(1) [OF claim_invD(2) [OF inv] mem(1) r(10)])
      (simp_all add: revise_row_def write_components_def mem)
  moreover have "?k (s_components st) = s_components (if vi_components i = None then st else write_components k comps st)"
    by simp
  ultimately have C: "committed st r ((?f r cls title rating conf tr r)\<lparr>c_updatedAt := h_now h, c_revision := Suc (c_revision r)\<rparr>)
      (log_row h k (Suc (c_revision r)) (Some (c_status r)) (c_status r) (js_trim (vi_reason i)) (ca_actor ca) [] False)
      [] (s_components (if vi_components i = None then st else write_components k comps st)) st'"
    by (simp only: mem(2))
  show thesis
    by (rule that [OF r(1,3) dup r(4,5,6,7) title conf C])
qed

lemma revise_row_ok:
  assumes r: "row_ok d r" and cls: "trimmed cls" "stable_identifier cls"
    and tr: "\<And>t. tr = Some t \<Longrightarrow> tracking_wf d t"
    and steps: "\<not> (vi_steps i \<noteq> None \<and> c_status r \<in> set reproduced_or_later \<and> norm_text (vi_steps i) = None)"
    and "trimmed title \<or> title = c_title r" "number_upto 1 conf \<or> conf = c_confidence r"
  shows "row_ok d (revise_row (view_of h st r) i cls title rating conf tr r)"
proof -
  have "c_status r \<in> set reproduced_or_later \<Longrightarrow> js_trim (c_steps (revise_row (view_of h st r) i cls title rating conf tr r)) \<noteq> []"
    using steps row_okD(4) [OF r]
    by (cases "vi_steps i") (auto simp: revise_row_def text_or_empty_def norm_text_def split: if_splits option.splits)
  then show ?thesis
    using row_okD [OF r] cls tr assms(6,7) unfolding row_ok_def
    by (auto simp: revise_row_def)
qed

lemma revise_inv:
  assumes inv: "claim_inv d st" and h: "good_host d h st" and a: "trimmed (resolved_actor ca)"
    and ok: "revise h ca st k i = Inr st'"
  shows "claim_inv d st'"
proof (rule revise_committed [OF inv ok])
  fix r :: claim and cls comps tr title rating conf
  let ?r' = "(revise_row (view_of h st r) i cls title rating conf tr r)
      \<lparr>c_updatedAt := h_now h, c_revision := Suc (c_revision r)\<rparr>"
  assume r: "find_row h st k = Some r" "c_duplicateOf r = None"
    "claim_classification (Some (case vi_classification i of None \<Rightarrow> c_classification r | Some c \<Rightarrow> c)) = Inr cls"
    "revised_components h st (view_of h st r) i cls = Inr comps"
    and steps: "\<not> (vi_steps i \<noteq> None \<and> c_status r \<in> set reproduced_or_later \<and> norm_text (vi_steps i) = None)"
    and tr: "revised_tracking h ca (view_of h st r) cls (vi_tracking i) = Inr tr"
    and tc: "trimmed title \<or> title = c_title r" "number_upto 1 conf \<or> conf = c_confidence r"
    and c: "committed st r ?r'
      (log_row h k (Suc (c_revision r)) (Some (c_status r)) (c_status r) (js_trim (vi_reason i)) (ca_actor ca) [] False)
      [] (s_components (if vi_components i = None then st else write_components k comps st)) st'"
  have mem: "r \<in> set (s_claims st)" "c_id r = k" using find_row_Some [OF r(1)] by auto
  have row: "row_ok d r" using claim_invD(3) [OF inv mem(1)] .
  have hd: "h_date h = d" "stamp d (h_now h)" using h by (auto simp: good_host_def)
  have tracking: "tracking_wf d t" if "tr = Some t" for t
    using revised_tracking_wf [OF tr that] view_tracking_wf [OF row] a hd row_okD(9,10) [OF row] by simp
  have row': "row_ok d ?r'"
    using revise_row_ok [OF row _ _ tracking steps tc] claim_classification_Inr [OF r(3)] by simp
  have dup: "c_duplicateOf ?r' = None" using r(2) by (simp add: revise_row_def)
  have comps: "vi_components i \<noteq> None \<Longrightarrow>
      validated_components h st cls (the (vi_components i)) (Some k) = Inr comps"
    using r(4) mem(2) by (auto simp: revised_components_def)
  have "acyclic (set (component_edges (if vi_components i = None then st else write_components k comps st)))"
    using claim_invD(5) [OF inv] validated_components_Inr(2) [OF comps] row_okD(12) [OF row] mem(2)
    by (auto intro!: acyclic_written)
  moreover have "k_claim x \<in> c_id ` set (s_claims st) \<and> k_component x \<in> c_id ` set (s_claims st)"
    if "x \<in> set (s_components (if vi_components i = None then st else write_components k comps st))" for x
    using that claim_invD(6,7) [OF inv] validated_components_Inr(1) [OF comps] mem
    by (auto simp: write_components_def enumerate_nth dest!: set_zip_rightD split: if_splits)
  ultimately show "claim_inv d st'"
    using dup unfolding component_edges_def
    by (intro claim_inv_committed [OF inv c _ row']) (simp_all add: duplicate_ok_def)
qed

lemma record_triage_packet_inv:
  assumes inv: "claim_inv d st" and h: "good_host d h st" and ok: "record_triage_packet h ca st k i = Inr st'"
  shows "claim_inv d st'"
proof -
  obtain r a hash p where r: "find_row h st k = Some r" "1 \<le> pi_size i" "pi_size i \<le> 128 * 1024 * 1024"
      "required_text (Some (pi_artifact i)) L_artifact = Inr a" "required_text (Some (pi_hash i)) L_hash = Inr hash"
      "required_text (Some (pi_replay i)) L_replay = Inr p"
      "commit_change h ca st (view_of h st r) (pi_reason i) (\<lambda>row. row\<lparr>c_tracking := Some ((base_tracking (view_of h st r))\<lparr>
           st_triageBlocker := None,
           st_packet := Some \<lparr>tp_artifact = a, tp_hash = hash, tp_size = pi_size i,
             tp_binding = claim_verification_hash h (view_of h st r) (v_components (view_of h st r)),
             tp_replay = p, tp_verifiedAt = h_now h\<rparr>\<rparr>)\<rparr>) id = Inr st'"
    using ok unfolding record_triage_packet_def claim_get_def require_canonical_def rbind_Inr_iff ensure_Inr_iff
      need_Inr_iff map_option_eq_Some by blast
  have mem: "r \<in> set (s_claims st)" "c_id r = k" using find_row_Some [OF r(1)] by auto
  have row: "row_ok d r" using claim_invD(3) [OF inv mem(1)] .
  have sha: "trimmed (''sha256:'' @ h_sha h s)" for s
  proof -
    have "plain (''sha256:'' @ h_sha h s)"
      using h by (auto simp: good_host_def plain_def is_ws_def)
    then show ?thesis
      unfolding plain_def list_all_iff trimmed_def by (intro conjI js_trim_id) auto
  qed
  note c = commit_change_shape(1) [OF claim_invD(2) [OF inv] mem(1) r(7), of "\<lambda>x. x", simplified]
  show ?thesis
  proof (rule claim_inv_same_links [OF inv c])
    show "row_ok d (r\<lparr>c_tracking := Some ((base_tracking (view_of h st r))\<lparr>
           st_triageBlocker := None,
           st_packet := Some \<lparr>tp_artifact = a, tp_hash = hash, tp_size = pi_size i,
             tp_binding = claim_verification_hash h (view_of h st r) (components_of st (c_id r)),
             tp_replay = p, tp_verifiedAt = h_now h\<rparr>\<rparr>), c_updatedAt := h_now h, c_revision := Suc (c_revision r)\<rparr>)"
      unfolding row_ok_stamp
    proof (rule row_ok_tracking [OF row])
      have "trimmed a" "trimmed hash" "trimmed p" "\<bar>pi_size i\<bar> \<le> 9007199254740991" "trimmed (h_now h)"
        using r(2-6) h by (auto simp: good_host_def stamp_def dest: trimmed_required)
      moreover have "trimmed (claim_verification_hash h (view_of h st r) (components_of st (c_id r)))"
        using sha unfolding claim_verification_hash_def content_hash_def by blast
      ultimately show "tracking_wf d ((base_tracking (view_of h st r))\<lparr>st_triageBlocker := None,
           st_packet := Some \<lparr>tp_artifact = a, tp_hash = hash, tp_size = pi_size i,
             tp_binding = claim_verification_hash h (view_of h st r) (components_of st (c_id r)),
             tp_replay = p, tp_verifiedAt = h_now h\<rparr>\<rparr>)"
        using view_tracking_wf [OF row, of h st] by (simp add: tracking_wf_def packet_wf_def blocker_wf_def)
    qed
  qed simp_all
qed

end
