(* ===== verification/State_Systems.thy ===== *)
theory State_Systems
  imports Main
begin

text \<open>
  The interface of a component that changes by steps: an invariant every step keeps, and, for a
  component that only ever adds records, a list of keys every step extends.  Components that build on
  another one reach its future states through these laws.
\<close>

locale invariant_system =
  fixes step :: "'s \<Rightarrow> 's \<Rightarrow> bool" and inv :: "'s \<Rightarrow> bool"
  assumes step_inv: "step s t \<Longrightarrow> inv s \<Longrightarrow> inv t"
begin

lemma run_inv: "step\<^sup>*\<^sup>* s t \<Longrightarrow> inv s \<Longrightarrow> inv t"
  by (induction rule: rtranclp_induct) (auto intro: step_inv)

text \<open>A reflexive and transitive relation that holds across steps holds across runs.\<close>

lemma run_relates:
  assumes "step\<^sup>*\<^sup>* s t" "inv s" "\<And>x. R x x" "\<And>x y z. R x y \<Longrightarrow> R y z \<Longrightarrow> R x z"
    and "\<And>x y. step x y \<Longrightarrow> inv x \<Longrightarrow> R x y"
  shows "R s t"
  using assms(1,2)
proof (induction rule: rtranclp_induct)
  case (step y z)
  then show ?case using run_inv assms(4,5) by blast
qed (rule assms(3))

end

locale growing_records = invariant_system step inv
  for step :: "'s \<Rightarrow> 's \<Rightarrow> bool" and inv :: "'s \<Rightarrow> bool" +
  fixes keys :: "'s \<Rightarrow> 'k list"
  assumes step_grows: "step s t \<Longrightarrow> inv s \<Longrightarrow> \<exists>ks. keys t = keys s @ ks"
begin

lemma run_grows: "step\<^sup>*\<^sup>* s t \<Longrightarrow> inv s \<Longrightarrow> \<exists>ks. keys t = keys s @ ks"
  by (rule run_relates [where R = "\<lambda>s t. \<exists>ks. keys t = keys s @ ks"]) (auto dest: step_grows)

lemma run_take: "step\<^sup>*\<^sup>* s t \<Longrightarrow> inv s \<Longrightarrow> n \<le> length (keys s) \<Longrightarrow> take n (keys t) = take n (keys s)"
  using run_grows by fastforce

lemma run_length: "step\<^sup>*\<^sup>* s t \<Longrightarrow> inv s \<Longrightarrow> length (keys s) \<le> length (keys t)"
  using run_grows by fastforce

end

end
