(* ===== verification/Claim_System.thy ===== *)
theory Claim_System
  imports Claim_Ledger State_Systems
begin

text \<open>
  The claim ledger as a transition system: creation, the Findings board and staleness keep the
  invariant, and so it holds in every reachable ledger.
\<close>

section \<open>The board and staleness\<close>

lemma transition_by_human_committed:
  assumes inv: "claim_inv d st" and ok: "transition_by_human h st k n to = Inr st'"
  obtains r where "find_row h st k = Some r" "c_revision r = n" "to \<in> set board_statuses" "c_status r \<noteq> to"
    "to \<in> {Reproduced, Verified} \<Longrightarrow> js_trim (c_steps r) \<noteq> []" "c_duplicateOf r = None"
    "committed st r (r\<lparr>c_status := to, c_staleFrom := None, c_staleReason := None, c_updatedAt := h_now h,
        c_revision := Suc (c_revision r)\<rparr>)
      (log_row h k (Suc (c_revision r)) (Some (c_status r)) to (board_reason to) (Some human_operator) [] True)
      [] (s_components st) st'"
proof -
  obtain cur where cur: "claim_get h st k = Some cur" "to \<in> set board_statuses" "\<not> truthy (c_duplicateOf cur)"
      "c_revision cur = n" "c_status cur \<noteq> to \<or> c_status cur = Stale"
      "to \<in> {Reproduced, Verified} \<longrightarrow> js_trim (c_steps cur) \<noteq> []"
      "rbind (commit_row st k (c_revision cur) (\<lambda>r. r\<lparr>c_status := to, c_staleFrom := None,
         c_staleReason := None, c_updatedAt := h_now h, c_revision := c_revision cur + 1\<rparr>)) (\<lambda>st'.
       Inr (insert_transition (log_row h k (c_revision cur + 1) (Some (c_status cur)) to (board_reason to)
         (Some human_operator) [] True) st')) = Inr st'"
    using ok unfolding transition_by_human_def require_canonical_def ensure_Inr_iff
    by (auto simp only: rbind_Inr_iff [of "need _ _"] need_Inr_iff ensure_Inr_iff)
  obtain r where r: "find_row h st k = Some r" "cur = view_of h st r"
    using cur(1) by (auto simp: claim_get_def)
  have mem: "r \<in> set (s_claims st)" "c_id r = k" using find_row_Some [OF r(1)] by auto
  let ?f = "\<lambda>x. x\<lparr>c_status := to, c_staleFrom := None, c_staleReason := None, c_updatedAt := h_now h,
        c_revision := c_revision r + 1\<rparr>"
  have "commit_row st (c_id r) (c_revision r) ?f = Inr (put_claim (?f r) st)"
    by (rule commit_row_put [OF claim_invD(2) [OF inv] mem(1)]) simp
  then have st': "st' = insert_transition (log_row h k (Suc (c_revision r)) (Some (c_status r)) to (board_reason to)
         (Some human_operator) [] True) (put_claim (?f r) st)"
    using cur(7) r(2) mem(2) by simp
  have "to \<noteq> Stale" using cur(2) by (auto simp: board_statuses_def)
  then show thesis
    using cur(2-6) r mem not_truthy_duplicate [OF inv mem(1)]
    by (intro that [OF r(1)]) (auto simp: st' committed_def successor_def log_row_def legal_entry_def)
qed

lemma transition_by_human_inv:
  assumes inv: "claim_inv d st" and ok: "transition_by_human h st k n to = Inr st'"
  shows "claim_inv d st'"
proof (rule transition_by_human_committed [OF inv ok])
  fix r :: claim
  let ?r' = "r\<lparr>c_status := to, c_staleFrom := None, c_staleReason := None, c_updatedAt := h_now h,
        c_revision := Suc (c_revision r)\<rparr>"
  assume r: "find_row h st k = Some r" "to \<in> set board_statuses"
    "to \<in> {Reproduced, Verified} \<Longrightarrow> js_trim (c_steps r) \<noteq> []"
    and c: "committed st r ?r' (log_row h k (Suc (c_revision r)) (Some (c_status r)) to (board_reason to)
      (Some human_operator) [] True) [] (s_components st) st'"
  have "row_ok d r" using claim_invD(3) [OF inv] find_row_Some [OF r(1)] by blast
  then have "row_ok d ?r'"
    using r(2,3) by (auto simp: row_ok_def board_statuses_def reproduced_or_later_def)
  then show "claim_inv d st'"
    by (intro claim_inv_same_links [OF inv c]) simp_all
qed

lemma mark_stale_committed:
  assumes inv: "claim_inv d st" and r: "find_row h st k = Some r" "\<not> exempt (c_status r)"
    and ok: "mark_stale h actor (view_of h st r) reason st = Inr st'"
  shows "committed st r (r\<lparr>c_status := Stale, c_staleFrom := Some (c_status r), c_staleReason := Some reason,
        c_updatedAt := h_now h, c_revision := Suc (c_revision r)\<rparr>)
      (log_row (h\<lparr>h_session := None\<rparr>) k (Suc (c_revision r)) (Some (c_status r)) Stale reason (Some actor) [] False)
      [] (s_components st) st'"
proof -
  have mem: "r \<in> set (s_claims st)" "c_id r = k" using find_row_Some [OF r(1)] by auto
  let ?f = "\<lambda>x. x\<lparr>c_status := Stale, c_staleFrom := Some (c_status r), c_staleReason := Some reason,
        c_updatedAt := h_now h, c_revision := c_revision r + 1\<rparr>"
  have "commit_row st (c_id r) (c_revision r) ?f = Inr (put_claim (?f r) st)"
    by (rule commit_row_put [OF claim_invD(2) [OF inv] mem(1)]) simp
  then have "st' = insert_transition (log_row (h\<lparr>h_session := None\<rparr>) k (Suc (c_revision r)) (Some (c_status r)) Stale
      reason (Some actor) [] False) (put_claim (?f r) st)"
    using ok mem(2) by (simp add: mark_stale_def)
  moreover have "Stale \<in> set (allowed_transitions (c_status r))"
    using r(2) by (cases "c_status r") (simp_all add: exempt_def)
  ultimately show ?thesis
    using mem by (simp add: committed_def successor_def log_row_def legal_entry_def)
qed

lemma mark_stale_inv:
  assumes inv: "claim_inv d st" and r: "find_row h st k = Some r" "\<not> exempt (c_status r)"
    and ok: "mark_stale h actor (view_of h st r) reason st = Inr st'"
  shows "claim_inv d st'"
proof -
  have "row_ok d r" using claim_invD(3) [OF inv] find_row_Some [OF r(1)] by blast
  moreover have "c_status r \<in> set stale_statuses"
    using r(2) by (cases "c_status r") (simp_all add: exempt_def stale_statuses_def)
  ultimately show ?thesis
    by (intro claim_inv_same_links [OF inv mark_stale_committed [OF inv r ok]])
      (auto simp: row_ok_def reproduced_or_later_def)
qed

section \<open>Creation\<close>

text \<open>Ids that occur nowhere, a surface that is a name, and a status the code passes.\<close>

definition surfaces_named :: "host \<Rightarrow> create_input \<Rightarrow> string option \<Rightarrow> bool" where
  "surfaces_named h i surface \<longleftrightarrow> opt_trimmed (ni_surface i) \<and> opt_trimmed surface
     \<and> list_all (\<lambda>m. opt_trimmed (m_surface m)) (h_memory h)"

lemma new_row_ok:
  assumes ok: "new_row h i status m k cls surface = Inr row" and s: "status = Hypothesis \<or> status = Observed"
    and cls: "trimmed cls" "stable_identifier cls" and k: "k \<noteq> []"
    and su: "\<And>x. surface = Some x \<Longrightarrow> trimmed x"
  shows "row_ok d row" "c_id row = k" "c_revision row = 1" "c_status row = status" "c_duplicateOf row = None"
    "c_workspace row = h_workspace h"
proof -
  have "tracking_wf d (empty_tracking\<lparr>st_surfaces := (if truthy surface then [the surface] else [])\<rparr>)"
    using su empty_tracking_wf [of d] by (auto simp: tracking_wf_def names_def truthy_def)
  then show "row_ok d row"
    using ok s cls k unfolding new_row_def rbind_Inr_iff
    by (auto simp: row_ok_def stale_statuses_def reproduced_or_later_def norm_text_trimmed claim_confidence_def
        ensure_Inr_iff dest: trimmed_required split: if_splits)
  show "c_id row = k" "c_revision row = 1" "c_status row = status" "c_duplicateOf row = None"
    "c_workspace row = h_workspace h"
    using ok by (auto simp: new_row_def rbind_Inr_iff)
qed

lemma history_created:
  assumes inv: "history_inv st" and k: "c_id row \<notin> c_id ` set (s_claims st)" "c_revision row = 1"
    and t: "t_claim t = c_id row" "t_revision t = 1" "t_from t = None" "t_to t = c_status row" "legal_entry t"
      "t_evidence t = map e_id es"
    and es: "fresh_ids st es" "\<forall>e\<in>set es. e_claim e = c_id row"
    and st': "s_claims st' = s_claims st @ [row]" "s_transitions st' = s_transitions st @ [t]"
      "s_evidence st' = s_evidence st @ es"
  shows "history_inv st'"
proof -
  note D = history_invD [OF inv]
  have log: "log_of st' x = log_of st x @ (if t_claim t = x then [t] else [])" for x
    using st'(2) by (rule log_of_cong)
  have "log_of st (c_id row) = []"
    using D(4) k(1) unfolding log_of_def filter_empty_conv by (metis image_subset_iff)
  then have new: "history_ok st' row"
    using k t by (simp add: history_ok_def log)
  have old: "history_ok st' c" if "c \<in> set (s_claims st)" for c
  proof -
    have "c_id c \<noteq> c_id row" using k(1) that by (metis image_eqI)
    then show ?thesis using D(2) [OF that] t(1) by (simp add: history_ok_def log)
  qed
  have sub: "t_claim ` set (s_transitions st') \<subseteq> c_id ` set (s_claims st')"
    using D(4) t(1) by (auto simp: st')
  have evs: "e_claim ` set (s_evidence st') \<subseteq> c_id ` set (s_claims st')"
    using D(5) es(2) by (auto simp: st')
  have dist: "distinct (map e_id (s_evidence st'))"
    using D(6) es(1) by (simp add: st' fresh_ids_def Int_commute)
  have ids: "set (t_evidence x) \<subseteq> e_id ` set (s_evidence st')" if "x \<in> set (s_transitions st')" for x
  proof (cases "x = t")
    case True
    then show ?thesis using t(6) by (simp add: st' image_Un)
  next
    case False
    then have "set (t_evidence x) \<subseteq> e_id ` set (s_evidence st)"
      using that D(7) by (simp add: st')
    then show ?thesis by (simp add: st' image_Un le_supI1)
  qed
  have pre: "\<forall>e\<in>set (s_evidence st'). starts_with (e_id e) evidence_prefix"
    using D(8) es(1) by (auto simp: st' fresh_ids_def)
  show ?thesis
    using D(1,3) k new old sub evs dist ids pre unfolding history_inv_def by (simp add: st')
qed

lemma links_created:
  assumes inv: "links_inv st" and row: "c_id row \<notin> c_id ` set (s_claims st)" "c_duplicateOf row = None"
    and ks: "\<And>k. k \<in> set ks \<Longrightarrow> k \<in> c_id ` set (s_claims st)"
    and st': "s_claims st' = s_claims st @ [row]" "s_components st' = s_components (write_components (c_id row) ks st)"
  shows "links_inv st'"
proof -
  have dup: "\<forall>c\<in>set (s_claims st'). duplicate_ok st' c"
    using inv row(2) by (auto simp: links_inv_def duplicate_ok_def st' split: option.splits)
  have edges: "component_edges st' = component_edges (write_components (c_id row) ks st)"
    by (simp add: component_edges_def st'(2))
  have "(c, c_id row) \<notin> (set (component_edges st))\<^sup>*" if "c \<in> set ks" for c
  proof
    assume "(c, c_id row) \<in> (set (component_edges st))\<^sup>*"
    then show False
    proof cases
      case base
      then show ?thesis using ks [OF that] row(1) by simp
    next
      case (step y)
      then show ?thesis using inv row(1) by (auto simp: links_inv_def component_edges_def)
    qed
  qed
  then have "acyclic (set (component_edges st'))"
    using inv unfolding edges by (intro acyclic_written) (auto simp: links_inv_def)
  moreover have "k_claim r \<in> c_id ` set (s_claims st') \<and> k_component r \<in> c_id ` set (s_claims st')"
    if "r \<in> set (s_components st')" for r
    using that inv ks by (auto simp: st' write_components_def enumerate_nth links_inv_def dest!: set_zip_rightD)
  ultimately show ?thesis
    using dup by (simp add: links_inv_def)
qed

lemma create_committed:
  assumes "create_with_status h ca st i status surface = Inr (st', k)" "st' \<noteq> st"
  obtains m es cls comps row where "require_memory h (ni_memory i) = Inr m" "k = create_id h m"
    "normalize_evidence h (ca\<lparr>ca_fresh := False, ca_author := None\<rparr>) k (ni_evidence i) = Inr es"
    "status = Observed \<Longrightarrow> list_ex direct_observation es"
    "trimmed cls" "stable_identifier cls" "validated_components h st cls (ni_components i) None = Inr comps"
    "new_row h i status m k cls (creation_surface h i surface m) = Inr row"
    "insert_claim h ca i row comps es st = Inr st'"
proof -
  obtain m where m: "require_memory h (ni_memory i) = Inr m" "k = create_id h m"
      and new: "create_new h ca st i status surface m = Inr st'"
    using assms by (auto simp: create_with_status_def rbind_Inr_iff split: option.splits)
  obtain es cls comps row where r:
    "normalize_evidence h (ca\<lparr>ca_fresh := False, ca_author := None\<rparr>) (create_id h m) (ni_evidence i) = Inr es"
    "status = Observed \<longrightarrow> list_ex direct_observation es"
    "claim_classification (Some (case ni_classification i of Some c \<Rightarrow> c
            | None \<Rightarrow> legacy_classification (map_option m_type m))) = Inr cls"
    "validated_components h st cls (ni_components i) None = Inr comps"
    "new_row h i status m (create_id h m) cls (creation_surface h i surface m) = Inr row"
    "insert_claim h ca i row comps es st = Inr st'"
    using new unfolding create_new_def rbind_Inr_iff ensure_Inr_iff
    by (elim exE conjE) (rule that; assumption)
  show thesis
    using r claim_classification_Inr [OF r(3)] m by (intro that [of m]) simp_all
qed

lemma first_given_set: "first_given vs = Some x \<Longrightarrow> Some x \<in> set vs"
  by (auto simp: first_given_def split: list.splits) (metis filter_eq_ConsD in_set_conv_decomp)

lemma require_memory_in: "require_memory h v = Inr (Some m) \<Longrightarrow> m \<in> set (h_memory h)"
  by (auto simp: require_memory_def rbind_Inr_iff ensure_Inr_iff need_Inr_iff find_Some_iff split: if_splits)

lemma create_inv:
  assumes inv: "claim_inv d st" and h: "good_host d h st" and su: "surfaces_named h i surface"
    and s: "status = Hypothesis \<or> status = Observed"
    and ok: "create_with_status h ca st i status surface = Inr (st', k)"
  shows "claim_inv d st'"
proof (cases "st' = st")
  case False
  show ?thesis
  proof (rule create_committed [OF ok False])
    fix m es cls comps row
    assume m: "require_memory h (ni_memory i) = Inr m"
      and k: "k = create_id h m"
      and es: "normalize_evidence h (ca\<lparr>ca_fresh := False, ca_author := None\<rparr>) k (ni_evidence i) = Inr es"
      and cls: "trimmed cls" "stable_identifier cls"
      and comps: "validated_components h st cls (ni_components i) None = Inr comps"
      and row: "new_row h i status m k cls (creation_surface h i surface m) = Inr row"
      and ins: "insert_claim h ca i row comps es st = Inr st'"
    have "k \<noteq> []" by (simp add: k create_id_def stable_finding_id_def split: option.split)
    moreover have "trimmed x" if x: "creation_surface h i surface m = Some x" for x
    proof -
      have "Some x \<in> {ni_surface i, surface, Option.bind m m_surface}"
        using first_given_set x unfolding creation_surface_def by fastforce
      then show ?thesis
      proof (cases m)
        case (Some n)
        have "n \<in> set (h_memory h)"
          using m Some by (auto intro: require_memory_in)
        then show ?thesis
          using \<open>Some x \<in> _\<close> su Some by (auto simp: surfaces_named_def list_all_iff opt_trimmed_def split: option.splits)
      qed (use \<open>Some x \<in> _\<close> su in \<open>auto simp: surfaces_named_def opt_trimmed_def split: option.splits\<close>)
    qed
    ultimately have R: "row_ok d row" "c_id row = k" "c_revision row = 1" "c_status row = status"
        "c_duplicateOf row = None"
      using new_row_ok [OF row s cls] by blast+
    let ?why = "case norm_text (ni_reason i) of Some r \<Rightarrow> r | None \<Rightarrow> creation_reason (c_status row)"
    let ?t = "log_row h (c_id row) 1 None (c_status row) ?why (ca_actor ca) (map e_id (with_ids h es)) False"
    have new: "c_id row \<notin> c_id ` set (s_claims st)"
      and st': "st' = insert_author ca (c_id row) 1 (insert_transition ?t (insert_evidence h es
         (write_components (c_id row) comps (st\<lparr>s_claims := s_claims st @ [row]\<rparr>))))"
      using ins by (auto simp: insert_claim_def ensure_Inr_iff)
    have shape: "s_claims st' = s_claims st @ [row]" "s_transitions st' = s_transitions st @ [?t]"
      "s_evidence st' = s_evidence st @ with_ids h es"
      "s_components st' = s_components (write_components (c_id row) comps st)"
      by (simp_all add: st' write_components_def)
    have "history_inv st'"
    proof (rule history_created [OF claim_invD(1) [OF inv] new R(3) _ _ _ _ _ _ fresh_with_ids _ shape(1,2,3)])
      show "fresh_host h st" using h by (simp add: good_host_def)
      show "\<forall>e\<in>set (with_ids h es). e_claim e = c_id row"
        using normalize_claims(1) [OF es] R(2) by (auto dest!: set_with_ids)
      show "legal_entry ?t" using s R(4) by (auto simp: legal_entry_def log_row_def)
    qed (simp_all add: log_row_def)
    moreover have "links_inv st'"
      using inv links_created [OF _ new R(5) validated_components_Inr(1) [OF comps] shape(1,4)]
      by (simp add: claim_inv_def)
    ultimately show "claim_inv d st'"
      using claim_invD(3) [OF inv] R(1) by (auto simp: claim_inv_def shape(1))
  qed
qed (simp add: inv)

section \<open>Reachable ledgers\<close>

text \<open>
  One operation, or a change of the tables other components own (runbooks, their executions,
  reports).
\<close>

inductive claim_step :: "(string \<Rightarrow> bool) \<Rightarrow> claim_store \<Rightarrow> claim_store \<Rightarrow> bool" for d where
  step_create: "good_host d h st \<Longrightarrow> surfaces_named h i surface \<Longrightarrow> status = Hypothesis \<or> status = Observed \<Longrightarrow>
     create_with_status h ca st i status surface = Inr (st', k) \<Longrightarrow> claim_step d st st'"
| step_transition: "good_host d h st \<Longrightarrow> transition h ca st k i = Inr st' \<Longrightarrow> claim_step d st st'"
| step_human: "transition_by_human h st k n to = Inr st' \<Longrightarrow> claim_step d st st'"
| step_mark: "mark_duplicate h ca st k n parent reason = Inr st' \<Longrightarrow> claim_step d st st'"
| step_undo: "undo_duplicate h ca st k n reason = Inr st' \<Longrightarrow> claim_step d st st'"
| step_revise: "good_host d h st \<Longrightarrow> trimmed (resolved_actor ca) \<Longrightarrow> revise h ca st k rv = Inr st' \<Longrightarrow>
     claim_step d st st'"
| step_packet: "good_host d h st \<Longrightarrow> record_triage_packet h ca st k pk = Inr st' \<Longrightarrow> claim_step d st st'"
| step_stale: "find_row h st k = Some r \<Longrightarrow> \<not> exempt (c_status r) \<Longrightarrow>
     mark_stale h actor (view_of h st r) reason st = Inr st' \<Longrightarrow> claim_step d st st'"
| step_tables: "claim_step d st (st\<lparr>s_runbooks := books, s_runs := runs, s_cells := cells, s_reports := reports\<rparr>)"

definition empty_store :: claim_store where
  "empty_store = \<lparr>s_claims = [], s_evidence = [], s_transitions = [], s_components = [], s_authors = [],
     s_runbooks = [], s_runs = None, s_cells = [], s_reports = None\<rparr>"

definition reachable_ledger :: "(string \<Rightarrow> bool) \<Rightarrow> claim_store \<Rightarrow> bool" where
  "reachable_ledger d = (claim_step d)\<^sup>*\<^sup>* empty_store"

lemma claim_inv_tables:
  "claim_inv d (st\<lparr>s_runbooks := books, s_runs := runs, s_cells := cells, s_reports := reports\<rparr>) = claim_inv d st"
  by (simp add: claim_inv_def history_inv_def history_ok_def log_of_def links_inv_def duplicate_ok_def
      component_edges_def cong: option.case_cong)

lemma claim_step_inv: "claim_step d st st' \<Longrightarrow> claim_inv d st \<Longrightarrow> claim_inv d st'"
proof (induction rule: claim_step.induct)
  case (step_create h st i surface status ca st' k)
  then show ?case using create_inv by blast
next
  case (step_tables st books runs cells reports)
  then show ?case by (simp add: claim_inv_tables)
qed (blast intro: transition_inv transition_by_human_inv mark_duplicate_inv undo_duplicate_inv revise_inv
    record_triage_packet_inv mark_stale_inv)+

interpretation ledger: invariant_system "claim_step d" "claim_inv d" for d
  by unfold_locales (rule claim_step_inv)

lemma claim_inv_empty: "claim_inv d empty_store"
  by (simp add: claim_inv_def history_inv_def links_inv_def empty_store_def component_edges_def acyclic_def)

lemma claim_inv_reachable: "reachable_ledger d st \<Longrightarrow> claim_inv d st"
  unfolding reachable_ledger_def by (rule ledger.run_inv [OF _ claim_inv_empty])

end
