(* ===== verification/Claim_Checklist.thy ===== *)
theory Claim_Checklist
  imports Claim_Store
begin

text \<open>
  The completion checklist of a claim (\<open>candidateCompletionChecklist\<close>,
  \<open>evidenceControl\<close> of \<open>packages/research-agent/src/findings.ts\<close>).  An item is its
  key, whether the target requires it, and its status; labels and explanations are display text.
\<close>

datatype completion_target = Target_observed | Target_reproduced | Target_verified | Target_report_ready

fun target_rank :: "completion_target \<Rightarrow> nat" where
  "target_rank Target_observed = 1"
| "target_rank Target_reproduced = 2"
| "target_rank Target_verified = 3"
| "target_rank Target_report_ready = 4"

datatype check_key = Key_summary | Key_direct_evidence | Key_source_revision | Key_environment | Key_impact
  | Key_reproduction | Key_steps | Key_positive_control | Key_negative_control | Key_reachability
  | Key_affected_assets | Key_cvss | Key_prior_art | Key_independent_verification

datatype item_status = Item_complete | Item_missing | Item_recommended_missing

record check_item =
  ck_key :: check_key
  ck_required :: bool
  ck_status :: item_status

record checklist =
  cl_claim :: string
  cl_target :: completion_target
  cl_ready :: bool
  cl_completed :: nat
  cl_required :: nat
  cl_missing :: "check_key list"
  cl_items :: "check_item list"

fun contains :: "string \<Rightarrow> string \<Rightarrow> bool" where
  "contains [] p = starts_with [] p"
| "contains (c # cs) p = (starts_with (c # cs) p \<or> contains cs p)"

datatype control = Positive | Negative

definition control_of :: "string \<Rightarrow> control option" where
  "control_of s = (if s = ''positive'' then Some Positive else if s = ''negative'' then Some Negative else None)"

definition evidence_control :: "('a evidence_scheme) \<Rightarrow> control option" where
  "evidence_control e =
     (case Option.bind (norm_text (as_string (map_of (e_metadata e) ''control''))) (\<lambda>s. control_of (js_lower s)) of
        Some c \<Rightarrow> Some c
      | None \<Rightarrow> (let s = js_lower (e_summary e) in
          if contains s ''positive control'' then Some Positive
          else if contains s ''negative control'' then Some Negative else None))"

text \<open>\<open>/(?:cve|ghsa|osv|advis|bulletin|prior[_ -]?art|security[_ -]?history)/i\<close>\<close>

definition prior_art_marks :: "string list" where
  "prior_art_marks = [''cve'', ''ghsa'', ''osv'', ''advis'', ''bulletin'',
     ''priorart'', ''prior_art'', ''prior art'', ''prior-art'',
     ''securityhistory'', ''security_history'', ''security history'', ''security-history'']"

definition prior_art :: "external_ref \<Rightarrow> bool" where
  "prior_art x \<longleftrightarrow> list_ex (contains (js_lower (xr_kind x))) prior_art_marks"

definition check_entry :: "check_key \<Rightarrow> bool \<Rightarrow> bool \<Rightarrow> check_item" where
  "check_entry k complete required = \<lparr>ck_key = k, ck_required = required,
     ck_status = (if complete then Item_complete else if required then Item_missing
       else Item_recommended_missing)\<rparr>"

definition has_reproduction :: "claim_view \<Rightarrow> bool" where
  "has_reproduction c \<longleftrightarrow> truthy (c_runbook c)
     \<and> list_ex (\<lambda>e. e_kind e = Ev_runbook_execution \<and> e_validated e = Some True) (v_evidence c)"

definition has_verification :: "claim_view \<Rightarrow> bool" where
  "has_verification c \<longleftrightarrow> list_ex (\<lambda>e. e_independent e \<and> e_kind e \<in> set review_kinds
     \<and> e_validated e = Some True) (v_evidence c)"

definition tracked :: "claim_view \<Rightarrow> (tracking \<Rightarrow> bool) \<Rightarrow> bool" where
  "tracked c p \<longleftrightarrow> (case c_tracking c of None \<Rightarrow> False | Some t \<Rightarrow> p t)"

definition checklist_items :: "claim_view \<Rightarrow> completion_target \<Rightarrow> check_item list" where
  "checklist_items c target = (let r = target_rank target in
     [check_entry Key_summary (js_trim (c_summary c) \<noteq> []) True,
      check_entry Key_direct_evidence (list_ex direct_observation (v_evidence c)) (r \<ge> 1),
      check_entry Key_source_revision (truthy (c_source c)) (r \<ge> 1),
      check_entry Key_environment (truthy (c_environment c)) (r \<ge> 2),
      check_entry Key_impact (js_trim (c_impact c) \<noteq> []) (r \<ge> 2),
      check_entry Key_reproduction (has_reproduction c) (r \<ge> 2),
      check_entry Key_steps (js_trim (c_steps c) \<noteq> []) (r \<ge> 2),
      check_entry Key_positive_control (list_ex (\<lambda>e. evidence_control e = Some Positive) (v_evidence c)) False,
      check_entry Key_negative_control (list_ex (\<lambda>e. evidence_control e = Some Negative) (v_evidence c)) False,
      check_entry Key_reachability (tracked c (\<lambda>t. ra_state (st_reachability t) \<noteq> Not_assessed)) (r \<ge> 3),
      check_entry Key_affected_assets (tracked c (\<lambda>t. st_assets t \<noteq> [])) (r \<ge> 3),
      check_entry Key_cvss (tracked c (\<lambda>t. st_cvss t \<noteq> [])) (r \<ge> 3),
      check_entry Key_prior_art (tracked c (\<lambda>t. list_ex prior_art (st_references t))) (r \<ge> 3),
      check_entry Key_independent_verification (has_verification c) (r \<ge> 3)])"

definition candidate_completion_checklist :: "claim_view \<Rightarrow> completion_target \<Rightarrow> checklist" where
  "candidate_completion_checklist c target =
     (let items = checklist_items c target;
          required = filter ck_required items;
          missing = map ck_key (filter (\<lambda>i. ck_status i \<noteq> Item_complete) required) in
      \<lparr>cl_claim = c_id c, cl_target = target, cl_ready = (missing = []),
       cl_completed = length required - length missing, cl_required = length required,
       cl_missing = missing, cl_items = items\<rparr>)"

definition completion_checklist ::
  "host \<Rightarrow> claim_store \<Rightarrow> string \<Rightarrow> completion_target \<Rightarrow> (claim_error, checklist) res" where
  "completion_checklist h st k target =
     rbind (need (claim_get h st k) (Refused Not_found)) (\<lambda>c.
     require_canonical c (Inr (candidate_completion_checklist c target)))"

fun target_status :: "completion_target \<Rightarrow> claim_status" where
  "target_status Target_observed = Observed"
| "target_status Target_reproduced = Reproduced"
| "target_status Target_verified = Verified"
| "target_status Target_report_ready = Report_ready"

section \<open>Ready means complete\<close>

lemma ready_iff:
  "cl_ready (candidate_completion_checklist c t) \<longleftrightarrow>
     list_all (\<lambda>i. ck_required i \<longrightarrow> ck_status i = Item_complete) (checklist_items c t)"
  by (simp add: candidate_completion_checklist_def Let_def filter_empty_conv list_all_iff) blast

lemma check_entry_ok:
  "(ck_required (check_entry k c r) \<longrightarrow> ck_status (check_entry k c r) = Item_complete) \<longleftrightarrow> (r \<longrightarrow> c)"
  by (simp add: check_entry_def)

lemma ready_contents:
  assumes "cl_ready (candidate_completion_checklist c t)"
  shows "list_ex direct_observation (v_evidence c)" "js_trim (c_summary c) \<noteq> []" "truthy (c_source c)"
    "target_rank t \<ge> 2 \<Longrightarrow> truthy (c_environment c) \<and> js_trim (c_steps c) \<noteq> [] \<and> has_reproduction c"
    "target_rank t \<ge> 3 \<Longrightarrow> has_verification c"
  using assms unfolding ready_iff checklist_items_def Let_def list.pred_inject check_entry_ok
  by (cases t; simp)+

end
