(* ===== verification/Claim_Gate.thy ===== *)
theory Claim_Gate
  imports Claim_System Claim_Checklist
begin

text \<open>
  What a transition leaves behind: the evidence that passed the gate is stored, and the reader
  judges it valid for the claim in its new status.
\<close>

section \<open>The log is in order\<close>

lemma js_sort_sorted: "sorted_wrt (\<lambda>x y. cmp x y \<le> 0) xs \<Longrightarrow> js_sort cmp xs = xs"
proof (induction xs)
  case (Cons x xs)
  then have "js_sort cmp xs = xs" by simp
  with Cons.prems show ?case by (cases xs) auto
qed simp

lemma transitions_of_log: "history_ok st c \<Longrightarrow> transitions_of st (c_id c) = log_of st (c_id c)"
proof -
  assume "history_ok st c"
  then have "sorted (map t_revision (log_of st (c_id c)))"
    unfolding history_ok_def by (metis sorted_upt)
  then have "sorted_wrt (\<lambda>x y. by_revision x y \<le> 0) (log_of st (c_id c))"
    by (simp add: sorted_map by_revision_def cmp_on_def cmp_int_def)
  then show ?thesis
    using js_sort_sorted unfolding transitions_of_def log_of_def by blast
qed

lemma log_revisions: "history_ok st c \<Longrightarrow> t \<in> set (log_of st (c_id c)) \<Longrightarrow> 1 \<le> t_revision t \<and> t_revision t \<le> c_revision c"
proof -
  assume h: "history_ok st c" and t: "t \<in> set (log_of st (c_id c))"
  have eq: "map t_revision (log_of st (c_id c)) = [1..<Suc (c_revision c)]"
    using h unfolding history_ok_def by (rule conjunct1)
  have "t_revision t \<in> set (map t_revision (log_of st (c_id c)))"
    using t by auto
  then show ?thesis
    unfolding eq by auto
qed

section \<open>Looking at the new ledger\<close>

lemma find_unique:
  assumes "x \<in> set xs" "P x" "\<And>y. y \<in> set xs \<Longrightarrow> P y \<Longrightarrow> y = x"
  shows "find P xs = Some x"
  using assms
proof (induction xs)
  case (Cons z zs)
  show ?case
  proof (cases "P z")
    case True
    then have "z = x" by (intro Cons.prems(3)) simp_all
    then show ?thesis using True by simp
  next
    case False
    then have "x \<in> set zs" using Cons.prems(1,2) by auto
    moreover have "find P zs = Some x"
      by (rule Cons.IH) (use \<open>x \<in> set zs\<close> Cons.prems(2,3) in \<open>simp_all\<close>)
    ultimately show ?thesis using False by simp
  qed
qed simp

lemma find_row_unique:
  assumes "distinct (map c_id (s_claims st))" "r \<in> set (s_claims st)" "c_workspace r = h_workspace h"
  shows "find_row h st (c_id r) = Some r"
  unfolding find_row_def using assms(2,3) distinct_row [OF assms(1,2)] by (intro find_unique) auto

lemma stored_row_unique:
  assumes "distinct (map c_id (s_claims st))" "r \<in> set (s_claims st)"
  shows "stored_row st (c_id r) = Some r"
  unfolding stored_row_def using assms(2) distinct_row [OF assms] by (intro find_unique) auto

lemma find_row_committed:
  assumes inv: "claim_inv d st" and c: "committed st r r' t es ks st'" and r: "find_row h st k = Some r"
  shows "find_row h st' k = Some r'"
proof -
  have "distinct (map c_id (s_claims st'))"
    using claim_invD(2) [OF inv] committed_ids [OF c] by simp
  moreover have "r' \<in> set (s_claims st')" using committed_claims [OF c] by simp
  moreover have "c_id r' = k" "c_workspace r' = h_workspace h"
    using c find_row_Some [OF r] by (auto simp: committed_def successor_def)
  ultimately show ?thesis using find_row_unique by metis
qed

lemma successful_run_cong:
  "c_runbook c' = c_runbook c \<Longrightarrow> c_source c' = c_source c \<Longrightarrow> c_environment c' = c_environment c \<Longrightarrow>
   c_workspace c' = c_workspace c \<Longrightarrow> s_runs st' = s_runs st \<Longrightarrow> s_runbooks st' = s_runbooks st \<Longrightarrow>
   s_cells st' = s_cells st \<Longrightarrow> successful_run st' c' run = successful_run st c run"
proof -
  assume a: "c_runbook c' = c_runbook c" "c_source c' = c_source c" "c_environment c' = c_environment c"
    "c_workspace c' = c_workspace c" "s_runs st' = s_runs st" "s_runbooks st' = s_runbooks st" "s_cells st' = s_cells st"
  then have "cell_passed st' = cell_passed st"
    by (intro ext) (simp add: cell_passed_def)
  then have "run_qualifies st' c' = run_qualifies st c"
    by (intro ext) (simp add: run_qualifies_def a)
  then show ?thesis
    using a by (simp add: successful_run_def split: option.split)
qed

lemma truncate_view [simp]: "evidence.truncate (view_evidence h st c ks e) = e"
  by (simp add: view_evidence_def evidence.defs evidence_view.defs)

lemma view_evidence_simps [simp]:
  "e_kind (view_evidence h st c ks e) = e_kind e" "e_reference (view_evidence h st c ks e) = e_reference e"
  "e_hash (view_evidence h st c ks e) = e_hash e" "e_independent (view_evidence h st c ks e) = e_independent e"
  "e_id (view_evidence h st c ks e) = e_id e"
  "e_validated (view_evidence h st c ks e) =
     (if e_kind e = Ev_runbook_execution then Some (valid_reproduction st c e)
      else if e_independent e \<and> e_kind e \<in> set review_kinds then Some (valid_independent h st c ks e) else None)"
  by (simp_all add: view_evidence_def evidence.defs evidence_view.defs)

lemma truncate_views: "map (evidence.truncate \<circ> view_evidence h st c ks) es = es"
  by (simp add: o_def)

text \<open>What was judged, with the id it is stored under.\<close>

lemma stored_judged:
  assumes "e \<in> set (map evidence.truncate (v_evidence (view_of h st r)) @ new)"
    and "\<And>e. e \<in> set new \<Longrightarrow> e_claim e = c_id r"
    and "s_evidence st' = s_evidence st @ with_ids h new"
  obtains k where "e\<lparr>e_id := k\<rparr> \<in> set (evidence_of st' (c_id r))"
    "k = e_id e \<and> e \<in> set (s_evidence st) \<or> e \<in> set new \<and> k \<in> e_id ` set (with_ids h new)"
proof -
  have "with_ids h new ! n = (new ! n)\<lparr>e_id := evidence_uuid h (Suc n)\<rparr>" if "n < length new" for n
    using that by (simp add: with_ids_def nth_enumerate_eq)
  moreover have "length (with_ids h new) = length new" by (simp add: with_ids_def)
  ultimately have w: "(new ! n)\<lparr>e_id := evidence_uuid h (Suc n)\<rparr> \<in> set (with_ids h new)" if "n < length new" for n
    using that by (metis nth_mem)
  consider "e \<in> set (evidence_of st (c_id r))" | "e \<in> set new"
    using assms(1) by (auto simp: truncate_views)
  then show thesis
  proof cases
    case 1
    then show ?thesis by (intro that [of "e_id e"]) (auto simp: assms(3))
  next
    case 2
    then obtain n where "n < length new" "e = new ! n" by (auto simp: in_set_conv_nth)
    then have w': "e\<lparr>e_id := evidence_uuid h (Suc n)\<rparr> \<in> set (with_ids h new)" using w by simp
    show ?thesis
    proof (rule that [of "evidence_uuid h (Suc n)"])
      show "e\<lparr>e_id := evidence_uuid h (Suc n)\<rparr> \<in> set (evidence_of st' (c_id r))"
        using w' 2 assms(2) by (simp add: assms(3))
      have "evidence_uuid h (Suc n) \<in> e_id ` set (with_ids h new)"
        using imageI [OF w', of e_id] by simp
      then show "evidence_uuid h (Suc n) = e_id e \<and> e \<in> set (s_evidence st)
          \<or> e \<in> set new \<and> evidence_uuid h (Suc n) \<in> e_id ` set (with_ids h new)"
        using 2 by blast
    qed
  qed
qed

lemma verified_content_update:
  "verified_content (transition_row_update h (view_of h st r) i cls tr why r) cls ks
     = verified_content (reviewed_content (view_of h st r) i cls) cls ks"
  by (simp add: verified_content_def transition_row_update_def reviewed_content_def)

lemma shown_simps [simp]:
  "c_id (shown r) = c_id r" "c_classification (shown r) = c_classification r" "c_runbook (shown r) = c_runbook r"
  "c_source (shown r) = c_source r" "c_environment (shown r) = c_environment r"
  "c_workspace (shown r) = c_workspace r" "c_revision (shown r) = c_revision r" "c_steps (shown r) = c_steps r"
  "verified_content (shown r) cls ks = verified_content r cls ks"
  by (simp_all add: shown_def verified_content_def)

lemma pending_not_stored: "\<not> starts_with (pending_id n) evidence_prefix"
  by (simp add: pending_id_def evidence_prefix_def)

section \<open>Reproduction\<close>

lemma reproduction_stored:
  assumes e: "e \<in> set (map evidence.truncate (v_evidence (view_of h st r)) @ new)"
    and v: "valid_reproduction st (reviewed_content (view_of h st r) i cls) e"
    and new: "\<And>e. e \<in> set new \<Longrightarrow> e_claim e = c_id r"
    and r': "r' = transition_row_update h (view_of h st r) i cls tr why r"
    and c: "committed st r r' t (with_ids h new) ks st'"
  shows "has_reproduction (view_of h st' r')"
proof -
  have st': "s_evidence st' = s_evidence st @ with_ids h new" "s_runs st' = s_runs st"
      "s_runbooks st' = s_runbooks st" "s_cells st' = s_cells st"
    using c by (simp_all add: committed_def)
  have fields: "c_runbook r' = c_runbook (reviewed_content (view_of h st r) i cls)"
    "c_source r' = c_source (reviewed_content (view_of h st r) i cls)"
    "c_environment r' = c_environment (reviewed_content (view_of h st r) i cls)"
    "c_workspace r' = c_workspace r" "c_id r' = c_id r"
    by (simp_all add: r' transition_row_update_def)
  have run: "successful_run st' (shown r') x = successful_run st (reviewed_content (view_of h st r) i cls) x" for x
    by (rule successful_run_cong) (simp_all add: fields st')
  have v': "e_kind e = Ev_runbook_execution" "truthy (e_reference e)"
    "successful_run st (reviewed_content (view_of h st r) i cls) (the (e_reference e))"
    using v by (simp_all add: valid_reproduction_def)
  obtain k where k: "e\<lparr>e_id := k\<rparr> \<in> set (evidence_of st' (c_id r))"
    using stored_judged [OF e new st'(1)] by blast
  define e' where "e' = e\<lparr>e_id := k\<rparr>"
  have e': "e' \<in> set (evidence_of st' (c_id r'))" "e_kind e' = e_kind e" "e_reference e' = e_reference e"
    using k by (simp_all add: e'_def fields(5))
  then have "valid_reproduction st' (shown r') e'"
    using v' run by (simp add: valid_reproduction_def)
  moreover have "truthy (c_runbook r')"
    using v'(3) fields(1) by (simp add: successful_run_def)
  ultimately show ?thesis
    using e' v'(1) by (auto simp: has_reproduction_def list_ex_iff)
qed

section \<open>Review\<close>

lemma authors_before_log:
  assumes "history_ok st c"
  shows "authors_before st (c_id c) n = filter (\<lambda>t. authoring t \<and> t_revision t < n) (log_of st (c_id c))"
  by (simp add: authors_before_def transitions_of_log [OF assms])

text \<open>A transition past reproduction adds no author, and does not move the revision of an older review.\<close>

lemma authors_unchanged:
  assumes inv: "history_inv st" and inv': "history_inv st'" and c: "committed st r r' t es ks st'"
    and t: "\<not> authoring t"
    and e: "eid \<in> e_id ` set (s_evidence st) \<and> eid' = eid \<and> eid \<notin> e_id ` set es
      \<or> eid \<notin> e_id ` set (s_evidence st) \<and> eid' \<in> e_id ` set es \<and> eid' \<notin> e_id ` set (s_evidence st)"
    and x: "c_id x = c_id r" "c_revision x = c_revision r"
  shows "authors_before st' (c_id r) (review_revision st' (shown r') eid')
    = authors_before st (c_id r) (review_revision st x eid)"
proof -
  note s = c [unfolded committed_def successor_def]
  have r: "r \<in> set (s_claims st)" "c_id r' = c_id r" "c_revision r' = Suc (c_revision r)" using s by auto
  have h: "history_ok st r" using history_invD(2) [OF inv r(1)] .
  have "r' \<in> set (s_claims st')" using committed_claims [OF c] by simp
  then have h': "history_ok st' r'" using history_invD(2) [OF inv'] by blast
  let ?L = "log_of st (c_id r)"
  have L': "log_of st' (c_id r) = ?L @ [t]"
    using s log_of_cong [of st' st t "c_id r"] by simp
  have tr: "transitions_of st (c_id r) = ?L" "transitions_of st' (c_id r) = ?L @ [t]"
    using transitions_of_log [OF h] transitions_of_log [OF h'] L' r(2) by simp_all
  have rev: "t_revision u \<le> c_revision r" if "u \<in> set ?L" for u
    using log_revisions [OF h that] by simp
  have old: "eid' \<notin> set (t_evidence u)" if "u \<in> set ?L" "eid' \<notin> e_id ` set (s_evidence st)" for u
    using that history_invD(7) [OF inv, of u] by (auto simp: log_of_def)
  have te: "set (t_evidence t) = e_id ` set es" using s by auto
  have all: "filter (\<lambda>u. authoring u \<and> t_revision u < Suc n) (?L @ [t]) = filter authoring ?L"
    if "c_revision r \<le> n" for n
    using t rev that by (auto intro!: filter_cong simp: less_Suc_eq_le dest: le_trans)
  have all0: "filter (\<lambda>u. authoring u \<and> t_revision u < Suc (c_revision r)) ?L = filter authoring ?L"
    using rev by (auto intro!: filter_cong simp: less_Suc_eq_le)
  let ?F = "filter (\<lambda>u. eid \<in> set (t_evidence u)) ?L"
  show ?thesis
    using e
  proof
    assume e: "eid \<in> e_id ` set (s_evidence st) \<and> eid' = eid \<and> eid \<notin> e_id ` set es"
    then have F': "filter (\<lambda>u. eid' \<in> set (t_evidence u)) (?L @ [t]) = ?F" using te by simp
    show ?thesis
    proof (cases ?F)
      case Nil
      then show ?thesis
        using F' all [of "Suc (c_revision r)"] all0 r x
        by (simp add: authors_before_def review_revision_def tr)
    next
      case (Cons u us)
      then have "u \<in> set ?F" by simp
      then have "u \<in> set ?L" by simp
      then have "\<not> t_revision t < t_revision u"
        using rev s by fastforce
      then show ?thesis
        using F' Cons r x by (simp add: authors_before_def review_revision_def tr)
    qed
  next
    assume e: "eid \<notin> e_id ` set (s_evidence st) \<and> eid' \<in> e_id ` set es \<and> eid' \<notin> e_id ` set (s_evidence st)"
    have "?F = []"
      using e history_invD(7) [OF inv] by (auto simp: filter_empty_conv log_of_def)
    moreover have "filter (\<lambda>u. eid' \<in> set (t_evidence u)) (?L @ [t]) = [t]"
      using e old te by (simp add: filter_empty_conv)
    ultimately show ?thesis
      using all [of "c_revision r"] all0 r x s
      by (simp add: authors_before_def review_revision_def tr)
  qed
qed

lemma review_stored:
  assumes inv: "claim_inv d st" and inv': "claim_inv d st'" and f: "fresh_host h st"
    and e: "e \<in> set (map evidence.truncate (v_evidence (view_of h st r)) @ new)"
    and v: "valid_independent h st (reviewed_content (view_of h st r) i (c_classification r)) (components_of st (c_id r)) e"
    and new: "\<And>e. e \<in> set new \<Longrightarrow> e_claim e = c_id r" "\<And>e. e \<in> set new \<Longrightarrow> \<exists>n. e_id e = pending_id n"
    and r': "r' = transition_row_update h (view_of h st r) i (c_classification r) tr why r"
    and c: "committed st r r' t (with_ids h new) (s_components st) st'" and t: "\<not> authoring t"
  shows "has_verification (view_of h st' r')"
proof -
  let ?x = "reviewed_content (view_of h st r) i (c_classification r)" and ?ks = "components_of st (c_id r)"
  have st': "s_evidence st' = s_evidence st @ with_ids h new" "s_runs st' = s_runs st"
      "s_runbooks st' = s_runbooks st" "s_cells st' = s_cells st" "s_components st' = s_components st"
    using c by (simp_all add: committed_def)
  have fields: "c_runbook r' = c_runbook ?x" "c_source r' = c_source ?x" "c_environment r' = c_environment ?x"
    "c_workspace r' = c_workspace r" "c_id r' = c_id r" "c_classification r' = c_classification r"
    by (simp_all add: r' transition_row_update_def)
  have content: "verified_content r' cls ks = verified_content ?x cls ks" for cls ks
    by (simp add: r' verified_content_def transition_row_update_def reviewed_content_def)
  have ks: "components_of st' (c_id r') = ?ks"
    by (simp add: components_of_def st' fields(5))
  have run: "successful_run st' (shown r') y = successful_run st ?x y" for y
    by (rule successful_run_cong) (simp_all add: fields st')
  have r: "r \<in> set (s_claims st)" "r' \<in> set (s_claims st')"
    using c committed_claims [OF c] by (auto simp: committed_def)
  have rows: "stored_row st (c_id r) = Some r" "stored_row st' (c_id r) = Some r'"
    using stored_row_unique [OF claim_invD(2) [OF inv] r(1)] stored_row_unique [OF claim_invD(2) [OF inv'] r(2)]
    by (simp_all add: fields(5))
  have hash: "claim_verification_hash h (shown r') ?ks = claim_verification_hash h ?x ?ks"
    by (simp add: claim_verification_hash_def content fields(6))
  have legacy: "legacy_verification_hash h st' (shown r') = legacy_verification_hash h st ?x"
    using ks by (simp add: legacy_verification_hash_def rows content fields(5,6))
  obtain k where k: "e\<lparr>e_id := k\<rparr> \<in> set (evidence_of st' (c_id r))"
    "k = e_id e \<and> e \<in> set (s_evidence st) \<or> e \<in> set new \<and> k \<in> e_id ` set (with_ids h new)"
    using stored_judged [OF e new(1) st'(1)] by blast
  define e' where "e' = e\<lparr>e_id := k\<rparr>"
  have fresh: "e_id ` set (with_ids h new) \<inter> e_id ` set (s_evidence st) = {}"
    using fresh_with_ids [OF f] by (simp add: fresh_ids_def)
  have ids: "e_id e \<in> e_id ` set (s_evidence st) \<and> k = e_id e \<and> e_id e \<notin> e_id ` set (with_ids h new)
      \<or> e_id e \<notin> e_id ` set (s_evidence st) \<and> k \<in> e_id ` set (with_ids h new) \<and> k \<notin> e_id ` set (s_evidence st)"
    using k(2)
  proof
    assume "k = e_id e \<and> e \<in> set (s_evidence st)"
    then show ?thesis using fresh by blast
  next
    assume a: "e \<in> set new \<and> k \<in> e_id ` set (with_ids h new)"
    then obtain n where "e_id e = pending_id n" using new(2) by blast
    then have "e_id e \<notin> e_id ` set (s_evidence st)"
      using history_invD(8) [OF claim_invD(1) [OF inv]] pending_not_stored by (metis imageE)
    then show ?thesis using a fresh by blast
  qed
  have authors: "authors_before st' (c_id r) (review_revision st' (shown r') k)
      = authors_before st (c_id r) (review_revision st ?x (e_id e))"
    by (rule authors_unchanged [OF claim_invD(1) [OF inv] claim_invD(1) [OF inv'] c t ids]) simp_all
  have "valid_independent h st' (shown r') ?ks e'"
    using v authors hash legacy run unfolding valid_independent_def
    by (simp add: e'_def verification_context_def fields(5))
  moreover have "e' \<in> set (evidence_of st' (c_id r'))"
    using k(1) by (simp add: e'_def fields(5))
  moreover have "e_independent e'" "e_kind e' \<in> set review_kinds"
    using v by (simp_all add: e'_def valid_independent_def)
  moreover have "e_kind e' \<noteq> Ev_runbook_execution"
    using \<open>e_kind e' \<in> set review_kinds\<close> by (auto simp: review_kinds_def)
  ultimately show ?thesis
    using ks unfolding has_verification_def list_ex_iff view_of_simps set_map
    by (intro bexI [of _ "view_evidence h st' (shown r') ?ks e'"]) auto
qed

end
