(* ===== verification/Claim_Theorems.thy ===== *)
theory Claim_Theorems
  imports Claim_Gate
begin

text \<open>
  The contracts of the claim ledger, and the example ledgers that witness them: a finding is
  created, reproduced by a runbook and verified by a reviewer.
\<close>

section \<open>Every operation with an expected revision\<close>

datatype claim_op =
    Op_transition transition_input
  | Op_human nat claim_status
  | Op_mark nat string string
  | Op_undo nat string
  | Op_revise revise_input
  | Op_packet packet_input

fun op_expected :: "claim_op \<Rightarrow> nat" where
  "op_expected (Op_transition i) = ti_expected i"
| "op_expected (Op_human n s) = n"
| "op_expected (Op_mark n p r) = n"
| "op_expected (Op_undo n r) = n"
| "op_expected (Op_revise i) = vi_expected i"
| "op_expected (Op_packet i) = pi_expected i"

fun run_op :: "host \<Rightarrow> caller \<Rightarrow> claim_store \<Rightarrow> string \<Rightarrow> claim_op \<Rightarrow> (claim_error, claim_store) res" where
  "run_op h ca st k (Op_transition i) = transition h ca st k i"
| "run_op h ca st k (Op_human n s) = transition_by_human h st k n s"
| "run_op h ca st k (Op_mark n p r) = mark_duplicate h ca st k n p r"
| "run_op h ca st k (Op_undo n r) = undo_duplicate h ca st k n r"
| "run_op h ca st k (Op_revise i) = revise h ca st k i"
| "run_op h ca st k (Op_packet i) = record_triage_packet h ca st k i"

lemma packet_committed:
  assumes inv: "claim_inv d st" and ok: "record_triage_packet h ca st k i = Inr st'"
  shows "\<exists>r r' t es. find_row h st k = Some r \<and> c_revision r = pi_expected i
    \<and> committed st r r' t es (s_components st) st'"
proof -
  obtain r f where r: "find_row h st k = Some r" "c_revision r = pi_expected i"
      "commit_change h ca st (view_of h st r) (pi_reason i) (\<lambda>row. row\<lparr>c_tracking := f\<rparr>) id = Inr st'"
    using ok unfolding record_triage_packet_def claim_get_def require_canonical_def rbind_Inr_iff ensure_Inr_iff
      need_Inr_iff map_option_eq_Some by auto
  have mem: "r \<in> set (s_claims st)" using find_row_Some [OF r(1)] by simp
  show ?thesis
    using commit_change_shape(1) [OF claim_invD(2) [OF inv] mem r(3), of "\<lambda>x. x"] r(1,2) by auto
qed

lemma run_op_committed:
  assumes "claim_inv d st" "run_op h ca st k op = Inr st'"
  obtains r r' t es ks where "find_row h st k = Some r" "c_revision r = op_expected op"
    "committed st r r' t es ks st'"
proof (cases op)
  case (Op_transition i)
  then have ok: "transition h ca st k i = Inr st'" using assms(2) by simp
  show thesis
    by (rule transition_committed [OF assms(1) ok]) (use Op_transition that in auto)
next
  case (Op_human n s)
  then have ok: "transition_by_human h st k n s = Inr st'" using assms(2) by simp
  show thesis
    by (rule transition_by_human_committed [OF assms(1) ok]) (use Op_human that in auto)
next
  case (Op_mark n p r)
  then have ok: "mark_duplicate h ca st k n p r = Inr st'" using assms(2) by simp
  show thesis
    by (rule mark_duplicate_committed [OF assms(1) ok]) (use Op_mark that in auto)
next
  case (Op_undo n r)
  then have ok: "undo_duplicate h ca st k n r = Inr st'" using assms(2) by simp
  show thesis
    by (rule undo_duplicate_committed [OF assms(1) ok]) (use Op_undo that in auto)
next
  case (Op_revise i)
  then have ok: "revise h ca st k i = Inr st'" using assms(2) by simp
  show thesis
    by (rule revise_committed [OF assms(1) ok]) (use Op_revise that in auto)
next
  case (Op_packet i)
  then show thesis
    using packet_committed [OF assms(1), of h ca k i st'] assms(2) that by auto
qed

lemma find_row_other:
  assumes inv: "claim_inv d st" and c: "committed st r r' t es ks st'" and x: "x \<noteq> c_id r"
  shows "find_row h st' x = find_row h st x"
proof (cases "find_row h st x")
  case (Some y)
  then have y: "y \<in> set (s_claims st)" "c_id y = x" "c_workspace y = h_workspace h"
    using find_row_Some by blast+
  have "distinct (map c_id (s_claims st'))"
    using claim_invD(2) [OF inv] committed_ids [OF c] by simp
  moreover have "y \<in> set (s_claims st')" using y x committed_claims [OF c] by simp
  ultimately show ?thesis using find_row_unique [of st' y h] y Some by simp
next
  case None
  then have "\<forall>y\<in>set (s_claims st). \<not> (c_id y = x \<and> c_workspace y = h_workspace h)"
    by (simp add: find_row_def find_None_iff)
  then have "\<forall>y\<in>set (s_claims st'). \<not> (c_id y = x \<and> c_workspace y = h_workspace h)"
    using x c committed_claims [OF c] by (auto simp: committed_def successor_def)
  then have "find_row h st' x = None" by (simp add: find_row_def find_None_iff)
  with None show ?thesis by simp
qed

section \<open>Example ledgers\<close>

definition ex_host :: "string \<Rightarrow> string \<Rightarrow> host" where
  "ex_host now tag = \<lparr>h_workspace = ''w'', h_subject = None, h_session = Some ''s'', h_memory = [], h_now = now,
     h_uuid = (\<lambda>n. tag @ replicate n (CHR ''x'')), h_sha = (\<lambda>s. ''0''), h_compare = cmp_units, h_date = (\<lambda>s. True)\<rparr>"

definition ex_agent :: "string \<Rightarrow> caller" where
  "ex_agent a = \<lparr>ca_author = Some (''p'', ''m''), ca_actor = Some a, ca_fresh = True\<rparr>"

definition ex_evidence :: "string \<Rightarrow> string \<Rightarrow> bool \<Rightarrow> evidence_input" where
  "ex_evidence kind ref ind = \<lparr>i_kind = kind, i_reference = Some ref, i_hash = None, i_summary = ''e'',
     i_session = None, i_actor = None, i_independent = ind, i_metadata = None\<rparr>"

definition ex_create :: create_input where
  "ex_create = \<lparr>ni_surface = None, ni_memory = None, ni_classification = Some ''security.bug'', ni_components = [],
     ni_title = ''t'', ni_summary = Some ''s'', ni_impact = None, ni_steps = Some ''run'', ni_rating = None,
     ni_confidence = None, ni_source = Some ''git:r:1'', ni_environment = Some ''runtime:x:1'',
     ni_evidence = [ex_evidence ''code'' ''f.c'' False], ni_reason = None\<rparr>"

definition ex_move :: "nat \<Rightarrow> claim_status \<Rightarrow> evidence_input list \<Rightarrow> transition_input" where
  "ex_move n s es = \<lparr>ti_expected = n, ti_to = s, ti_reason = ''r'', ti_evidence = es, ti_source = None,
     ti_environment = None, ti_runbook = Some (Some ''b''), ti_steps = None, ti_report = None,
     ti_disclosure = None, ti_classification = None, ti_surface = None\<rparr>"

definition ex_run :: run_row where
  "ex_run = \<lparr>r_run = ''run1'', r_runbook = ''b'', r_workspace = ''w'', r_status = succeeded, r_full = True,
     r_contentRevision = Some 1, r_contentHash = Some ''h'', r_selected = 1, r_completed = 1,
     r_source = Some ''git:r:1'', r_environment = Some ''runtime:x:1'', r_required = [''c'']\<rparr>"

definition ex_id :: string where
  "ex_id = ''claim_a''"

definition ex_created :: "(claim_error, claim_store \<times> string) res" where
  "ex_created = create_with_status (ex_host ''t1'' ''a'') (ex_agent ''finder'') empty_store ex_create Observed None"

definition ex_store0 :: claim_store where
  "ex_store0 = fst (projr ex_created)"

definition ex_store1 :: claim_store where
  "ex_store1 = ex_store0\<lparr>s_runbooks := [\<lparr>b_id = ''b'', b_workspace = ''w'', b_duplicateOf = None, b_contentRevision = Some 1\<rparr>],
     s_runs := Some [ex_run], s_cells := [\<lparr>x_run = ''run1'', x_cell = ''c'', x_status = Some succeeded, x_exit = Some 0\<rparr>],
     s_reports := None\<rparr>"

definition ex_reproduced :: "(claim_error, claim_store) res" where
  "ex_reproduced = transition (ex_host ''t2'' ''b'') (ex_agent ''finder'') ex_store1 ex_id
     (ex_move 1 Reproduced [ex_evidence ''runbook_execution'' ''run1'' False])"

definition ex_store2 :: claim_store where
  "ex_store2 = projr ex_reproduced"

definition ex_review :: transition_input where
  "ex_review = ex_move 2 Verified [ex_evidence ''independent_verification'' ''run1'' True]"

definition ex_verified :: "(claim_error, claim_store) res" where
  "ex_verified = transition (ex_host ''t3'' ''c'') (ex_agent ''reviewer'') ex_store2 ex_id ex_review"

definition ex_store3 :: claim_store where
  "ex_store3 = projr ex_verified"

lemma ex_not_isl: "\<not> isl ex_created" "snd (projr ex_created) = ex_id" "\<not> isl ex_reproduced" "\<not> isl ex_verified"
  by code_simp+

lemma ex_ids:
  "map e_id (s_evidence ex_store1) = [''claim_evidence_ax'']" "map c_id (s_claims ex_store1) = [''claim_a'']"
  "map e_id (s_evidence ex_store2) = [''claim_evidence_ax'', ''claim_evidence_bx'']"
  "map c_id (s_claims ex_store2) = [''claim_a'']"
  by code_simp+

lemma ex_results:
  "ex_created = Inr (ex_store0, ex_id)" "ex_reproduced = Inr ex_store2" "ex_verified = Inr ex_store3"
  using ex_not_isl unfolding ex_store0_def ex_store2_def ex_store3_def
  by (metis prod.collapse sum.collapse(2))+

definition any_date :: "string \<Rightarrow> bool" where
  "any_date s = True"

lemma ex_good_host:
  assumes "\<forall>k\<in>set (map e_id (s_evidence st)). \<not> starts_with k (''claim_evidence_'' @ tag)"
    and "\<forall>k\<in>set (map c_id (s_claims st)). \<not> starts_with k (''claim_'' @ tag)"
    and "trimmed now"
  shows "good_host any_date (ex_host now tag) st"
proof -
  have "inj (\<lambda>n. tag @ replicate n (CHR ''x''))"
    by (auto simp: inj_def dest: arg_cong [where f = length])
  moreover have "evidence_uuid (ex_host now tag) n \<notin> e_id ` set (s_evidence st)" for n
  proof
    assume "evidence_uuid (ex_host now tag) n \<in> e_id ` set (s_evidence st)"
    then have "\<not> starts_with (evidence_uuid (ex_host now tag) n) (''claim_evidence_'' @ tag)"
      using assms(1) by auto
    moreover have "evidence_uuid (ex_host now tag) n = (''claim_evidence_'' @ tag) @ replicate n (CHR ''x'')"
      by (simp add: evidence_uuid_def evidence_prefix_def ex_host_def)
    ultimately show False using starts_with_append by metis
  qed
  moreover have "''claim_'' @ h_uuid (ex_host now tag) n \<notin> c_id ` set (s_claims st)" for n
  proof
    assume "''claim_'' @ h_uuid (ex_host now tag) n \<in> c_id ` set (s_claims st)"
    then have "\<not> starts_with (''claim_'' @ h_uuid (ex_host now tag) n) (''claim_'' @ tag)"
      using assms(2) by (metis (no_types, lifting) image_iff list.set_map)
    moreover have "''claim_'' @ h_uuid (ex_host now tag) n = (''claim_'' @ tag) @ replicate n (CHR ''x'')"
      by (simp add: ex_host_def)
    ultimately show False using starts_with_append by metis
  qed
  ultimately show ?thesis
    using assms(3) by (auto simp: good_host_def fresh_host_def ex_host_def stamp_def any_date_def plain_def is_ws_def fun_eq_iff)
qed

lemma ex_hosts:
  "good_host any_date (ex_host ''t1'' ''a'') empty_store" "good_host any_date (ex_host ''t2'' ''b'') ex_store1"
  "good_host any_date (ex_host ''t3'' ''c'') ex_store2"
  by (rule ex_good_host; simp add: ex_ids empty_store_def trimmed_def js_trim_def trim_start_def trim_end_def is_ws_def)+

lemma ex_reachable:
  "reachable_ledger any_date ex_store1" "reachable_ledger any_date ex_store2" "reachable_ledger any_date ex_store3"
proof -
  have "claim_step any_date empty_store ex_store0"
    by (rule step_create [OF ex_hosts(1) _ _ ex_results(1) [unfolded ex_created_def]])
      (simp_all add: surfaces_named_def opt_trimmed_def ex_create_def ex_host_def)
  moreover have "claim_step any_date ex_store0 ex_store1"
    unfolding ex_store1_def by (rule step_tables)
  ultimately show one: "reachable_ledger any_date ex_store1"
    unfolding reachable_ledger_def by (meson converse_rtranclp_into_rtranclp rtranclp.rtrancl_refl)
  show two: "reachable_ledger any_date ex_store2"
    using one step_transition [OF ex_hosts(2) ex_results(2) [unfolded ex_reproduced_def]]
    unfolding reachable_ledger_def by (rule rtranclp.rtrancl_into_rtrancl)
  show "reachable_ledger any_date ex_store3"
    using two step_transition [OF ex_hosts(3) ex_results(3) [unfolded ex_verified_def]]
    unfolding reachable_ledger_def by (rule rtranclp.rtrancl_into_rtrancl)
qed

section \<open>What a transition leaves\<close>

lemma observation_stored:
  assumes "list_ex direct_observation (map evidence.truncate (v_evidence (view_of h st r)) @ new)"
    and "\<And>e. e \<in> set new \<Longrightarrow> e_claim e = c_id r" "s_evidence st' = s_evidence st @ with_ids h new" "c_id r' = c_id r"
  shows "list_ex direct_observation (v_evidence (view_of h st' r'))"
proof -
  obtain e where e: "e \<in> set (map evidence.truncate (v_evidence (view_of h st r)) @ new)" "direct_observation e"
    using assms(1) unfolding list_ex_iff by blast
  obtain x where "e\<lparr>e_id := x\<rparr> \<in> set (evidence_of st' (c_id r))"
    using stored_judged [OF e(1) assms(2,3)] by blast
  then show ?thesis
    using e(2) assms(4) by (auto simp: list_ex_iff direct_observation_def intro!: bexI [of _ "e\<lparr>e_id := x\<rparr>"])
qed

text \<open>A move to verified or later is no authorship of the claim.\<close>

lemma review_not_authoring:
  assumes "claim_inv d st" "r \<in> set (s_claims st)" "s \<in> set verified_or_later" "c_status r = s \<Longrightarrow> es \<noteq> []"
  shows "\<not> authoring (log_row h k (Suc (c_revision r)) (Some (c_status r)) s why a es False)"
proof -
  have "1 \<le> c_revision r" using history_invD(3) [OF claim_invD(1) [OF assms(1)]] assms(2) by blast
  then show ?thesis using assms(3,4) by (auto simp: authoring_def log_row_def verified_or_later_def)
qed

section \<open>Properties\<close>

text \<open>
  C15. In every ledger reachable by the operations from the empty one, every claim's log is
  consecutive from revision 1 to the claim's revision and leads from its creation to its status by
  allowed moves or board overrides; claims keep reproduction steps from reproduced onward, remember
  what they were before they became stale, and carry well-formed tracking; duplicates point to a
  canonical claim of the same subject; and chains have no cycles.
\<close>

theorem claim_ledger_invariant: "reachable_ledger d st \<Longrightarrow> claim_inv d st"
  by (rule claim_inv_reachable)

theorem claim_ledger_invariant_witness: "claim_inv any_date ex_store3"
  by (rule claim_ledger_invariant [OF ex_reachable(3)])

text \<open>
  C16. A transition that succeeds leaves evidence that the reader itself judges valid: a direct
  observation from observed, reproduction steps and a full successful run of the bound runbook at
  the recorded source and environment from reproduced, and from verified on, whenever the
  classification stays what it was (given again or left out), a review bound to the content by an actor
  who is recorded and who wrote none of the claim before the review.
\<close>

theorem transition_leaves_evidence:
  assumes "claim_inv d st" "good_host d h st" "transition h ca st k i = Inr st'"
  shows "\<exists>v. claim_get h st' k = Some v \<and> c_status v = ti_to i
     \<and> (ti_to i = Observed \<longrightarrow> list_ex direct_observation (v_evidence v))
     \<and> (ti_to i \<in> set reproduced_or_later \<longrightarrow> js_trim (c_steps v) \<noteq> [] \<and> has_reproduction v)
     \<and> (ti_to i \<in> set verified_or_later
          \<and> map_option c_classification (claim_get h st k) = Some (c_classification v) \<longrightarrow> has_verification v)"
proof (rule transition_committed [OF assms(1,3)])
  fix r :: claim and cls tr new
  let ?r' = "transition_row_update h (view_of h st r) i cls tr (stale_note i) r"
  let ?t = "log_row h k (Suc (c_revision r)) (Some (c_status r)) (ti_to i) (js_trim (ti_reason i)) (ca_actor ca)
        (map e_id (with_ids h new)) False"
  assume r: "find_row h st k = Some r"
    and cls: "claim_classification (Some (case ti_classification i of None \<Rightarrow> c_classification r | Some c \<Rightarrow> c)) = Inr cls"
    and gate: "validate_transition_evidence h st (reviewed_content (view_of h st r) i cls) (components_of st k) i
       (map evidence.truncate (v_evidence (view_of h st r)) @ new) = Inr ()"
    and len: "length new = length (ti_evidence i)" and new: "\<And>e. e \<in> set new \<Longrightarrow> e_claim e = k"
      "\<And>e. e \<in> set new \<Longrightarrow> \<exists>n. e_id e = pending_id n"
    and same: "c_status r = ti_to i \<Longrightarrow> ti_evidence i \<noteq> []"
    and c: "committed st r ?r' ?t (with_ids h new) (s_components st) st'"
  let ?es = "map evidence.truncate (v_evidence (view_of h st r)) @ new"
  have g1: "ti_to i = Observed \<Longrightarrow> list_ex direct_observation ?es"
    and g2: "ti_to i \<in> set reproduced_or_later \<Longrightarrow> js_trim (c_steps (reviewed_content (view_of h st r) i cls)) \<noteq> []"
    and g3: "ti_to i \<in> set reproduced_or_later \<Longrightarrow>
      list_ex (valid_reproduction st (reviewed_content (view_of h st r) i cls)) ?es"
    and g4: "ti_to i \<in> set verified_or_later \<Longrightarrow>
      list_ex (valid_independent h st (reviewed_content (view_of h st r) i cls) (components_of st k)) ?es"
    using gate unfolding gate_Inr by blast+
  have k: "c_id r = k" using find_row_Some [OF r] by simp
  have st': "s_evidence st' = s_evidence st @ with_ids h new" using c by (simp add: committed_def)
  have inv': "claim_inv d st'" by (rule transition_inv [OF assms])
  have "claim_get h st' k = Some (view_of h st' ?r')"
    using find_row_committed [OF assms(1) c r] by (simp add: claim_get_def)
  moreover have "c_status (view_of h st' ?r') = ti_to i" by (simp add: transition_row_update_def)
  moreover have "list_ex direct_observation (v_evidence (view_of h st' ?r'))" if to: "ti_to i = Observed"
    using new(1) k by (intro observation_stored [OF g1 [OF to] _ st']) (auto simp: transition_row_update_def)
  moreover have "js_trim (c_steps (view_of h st' ?r')) \<noteq> [] \<and> has_reproduction (view_of h st' ?r')"
    if to: "ti_to i \<in> set reproduced_or_later"
  proof -
    obtain e where "e \<in> set (map evidence.truncate (v_evidence (view_of h st r)) @ new)"
      "valid_reproduction st (reviewed_content (view_of h st r) i cls) e"
      using g3 [OF to] unfolding list_ex_iff by blast
    then have "has_reproduction (view_of h st' ?r')"
      using new(1) k by (intro reproduction_stored [OF _ _ _ refl c]) auto
    moreover have "c_steps ?r' = c_steps (reviewed_content (view_of h st r) i cls)"
      by (simp add: transition_row_update_def)
    ultimately show ?thesis using g2 [OF to] by simp
  qed
  moreover have "has_verification (view_of h st' ?r')"
    if to: "ti_to i \<in> set verified_or_later
      \<and> map_option c_classification (claim_get h st k) = Some (c_classification (view_of h st' ?r'))"
  proof -
    have row: "row_ok d r" using claim_invD(3) [OF assms(1)] find_row_Some [OF r] by blast
    have stored: "c_classification ?r' = (if ti_classification i = None then c_classification r else cls)"
      by (simp add: transition_row_update_def)
    have cls': "cls = c_classification r"
    proof (cases "ti_classification i")
      case None
      then show ?thesis using cls given_classification [OF row_okD(6,5) [OF row]] by simp
    next
      case (Some c)
      then show ?thesis using to r stored by (simp add: claim_get_def)
    qed
    obtain e where e: "e \<in> set (map evidence.truncate (v_evidence (view_of h st r)) @ new)"
      "valid_independent h st (reviewed_content (view_of h st r) i cls) (components_of st k) e"
      using g4 to unfolding list_ex_iff by blast
    have "with_ids h new \<noteq> []" if "c_status r = ti_to i"
      using same [OF that] len by (cases new) (auto simp: with_ids_def)
    then have "\<not> authoring ?t"
      using to find_row_Some [OF r] by (intro review_not_authoring [OF assms(1)]) auto
    then show ?thesis
      using e new k cls' c assms(2) unfolding cls'
      by (intro review_stored [OF assms(1) inv' _ _ _ _ _ refl]) (auto simp: good_host_def)
  qed
  ultimately show ?thesis by blast
qed

theorem transition_leaves_evidence_witness:
  "\<exists>v. claim_get (ex_host ''t3'' ''c'') ex_store3 ex_id = Some v \<and> c_status v = Verified
     \<and> has_reproduction v \<and> has_verification v"
proof -
  have kept: "map_option c_classification (claim_get (ex_host ''t3'' ''c'') ex_store2 ex_id)
      = map_option c_classification (claim_get (ex_host ''t3'' ''c'') ex_store3 ex_id)"
    by code_simp
  show ?thesis
    using transition_leaves_evidence [OF claim_inv_reachable [OF ex_reachable(2)] ex_hosts(3)
        ex_results(3) [unfolded ex_verified_def]] kept
    by (auto simp: ex_review_def ex_move_def reproduced_or_later_def verified_or_later_def)
qed

end
