(* ===== verification/Claim_Contracts.thy ===== *)
theory Claim_Contracts
  imports Claim_Theorems
begin

text \<open>
  Contracts of the claim ledger that relate operations to each other: the optimistic revision check,
  marking and unmarking duplicates, the stored form of the security tracking, and the graph of
  chain components.
\<close>

section \<open>Revisions\<close>

lemma run_op_expected:
  assumes "run_op h ca st k op = Inr st'"
  obtains r where "find_row h st k = Some r" "c_revision r = op_expected op"
proof -
  have "\<exists>r. find_row h st k = Some r \<and> c_revision r = op_expected op"
    using assms
    by (cases op) (auto simp: transition_def transition_from_def transition_by_human_def mark_duplicate_def
        undo_duplicate_def revise_def revise_from_def record_triage_packet_def require_canonical_def
        claim_get_def guard_simps)
  with that show thesis by blast
qed

text \<open>
  C17. Every change of a claim names the revision it was made against.  When it succeeds that was the
  current one: the claim moves on by one revision, the log grows by exactly the entry of this
  revision, every other claim is untouched, and any other change made against the old revision is
  refused, whoever makes it.
\<close>

theorem optimistic_concurrency:
  assumes "claim_inv d st" "run_op h ca st k op = Inr st'"
  shows "\<exists>r r' t. find_row h st k = Some r \<and> c_revision r = op_expected op
     \<and> find_row h st' k = Some r' \<and> c_revision r' = Suc (op_expected op)
     \<and> s_transitions st' = s_transitions st @ [t] \<and> t_claim t = k \<and> t_revision t = c_revision r'
     \<and> t_from t = Some (c_status r) \<and> t_to t = c_status r'
     \<and> (\<forall>x. x \<noteq> k \<longrightarrow> find_row h st' x = find_row h st x)
     \<and> (\<forall>h2 ca2 op2. op_expected op2 = op_expected op \<longrightarrow> isl (run_op h2 ca2 st' k op2))"
proof (rule run_op_committed [OF assms])
  fix r r' :: claim and t es ks
  assume r: "find_row h st k = Some r" and n: "c_revision r = op_expected op" and c: "committed st r r' t es ks st'"
  have r': "find_row h st' k = Some r'" by (rule find_row_committed [OF assms(1) c r])
  have k: "c_id r = k" using find_row_Some [OF r] by simp
  have n': "c_revision r' = Suc (op_expected op)" using c n by (simp add: committed_def successor_def)
  have "isl (run_op h2 ca2 st' k op2)" if e: "op_expected op2 = op_expected op" for h2 ca2 op2
  proof (rule ccontr)
    assume "\<not> isl (run_op h2 ca2 st' k op2)"
    then obtain st2 where "run_op h2 ca2 st' k op2 = Inr st2" by (cases "run_op h2 ca2 st' k op2") auto
    then obtain x where x: "find_row h2 st' k = Some x" "c_revision x = op_expected op2"
      by (rule run_op_expected)
    have "distinct (map c_id (s_claims st'))"
      using claim_invD(2) [OF assms(1)] committed_ids [OF c] by simp
    then have "x = r'"
      using distinct_row [of "s_claims st'" r' x] find_row_Some [OF x(1)] find_row_Some [OF r'] by simp
    with x(2) n' e show False by simp
  qed
  then show ?thesis
    using r n r' n' c k find_row_other [OF assms(1) c] by (auto simp: committed_def successor_def)
qed

theorem optimistic_concurrency_witness:
  "\<exists>r. find_row (ex_host ''t3'' ''c'') ex_store3 ex_id = Some r \<and> c_revision r = 3
     \<and> isl (transition_by_human (ex_host ''t3'' ''c'') ex_store3 ex_id 2 Rejected)"
proof -
  have ok: "run_op (ex_host ''t3'' ''c'') (ex_agent ''reviewer'') ex_store2 ex_id (Op_transition ex_review) = Inr ex_store3"
    using ex_results(3) by (simp add: ex_verified_def)
  have n: "op_expected (Op_transition ex_review) = 2" by (simp add: ex_review_def ex_move_def)
  obtain r' where "find_row (ex_host ''t3'' ''c'') ex_store3 ex_id = Some r'" "c_revision r' = Suc 2"
    and refused: "\<forall>h2 ca2 op2. op_expected op2 = 2 \<longrightarrow> isl (run_op h2 ca2 ex_store3 ex_id op2)"
    using optimistic_concurrency [OF claim_inv_reachable [OF ex_reachable(2)] ok] unfolding n by blast
  moreover have "isl (run_op (ex_host ''t3'' ''c'') (ex_agent ''reviewer'') ex_store3 ex_id (Op_human 2 Rejected))"
    using refused [rule_format, of "Op_human 2 Rejected" "ex_host ''t3'' ''c''" "ex_agent ''reviewer''"] by simp
  ultimately show ?thesis by simp
qed

section \<open>Duplicates\<close>

lemma undo_duplicate_succeeds:
  assumes inv: "claim_inv d st" and r: "find_row h st k = Some r" "truthy (c_duplicateOf r)" and why: "js_trim reason \<noteq> []"
  shows "\<exists>st'. undo_duplicate h ca st k (c_revision r) reason = Inr st'"
proof -
  have mem: "r \<in> set (s_claims st)" "c_id r = k" using find_row_Some [OF r(1)] by auto
  let ?f = "\<lambda>x. x\<lparr>c_duplicateOf := None, c_duplicateAt := None, c_updatedAt := h_now h, c_revision := Suc (c_revision r)\<rparr>"
  have "commit_row st (c_id r) (c_revision r) ?f = Inr (put_claim (?f r) st)"
    by (rule commit_row_put [OF claim_invD(2) [OF inv] mem(1)]) simp
  then show ?thesis
    using r why mem by (simp add: undo_duplicate_def claim_get_def commit_change_def required_text_def norm_text_def)
qed

lemma claim_list_ids:
  "k \<in> c_id ` set (claim_list h st) \<longleftrightarrow>
     (\<exists>r\<in>set (s_claims st). c_id r = k \<and> c_workspace r = h_workspace h \<and> c_duplicateOf r = None)"
  by (force simp: claim_list_def)

lemma claim_listed:
  assumes "claim_inv d st" "find_row h st k = Some r"
  shows "k \<in> c_id ` set (claim_list h st) \<longleftrightarrow> c_duplicateOf r = None"
  unfolding claim_list_ids using find_row_Some [OF assms(2)] distinct_row [OF claim_invD(2) [OF assms(1)]] by metis

lemma listed_duplicate:
  assumes "c \<in> set (s_claims st)" "c_id c = k" "c_workspace c = c_workspace p" "c_duplicateOf c = Some (c_id p)"
  shows "k \<in> d_id ` set (v_duplicates (view_of h st p))"
proof -
  let ?f = "\<lambda>c. \<lparr>d_id = c_id c, d_projection = fst (projection_of st c), d_maturity = snd (projection_of st c),
         d_rating = c_rating c, d_classification = c_classification c, d_title = c_title c,
         d_status = c_status c, d_revision = c_revision c, d_markedAt = c_duplicateAt c\<rparr>"
  have "?f c \<in> set (v_duplicates (view_of h st p))"
    using assms unfolding view_of_simps duplicates_of_def set_map by (intro image_eqI [of _ _ c]) simp_all
  moreover have "d_id (?f c) = k" using assms(2) by simp
  ultimately show ?thesis by (metis image_eqI)
qed

text \<open>
  C18. Marking a claim as a duplicate hides it from the list and shows it at its parent, which stays
  canonical; undoing the mark with the next revision always succeeds and gives the claim back as it
  was, but for its time stamp and revision.
\<close>

theorem duplicate_roundtrip:
  assumes "claim_inv d st" "mark_duplicate h ca st k n p reason = Inr st'" "js_trim why \<noteq> []"
    "h_workspace h2 = h_workspace h"
  shows "\<exists>r q st2. find_row h st k = Some r \<and> c_revision r = n \<and> c_duplicateOf r = None
     \<and> k \<notin> c_id ` set (claim_list h st') \<and> js_trim p \<in> c_id ` set (claim_list h st')
     \<and> claim_get h st' (js_trim p) = Some q \<and> k \<in> d_id ` set (v_duplicates q)
     \<and> undo_duplicate h2 ca2 st' k (Suc n) why = Inr st2
     \<and> find_row h st2 k = Some (r\<lparr>c_duplicateAt := None, c_updatedAt := h_now h2, c_revision := n + 2\<rparr>)
     \<and> k \<in> c_id ` set (claim_list h st2)"
proof (rule mark_duplicate_committed [OF assms(1,2)])
  fix r x :: claim and p0
  let ?r' = "r\<lparr>c_duplicateOf := Some p0, c_duplicateAt := Some (h_now h), c_updatedAt := h_now h,
        c_revision := Suc (c_revision r)\<rparr>"
  let ?t = "log_row h k (Suc (c_revision r)) (Some (c_status r)) (c_status r) (js_trim reason) (ca_actor ca) [] False"
  assume r: "find_row h st k = Some r" "c_revision r = n" "c_duplicateOf r = None" "p0 = js_trim p" "p0 \<noteq> k" "trimmed p0"
    and x: "find_row h st p0 = Some x" "c_duplicateOf x = None"
    and c: "committed st r ?r' ?t [] (s_components st) st'"
  have inv': "claim_inv d st'" by (rule mark_duplicate_inv [OF assms(1,2)])
  have row: "find_row h st' k = Some ?r'" by (rule find_row_committed [OF assms(1) c r(1)])
  have k: "c_id r = k" "c_workspace r = h_workspace h" using find_row_Some [OF r(1)] by auto
  have parent: "find_row h st' p0 = Some x"
    using find_row_other [OF assms(1) c] r(5) x(1) k by metis
  have same: "find_row h2 s k = find_row h s k" for s using assms(4) by (simp add: find_row_def)
  have "truthy (c_duplicateOf ?r')" using r(6) by (simp add: truthy_def trimmed_def)
  then obtain st2 where st2: "undo_duplicate h2 ca2 st' k (Suc n) why = Inr st2"
    using undo_duplicate_succeeds [OF inv' _ _ assms(3), of h2 k ?r' ca2] row same r(2) by auto
  obtain y where y: "find_row h2 st' k = Some y"
    and c2: "committed st' y (y\<lparr>c_duplicateOf := None, c_duplicateAt := None, c_updatedAt := h_now h2,
        c_revision := Suc (c_revision y)\<rparr>)
      (log_row h2 k (Suc (c_revision y)) (Some (c_status y)) (c_status y) (js_trim why) (ca_actor ca2) [] False)
      [] (s_components st') st2"
    by (rule undo_duplicate_committed [OF inv' st2])
  have "y = ?r'" using y row same by simp
  then have row2: "find_row h st2 k = Some (r\<lparr>c_duplicateAt := None, c_updatedAt := h_now h2, c_revision := n + 2\<rparr>)"
    using find_row_committed [OF inv' c2 y] same r(2,3) by simp
  moreover have "k \<in> c_id ` set (claim_list h st2)"
    using claim_listed [OF undo_duplicate_inv [OF inv' st2] row2] r(3) by simp
  moreover have "k \<notin> c_id ` set (claim_list h st')" using claim_listed [OF inv' row] by simp
  moreover have "js_trim p \<in> c_id ` set (claim_list h st')" using claim_listed [OF inv' parent] x(2) r(4) by simp
  moreover have "claim_get h st' (js_trim p) = Some (view_of h st' x)"
    using parent r(4) by (simp add: claim_get_def)
  moreover have "k \<in> d_id ` set (v_duplicates (view_of h st' x))"
    using find_row_Some [OF row] find_row_Some [OF parent] by (intro listed_duplicate [of ?r']) simp_all
  ultimately show ?thesis
    using r(1,2,3) st2 by blast
qed

text \<open>Two leads, the second marked as a duplicate of the first.\<close>

definition ex_lead :: "string \<Rightarrow> string \<Rightarrow> create_input" where
  "ex_lead cls title = \<lparr>ni_surface = None, ni_memory = None, ni_classification = Some cls, ni_components = [],
     ni_title = title, ni_summary = None, ni_impact = None, ni_steps = None, ni_rating = None,
     ni_confidence = None, ni_source = None, ni_environment = None, ni_evidence = [], ni_reason = None\<rparr>"

definition ex_one :: "(claim_error, claim_store \<times> string) res" where
  "ex_one = create_lead (ex_host ''t1'' ''a'') (ex_agent ''x'') empty_store (ex_lead ''general.result'' ''t'') None"

definition ex_two :: "(claim_error, claim_store \<times> string) res" where
  "ex_two = create_lead (ex_host ''t2'' ''b'') (ex_agent ''x'') (fst (projr ex_one)) (ex_lead ''general.result'' ''u'') None"

definition ex_marked :: "(claim_error, claim_store) res" where
  "ex_marked = mark_duplicate (ex_host ''t3'' ''c'') (ex_agent ''x'') (fst (projr ex_two)) ''claim_b'' 1 ''claim_a'' ''same''"

lemma not_isl_Inr: "\<not> isl x \<Longrightarrow> x = Inr (projr x)"
  by (cases x) auto

lemma ex_leads_ok: "\<not> isl ex_one" "\<not> isl ex_two" "\<not> isl ex_marked"
  by code_simp+

lemma ex_one_tables:
  "map e_id (s_evidence (fst (projr ex_one))) = []" "map c_id (s_claims (fst (projr ex_one))) = [''claim_a'']"
  by code_simp+

lemma create_lead_reachable:
  assumes "reachable_ledger any_date st" "good_host any_date (ex_host now tag) st"
    and "\<not> isl (create_lead (ex_host now tag) ca st (ex_lead cls title) None)"
  shows "reachable_ledger any_date (fst (projr (create_lead (ex_host now tag) ca st (ex_lead cls title) None)))"
proof -
  obtain st' k where ok: "create_lead (ex_host now tag) ca st (ex_lead cls title) None = Inr (st', k)"
    using not_isl_Inr [OF assms(3)] by (cases "projr (create_lead (ex_host now tag) ca st (ex_lead cls title) None)") metis
  have "claim_step any_date st st'"
    by (rule step_create [OF assms(2) _ _ ok [unfolded create_lead_def]])
      (simp_all add: surfaces_named_def opt_trimmed_def ex_lead_def ex_host_def)
  with assms(1) show ?thesis
    unfolding ok reachable_ledger_def by (simp add: rtranclp.rtrancl_into_rtrancl)
qed

lemma ex_two_reachable: "reachable_ledger any_date (fst (projr ex_two))"
proof -
  have "reachable_ledger any_date (fst (projr ex_one))"
    using ex_leads_ok(1) unfolding ex_one_def
    by (intro create_lead_reachable ex_hosts(1)) (simp_all add: reachable_ledger_def)
  moreover have "good_host any_date (ex_host ''t2'' ''b'') (fst (projr ex_one))"
    by (rule ex_good_host; simp add: ex_one_tables trimmed_def js_trim_def trim_start_def trim_end_def is_ws_def)
  ultimately show ?thesis
    using ex_leads_ok(2) unfolding ex_two_def by (intro create_lead_reachable)
qed

theorem duplicate_roundtrip_witness:
  "\<exists>st' st2. mark_duplicate (ex_host ''t3'' ''c'') (ex_agent ''x'') (fst (projr ex_two)) ''claim_b'' 1 ''claim_a'' ''same'' = Inr st'
     \<and> ''claim_b'' \<notin> c_id ` set (claim_list (ex_host ''t3'' ''c'') st')
     \<and> undo_duplicate (ex_host ''t4'' ''d'') (ex_agent ''y'') st' ''claim_b'' 2 ''not the same'' = Inr st2
     \<and> ''claim_b'' \<in> c_id ` set (claim_list (ex_host ''t3'' ''c'') st2)"
proof -
  have ok: "mark_duplicate (ex_host ''t3'' ''c'') (ex_agent ''x'') (fst (projr ex_two)) ''claim_b'' 1 ''claim_a'' ''same''
      = Inr (projr ex_marked)"
    using not_isl_Inr [OF ex_leads_ok(3)] unfolding ex_marked_def .
  have "js_trim ''not the same'' \<noteq> []" by (simp add: js_trim_def trim_start_def trim_end_def is_ws_def)
  moreover have "h_workspace (ex_host ''t4'' ''d'') = h_workspace (ex_host ''t3'' ''c'')" by (simp add: ex_host_def)
  ultimately show ?thesis
    using duplicate_roundtrip [OF claim_inv_reachable [OF ex_two_reachable] ok, of "''not the same''" "ex_host ''t4'' ''d''"
        "ex_agent ''y''"] ok by (simp only: numeral_2_eq_2 One_nat_def) blast
qed

end
