(* ===== verification/Claim_Agreement.thy ===== *)
theory Claim_Agreement
  imports Claim_Contracts Claim_Checklist
begin

text \<open>
  Where two parts of the claim ledger have to agree: what is stored and what is read back, the
  completion checklist and the gate of a transition, the two routines that mark claims stale, and
  the recursive query and the graph of chain components.
\<close>

section \<open>Stored tracking\<close>

text \<open>
  C19. The security tracking that a reachable ledger stores always passes its own reader, which gives
  back exactly what was written; a claim outside the security classifications shows none.
\<close>

theorem tracking_roundtrip:
  assumes "reachable_ledger d st" "c \<in> set (s_claims st)"
  shows "finding_security_tracking d (tracking_json (c_tracking c)) (c_classification c)
     = Inr (visible_tracking (c_classification c) (c_tracking c))"
proof (cases "c_tracking c")
  case None
  then show ?thesis
    by (simp add: finding_security_tracking_def visible_tracking_def tracking_json_def)
next
  case (Some t)
  then have "tracking_wf d t"
    using claim_invD(3) [OF claim_inv_reachable [OF assms(1)] assms(2)] row_okD(11) by blast
  then show ?thesis
    using Some stored_tracking_json [of d t]
    by (simp add: finding_security_tracking_def visible_tracking_def tracking_json_def)
qed

theorem tracking_roundtrip_witness:
  "finding_security_tracking any_date (tracking_json (c_tracking (hd (s_claims ex_store2)))) ''security.bug''
     = Inr (Some empty_tracking)"
proof -
  have row: "map c_classification (s_claims ex_store2) = [''security.bug'']" "map c_tracking (s_claims ex_store2) = [Some empty_tracking]"
    by code_simp+
  then have "hd (s_claims ex_store2) \<in> set (s_claims ex_store2)" "c_classification (hd (s_claims ex_store2)) = ''security.bug''"
    "c_tracking (hd (s_claims ex_store2)) = Some empty_tracking"
    by (cases "s_claims ex_store2"; simp)+
  then show ?thesis
    using tracking_roundtrip [OF ex_reachable(2), of "hd (s_claims ex_store2)"]
    by (simp add: visible_tracking_def security_classification_def)
qed

section \<open>Chains\<close>

lemma closure_distinct: "distinct seen \<Longrightarrow> distinct (closure es seen ks)"
  by (induction es seen ks rule: closure.induct) auto

text \<open>
  C20. The recursive query over chain components ends on every graph, cyclic or not, and returns each
  claim that the start leads to in one or more steps, exactly once.
\<close>

theorem chain_dependencies_exact:
  "set (dependencies (component_edges st) k) = {y. (k, y) \<in> (set (component_edges st))\<^sup>+}
   \<and> distinct (dependencies (component_edges st) k)"
  by (auto simp: dependencies_trancl) (simp add: dependencies_def closure_distinct)

section \<open>Checklist and gate\<close>

text \<open>A transition that changes nothing but the status.\<close>

definition bare_transition :: "nat \<Rightarrow> claim_status \<Rightarrow> string \<Rightarrow> transition_input" where
  "bare_transition n s why = \<lparr>ti_expected = n, ti_to = s, ti_reason = why, ti_evidence = [], ti_source = None,
     ti_environment = None, ti_runbook = None, ti_steps = None, ti_report = None, ti_disclosure = None,
     ti_classification = None, ti_surface = None\<rparr>"

lemma bare_simps [simp]:
  "ti_expected (bare_transition n s why) = n" "ti_to (bare_transition n s why) = s"
  "ti_reason (bare_transition n s why) = why" "ti_evidence (bare_transition n s why) = []"
  "ti_source (bare_transition n s why) = None" "ti_environment (bare_transition n s why) = None"
  "ti_runbook (bare_transition n s why) = None" "ti_steps (bare_transition n s why) = None"
  "ti_report (bare_transition n s why) = None" "ti_disclosure (bare_transition n s why) = None"
  "ti_classification (bare_transition n s why) = None" "ti_surface (bare_transition n s why) = None"
  by (simp_all add: bare_transition_def)

lemma bare_reviewed:
  "reviewed_content v (bare_transition n s why) (c_classification v) = v"
  by (simp add: reviewed_content_def keep_or_def)

lemma bare_judges:
  "valid_reproduction st (view_of h st r) e = valid_reproduction st (shown r) e"
  "valid_independent h st (view_of h st r) ks e = valid_independent h st (shown r) ks e"
proof -
  have run: "successful_run st (view_of h st r) x = successful_run st (shown r) x" for x
    by (rule successful_run_cong) simp_all
  show "valid_reproduction st (view_of h st r) e = valid_reproduction st (shown r) e"
    by (simp add: valid_reproduction_def run)
  have content: "verified_content (view_of h st r) cls ks = verified_content (shown r) cls ks" for cls ks
    by (simp add: verified_content_def shown_def)
  have hash: "claim_verification_hash h (view_of h st r) ks = claim_verification_hash h (shown r) ks"
    by (simp add: claim_verification_hash_def content)
  have old: "legacy_verification_hash h st (view_of h st r) = legacy_verification_hash h st (shown r)"
    by (simp add: legacy_verification_hash_def content)
  have since: "review_revision st (view_of h st r) x = review_revision st (shown r) x" for x
    by (simp add: review_revision_def split: list.split)
  show "valid_independent h st (view_of h st r) ks e = valid_independent h st (shown r) ks e"
    unfolding valid_independent_def run hash old view_of_simps(1) shown_simps(1) since ..
qed

text \<open>A gate that is passed lets a transition through that changes the status and perhaps the
  classification; the components stay.\<close>

lemma reclassified_transition:
  assumes inv: "claim_inv d st" and r: "find_row h st k = Some r" "c_duplicateOf r = None"
    and to: "s \<in> set (allowed_transitions (c_status r))" "c_status r \<noteq> s" and why: "js_trim why \<noteq> []"
    and i: "i = (bare_transition (c_revision r) s why)\<lparr>ti_classification := c\<rparr>"
    and cls: "claim_classification (Some (case c of None \<Rightarrow> c_classification r | Some c \<Rightarrow> c)) = Inr cls"
    and gate: "validate_transition_evidence h st (reviewed_content (view_of h st r) i cls) (components_of st k) i
       (evidence_of st k) = Inr ()"
  shows "\<exists>st' r'. transition h ca st k i = Inr st' \<and> find_row h st' k = Some r'
     \<and> c_classification r' = (if c = None then c_classification r else cls)
     \<and> s_components st' = s_components st"
proof -
  let ?v = "view_of h st r"
  have f: "ti_expected i = c_revision r" "ti_to i = s" "ti_reason i = why" "ti_evidence i = []"
      "ti_classification i = c" "ti_disclosure i = None" "ti_surface i = None"
    by (simp_all add: i)
  have mem: "r \<in> set (s_claims st)" "c_id r = k" "c_workspace r = h_workspace h"
    using find_row_Some [OF r(1)] by auto
  obtain tr where tr: "transition_tracking ?v i cls = Inr tr"
    by (cases "security_classification cls") (simp_all add: transition_tracking_def truthy_def f)
  have commit: "commit_row st (c_id r) (c_revision r) (transition_row_update h ?v i cls tr x)
      = Inr (put_claim (transition_row_update h ?v i cls tr x r) st)" for x
    by (rule commit_row_put [OF claim_invD(2) [OF inv] mem(1)]) (simp add: transition_row_update_def)
  then have "\<exists>st'. commit_transition h ca st ?v i cls tr [] = Inr st'"
    using why mem(2) by (simp add: commit_transition_def required_text_def norm_text_def f)
  moreover have "transition h ca st k i = commit_transition h ca st ?v i cls tr []"
    using r mem to cls tr gate
    by (simp add: transition_def claim_get_def transition_from_def require_canonical_def truthy_def
        normalize_evidence_def truncate_views o_def f cong: option.case_cong)
  ultimately obtain st' where st': "transition h ca st k i = Inr st'" by metis
  show ?thesis
  proof (rule transition_committed [OF inv st'])
    fix r0 :: claim and cls0 tr0 new
    let ?r' = "transition_row_update h (view_of h st r0) i cls0 tr0 (stale_note i) r0"
    assume r0: "find_row h st k = Some r0"
      and cls0: "claim_classification (Some (case ti_classification i of None \<Rightarrow> c_classification r0 | Some c \<Rightarrow> c)) = Inr cls0"
      and c: "committed st r0 ?r' (log_row h k (Suc (c_revision r0)) (Some (c_status r0)) (ti_to i) (js_trim (ti_reason i))
        (ca_actor ca) (map e_id (with_ids h new)) False) (with_ids h new) (s_components st) st'"
    have eq: "r0 = r" using r0 r(1) by simp
    have "cls0 = cls" using cls0 cls unfolding eq f by simp
    moreover have "c_classification ?r' = (if c = None then c_classification r0 else cls0)"
      by (simp add: transition_row_update_def f)
    moreover have "s_components st' = s_components st" using c by (simp add: committed_def)
    ultimately show ?thesis using st' find_row_committed [OF inv c r0] eq by auto
  qed
qed

lemma bare_transition_succeeds:
  assumes inv: "claim_inv d st" and r: "find_row h st k = Some r" "c_duplicateOf r = None"
    and to: "s \<in> set (allowed_transitions (c_status r))" "c_status r \<noteq> s" and why: "js_trim why \<noteq> []"
    and gate: "validate_transition_evidence h st (view_of h st r) (components_of st k) (bare_transition (c_revision r) s why)
       (evidence_of st k) = Inr ()"
  shows "\<exists>st'. transition h ca st k (bare_transition (c_revision r) s why) = Inr st'"
proof -
  have row: "row_ok d r" using claim_invD(3) [OF inv] find_row_Some [OF r(1)] by blast
  have "bare_transition (c_revision r) s why = (bare_transition (c_revision r) s why)\<lparr>ti_classification := None\<rparr>"
    by (simp add: bare_transition_def)
  from reclassified_transition [OF inv r to why this, of "c_classification r" ca]
    given_classification [OF row_okD(6,5) [OF row]] gate bare_reviewed [of "view_of h st r" "c_revision r" s why]
  show ?thesis by auto
qed

text \<open>
  C21. A canonical claim without components can be turned into a chain by a transition that gives
  the chain classification: rejecting it always succeeds, moving it to observed succeeds when it has
  a direct observation, and the result is a chain without components.  Every creation and revision
  refuses such a chain.
\<close>

theorem transition_makes_empty_chain:
  assumes "claim_inv d st" "claim_get h st k = Some v" "c_duplicateOf v = None" "v_components v = []"
    "s \<in> set (allowed_transitions (c_status v))" "c_status v \<noteq> s" "js_trim why \<noteq> []"
    "s = Rejected \<or> s = Observed \<and> list_ex direct_observation (v_evidence v)"
  shows "(\<exists>st' v'. transition h ca st k ((bare_transition (c_revision v) s why)\<lparr>ti_classification := Some chain_class\<rparr>) = Inr st'
       \<and> claim_get h st' k = Some v' \<and> c_classification v' = chain_class \<and> v_components v' = [])
     \<and> validated_components h st chain_class [] (Some k) = Inl (Link Chain_needs_component)"
proof -
  let ?i = "(bare_transition (c_revision v) s why)\<lparr>ti_classification := Some chain_class\<rparr>"
  obtain r where r: "find_row h st k = Some r" "v = view_of h st r"
    using assms(2) by (auto simp: claim_get_def)
  have k: "c_id r = k" using find_row_Some [OF r(1)] by simp
  have cls: "claim_classification (Some (case Some chain_class of None \<Rightarrow> c_classification r | Some c \<Rightarrow> c)) = Inr chain_class"
    by code_simp
  have direct: "list_ex direct_observation (evidence_of st k)" if "s = Observed"
    using assms(8) that k r(2) by (auto simp: list_ex_iff direct_observation_def)
  have "validate_transition_evidence h st (reviewed_content (view_of h st r) ?i chain_class) (components_of st k) ?i
      (evidence_of st k) = Inr ()"
    using assms(8) direct unfolding gate_Inr by (auto simp: reproduced_or_later_def verified_or_later_def)
  then obtain st' r' where "transition h ca st k ?i = Inr st'" "find_row h st' k = Some r'"
      "c_classification r' = chain_class" "s_components st' = s_components st"
    using reclassified_transition [OF assms(1) r(1) _ _ _ assms(7) _ cls, of s ?i ca] assms(3,5,6) r(2) by auto
  moreover have "c_id r' = k" using find_row_Some [OF \<open>find_row h st' k = Some r'\<close>] by simp
  moreover have "components_of st k = []" using assms(4) r(2) k by simp
  moreover have "components_of st' k = components_of st k"
    using \<open>s_components st' = s_components st\<close> by (simp add: components_of_def)
  moreover have "validated_components h st chain_class [] (Some k) = Inl (Link Chain_needs_component)"
    by (simp add: validated_components_def unique_strings_def js_dedup_def)
  ultimately show ?thesis by (auto simp: claim_get_def)
qed

text \<open>The first claim of the running example, rejected as a chain without components.\<close>

lemma ex_lead:
  "map_option (\<lambda>v. (c_duplicateOf v, v_components v, c_revision v)) (claim_get (ex_host ''t2'' ''b'') ex_store1 ex_id)
     = Some (None, [], 1)"
  "map_option (\<lambda>v. Rejected \<in> set (allowed_transitions (c_status v)) \<and> c_status v \<noteq> Rejected)
     (claim_get (ex_host ''t2'' ''b'') ex_store1 ex_id) = Some True"
  by code_simp+

theorem transition_makes_empty_chain_witness:
  "\<exists>st' v'. transition (ex_host ''t2'' ''b'') (ex_agent ''x'') ex_store1 ex_id
       ((bare_transition 1 Rejected ''r'')\<lparr>ti_classification := Some chain_class\<rparr>) = Inr st'
     \<and> claim_get (ex_host ''t2'' ''b'') st' ex_id = Some v' \<and> c_classification v' = chain_class \<and> v_components v' = []"
proof -
  obtain v where v: "claim_get (ex_host ''t2'' ''b'') ex_store1 ex_id = Some v" "c_duplicateOf v = None"
      "v_components v = []" "c_revision v = 1" "Rejected \<in> set (allowed_transitions (c_status v))" "c_status v \<noteq> Rejected"
    using ex_lead by auto
  have "js_trim ''r'' \<noteq> []" by (simp add: js_trim_def trim_start_def trim_end_def is_ws_def)
  from transition_makes_empty_chain [OF claim_inv_reachable [OF ex_reachable(1)] v(1,2,3,5,6) this, of "ex_agent ''x''"] v(4)
  show ?thesis by (simp only: simp_thms)
qed

text \<open>
  C22. A completion checklist that reports a canonical claim ready for observed, reproduced or verified
  keeps its word: when the status may move there, the bare transition passes the evidence gate.
\<close>

theorem ready_checklist_passes_gate:
  assumes "claim_inv d st" "completion_checklist h st k t = Inr cl" "cl_ready cl" "t \<noteq> Target_report_ready"
    "claim_get h st k = Some v" "target_status t \<in> set (allowed_transitions (c_status v))" "js_trim why \<noteq> []"
  shows "\<exists>st'. transition h ca st k (bare_transition (c_revision v) (target_status t) why) = Inr st'"
proof -
  obtain r where r: "find_row h st k = Some r" "v = view_of h st r"
    using assms(5) by (auto simp: claim_get_def)
  have k: "c_id r = k" "r \<in> set (s_claims st)" using find_row_Some [OF r(1)] by auto
  have cl: "\<not> truthy (c_duplicateOf r)" "cl = candidate_completion_checklist v t"
    using assms(2,5) r(2) by (simp_all add: completion_checklist_def require_canonical_def guard_simps)
  have dup: "c_duplicateOf r = None"
    using not_truthy_duplicate [OF assms(1) k(2) cl(1)] .
  note ready = ready_contents [OF assms(3) [unfolded cl(2)]]
  have rep: "list_ex (valid_reproduction st (view_of h st r)) (evidence_of st k) \<and> truthy (c_runbook r)
      \<and> js_trim (c_steps r) \<noteq> []" if "target_rank t \<ge> 2"
    using ready(4) [OF that] k r(2) by (auto simp: has_reproduction_def list_ex_iff bare_judges)
  have ver: "list_ex (valid_independent h st (view_of h st r) (components_of st k)) (evidence_of st k)" if "target_rank t \<ge> 3"
    using ready(5) [OF that] k r(2)
    by (auto simp: has_verification_def list_ex_iff bare_judges review_kinds_def)
  have direct: "list_ex direct_observation (evidence_of st k)"
    using ready(1) k r(2) by (auto simp: list_ex_iff direct_observation_def)
  have "validate_transition_evidence h st (view_of h st r) (components_of st k)
      (bare_transition (c_revision r) (target_status t) why) (evidence_of st k) = Inr ()"
    using direct rep ver assms(4) unfolding gate_Inr
    by (cases t) (auto simp: reproduced_or_later_def verified_or_later_def given_or_def)
  moreover have "c_status r \<noteq> target_status t"
    using assms(6) r(2) by (cases t; cases "c_status r") auto
  ultimately show ?thesis
    using bare_transition_succeeds [OF assms(1) r(1) dup _ _ assms(7)] assms(6) r(2) by simp
qed

definition ex_recorded :: "(claim_error, claim_store \<times> string) res" where
  "ex_recorded = create_lead (ex_host ''t1'' ''a'') (ex_agent ''x'') empty_store ex_create None"

lemma ex_recorded_ready:
  "\<not> isl ex_recorded" "snd (projr ex_recorded) = ex_id"
  "map_option (\<lambda>v. (c_revision v, Observed \<in> set (allowed_transitions (c_status v))))
     (claim_get (ex_host ''t2'' ''b'') (fst (projr ex_recorded)) ex_id) = Some (1, True)"
  "map_sum (\<lambda>e. ()) cl_ready (completion_checklist (ex_host ''t2'' ''b'') (fst (projr ex_recorded)) ex_id Target_observed) = Inr True"
  by code_simp+

theorem ready_checklist_passes_gate_witness:
  "\<exists>st'. transition (ex_host ''t2'' ''b'') (ex_agent ''x'') (fst (projr ex_recorded)) ex_id (bare_transition 1 Observed ''r'') = Inr st'"
proof -
  let ?h = "ex_host ''t2'' ''b''"
  obtain st where st: "ex_recorded = Inr (st, ex_id)"
    using not_isl_Inr [OF ex_recorded_ready(1)] ex_recorded_ready(2) by (metis prod.collapse)
  obtain v cl where v: "claim_get ?h st ex_id = Some v" "c_revision v = 1" "Observed \<in> set (allowed_transitions (c_status v))"
      and cl: "completion_checklist ?h st ex_id Target_observed = Inr cl" "cl_ready cl"
    using ex_recorded_ready(3,4) unfolding st
    by (cases "completion_checklist ?h st ex_id Target_observed") auto
  have "claim_step any_date empty_store st"
    by (rule step_create [OF ex_hosts(1) _ _ st [unfolded ex_recorded_def create_lead_def]])
      (simp_all add: surfaces_named_def opt_trimmed_def ex_create_def ex_host_def)
  then have "claim_inv any_date st"
    by (intro claim_inv_reachable) (auto simp: reachable_ledger_def)
  moreover have "js_trim ''r'' \<noteq> []" by (simp add: js_trim_def trim_start_def trim_end_def is_ws_def)
  ultimately have "\<exists>st'. transition ?h (ex_agent ''x'') st ex_id (bare_transition 1 Observed ''r'') = Inr st'"
    using ready_checklist_passes_gate [OF _ cl _ v(1), of any_date "''r''" "ex_agent ''x''"] v(2,3) by simp
  moreover have "fst (projr ex_recorded) = st" unfolding st by simp
  ultimately show ?thesis by metis
qed

end
