(* ===== verification/Claim_Refresh.thy ===== *)
theory Claim_Refresh
  imports Claim_Agreement
begin

text \<open>
  The two routines that mark claims stale (\<open>ResearchClaimStore.refreshStaleness\<close>, which goes
  through \<open>transition\<close>, and the stand-alone \<open>refreshFindingStaleness\<close>): what each marks, and
  that they agree on trimmed arguments.
\<close>

section \<open>One claim\<close>

definition stale_row :: "host \<Rightarrow> string \<Rightarrow> tracking option \<Rightarrow> claim \<Rightarrow> claim" where
  "stale_row h reason tr r = r\<lparr>c_status := Stale, c_staleFrom := Some (c_status r), c_staleReason := Some reason,
     c_tracking := tr, c_updatedAt := h_now h, c_revision := Suc (c_revision r)\<rparr>"

definition stale_entry :: "host \<Rightarrow> string \<Rightarrow> string \<Rightarrow> claim \<Rightarrow> transition_row" where
  "stale_entry h actor reason r = log_row h (c_id r) (Suc (c_revision r)) (Some (c_status r)) Stale reason
     (Some actor) [] False"

definition unblocked :: "claim \<Rightarrow> tracking option" where
  "unblocked r = map_option (\<lambda>t. t\<lparr>st_progressBlocker := None\<rparr>)
     (visible_tracking (c_classification r) (c_tracking r))"

lemma stale_input_simps [simp]:
  "ti_expected (stale_input c rs) = c_revision c" "ti_to (stale_input c rs) = Stale"
  "ti_reason (stale_input c rs) = js_join '' '' rs" "ti_evidence (stale_input c rs) = []"
  "ti_source (stale_input c rs) = None" "ti_environment (stale_input c rs) = None"
  "ti_runbook (stale_input c rs) = None" "ti_steps (stale_input c rs) = None"
  "ti_report (stale_input c rs) = None" "ti_disclosure (stale_input c rs) = None"
  "ti_classification (stale_input c rs) = None" "ti_surface (stale_input c rs) = None"
  by (simp_all add: stale_input_def)

lemma stale_tracking:
  assumes "ti_to i = Stale"
  shows "transition_tracking (view_of h st r) i (c_classification r) = Inr (unblocked r)"
  using assms by (simp add: transition_tracking_def unblocked_def base_tracking_def visible_tracking_def)

lemma stale_reviewed:
  "reviewed_content v (stale_input c rs) (c_classification v) = v"
  by (simp add: reviewed_content_def keep_or_def)

lemma stale_row_update:
  assumes "c_status r \<noteq> Stale"
  shows "transition_row_update h (view_of h st r) (stale_input c rs) (c_classification r) tr (Some why) r
     = stale_row h why tr r"
proof -
  have v: "reviewed_content (view_of h st r) (stale_input c rs) (c_classification r) = view_of h st r"
    using stale_reviewed [of "view_of h st r" c rs] by simp
  show ?thesis
    unfolding transition_row_update_def v stale_row_def
    by (rule claim.equality) (use assms in \<open>simp_all add: keep_or_def split: option.split\<close>)
qed

lemma transition_stale:
  assumes inv: "claim_inv d st" and r: "find_row h st k = Some r" "c_duplicateOf r = None" "\<not> exempt (c_status r)"
    and c: "c_revision c = c_revision r" and why: "trimmed (js_join '' '' rs)"
  shows "transition h (host_caller actor) st k (stale_input c rs)
     = Inr (insert_transition (stale_entry h actor (js_join '' '' rs) r)
         (put_claim (stale_row h (js_join '' '' rs) (unblocked r) r) st))"
proof -
  let ?i = "stale_input c rs" and ?v = "view_of h st r" and ?w = "js_join '' '' rs"
  have mem: "r \<in> set (s_claims st)" "c_id r = k" "c_workspace r = h_workspace h"
    using find_row_Some [OF r(1)] by auto
  have row: "row_ok d r" using claim_invD(3) [OF inv] mem by blast
  have cls: "claim_classification (Some (c_classification r)) = Inr (c_classification r)"
    by (rule given_classification [OF row_okD(6,5) [OF row]])
  have s: "c_status r \<noteq> Stale" "Stale \<in> set (allowed_transitions (c_status r))"
    using r(3) by (cases "c_status r"; simp add: exempt_def)+
  have put: "commit_row st k (c_revision r) (transition_row_update h ?v ?i (c_classification r) (unblocked r) (Some ?w))
      = Inr (put_claim (stale_row h ?w (unblocked r) r) st)"
    using commit_row_put [OF claim_invD(2) [OF inv] mem(1),
        of "transition_row_update h ?v ?i (c_classification r) (unblocked r) (Some ?w)"] s(1) mem(2)
    by (simp add: stale_row_update stale_row_def)
  have "commit_transition h (host_caller actor) st ?v ?i (c_classification r) (unblocked r) []
      = Inr (insert_transition (stale_entry h actor ?w r) (put_claim (stale_row h ?w (unblocked r) r) st))"
    using why mem(2) put
    by (simp add: commit_transition_def stale_entry_def host_caller_def insert_author_def insert_evidence_def
        with_ids_def)
  moreover have "transition h (host_caller actor) st k ?i
      = commit_transition h (host_caller actor) st ?v ?i (c_classification r) (unblocked r) []"
    using r mem s c cls stale_tracking [of ?i h st r] stale_reviewed [of ?v c rs]
    by (simp add: transition_def claim_get_def transition_from_def require_canonical_def truthy_def
        normalize_evidence_def validate_transition_evidence_def reproduced_or_later_def verified_or_later_def
        cong: option.case_cong)
  ultimately show ?thesis by simp
qed

lemma mark_stale_result:
  assumes inv: "claim_inv d st" and r: "find_row h st k = Some r"
    and c: "c_id c = k" "c_revision c = c_revision r" "c_status c = c_status r"
  shows "mark_stale h actor c why st = Inr (insert_transition (stale_entry (h\<lparr>h_session := None\<rparr>) actor why r)
     (put_claim (stale_row h why (c_tracking r) r) st))"
proof -
  have mem: "r \<in> set (s_claims st)" "c_id r = k" using find_row_Some [OF r] by auto
  let ?f = "\<lambda>x. x\<lparr>c_status := Stale, c_staleFrom := Some (c_status r), c_staleReason := Some why,
        c_updatedAt := h_now h, c_revision := Suc (c_revision r)\<rparr>"
  have "commit_row st (c_id r) (c_revision r) ?f = Inr (put_claim (?f r) st)"
    by (rule commit_row_put [OF claim_invD(2) [OF inv] mem(1)]) simp
  moreover have "?f r = stale_row h why (c_tracking r) r"
    by (cases r) (simp add: stale_row_def)
  ultimately show ?thesis
    using c mem by (simp add: mark_stale_def stale_entry_def)
qed

section \<open>What the two have in common\<close>

text \<open>The tracking as a reader sees it without the progress blocker, and log rows without their
  session: the two routines differ in nothing else.\<close>

definition ledger_core :: "claim_store \<Rightarrow> claim_store" where
  "ledger_core st = st\<lparr>s_claims := map (\<lambda>r. r\<lparr>c_tracking := unblocked r\<rparr>) (s_claims st),
     s_transitions := map (\<lambda>t. t\<lparr>t_session := None\<rparr>) (s_transitions st)\<rparr>"

definition read_from :: "host \<Rightarrow> claim_store \<Rightarrow> claim_view \<Rightarrow> bool" where
  "read_from h st c \<longleftrightarrow> (\<exists>r. find_row h st (c_id c) = Some r \<and> c_revision c = c_revision r
     \<and> c_status c = c_status r \<and> c_duplicateOf r = None)"

definition stale_pair :: "host \<Rightarrow> string \<Rightarrow> string \<Rightarrow> string option \<Rightarrow> tracking option \<Rightarrow> claim \<Rightarrow> claim_store \<Rightarrow> claim_store" where
  "stale_pair h actor why s tr r st = insert_transition (stale_entry (h\<lparr>h_session := s\<rparr>) actor why r)
     (put_claim (stale_row h why tr r) st)"

lemma unblocked_idem [simp]: "unblocked (stale_row h why (unblocked r) r) = unblocked r"
  by (auto simp: unblocked_def stale_row_def visible_tracking_def)

lemma unblocked_same [simp]: "unblocked (stale_row h why (c_tracking r) r) = unblocked r"
  by (simp add: unblocked_def stale_row_def)

lemma core_stale_pair:
  assumes "unblocked (stale_row h why tr r) = unblocked r"
  shows "ledger_core (stale_pair h actor why s tr r st)
     = stale_pair h actor why None (unblocked r) (r\<lparr>c_tracking := unblocked r\<rparr>) (ledger_core st)"
proof -
  have "(stale_row h why tr r)\<lparr>c_tracking := unblocked r\<rparr> = stale_row h why (unblocked r) (r\<lparr>c_tracking := unblocked r\<rparr>)"
    by (simp add: stale_row_def)
  moreover have "c_id (stale_row h why tr r) = c_id r" for tr r by (simp add: stale_row_def)
  ultimately show ?thesis
    using assms
    by (simp add: ledger_core_def stale_pair_def put_claim_def insert_transition_def stale_entry_def log_row_def
        cong: if_cong)
qed

lemma stale_pair_committed:
  assumes inv: "claim_inv d st" and r: "find_row h0 st k = Some r" "\<not> exempt (c_status r)"
  shows "committed st r (stale_row h why tr r) (stale_entry (h\<lparr>h_session := s\<rparr>) actor why r) [] (s_components st)
     (stale_pair h actor why s tr r st)"
proof -
  have "Stale \<in> set (allowed_transitions (c_status r))"
    using r(2) by (cases "c_status r") (simp_all add: exempt_def)
  then show ?thesis
    using find_row_Some [OF r(1)]
    by (simp add: committed_def successor_def stale_pair_def stale_row_def stale_entry_def log_row_def legal_entry_def)
qed

lemma stale_pair_inv:
  assumes inv: "claim_inv d st" and r: "find_row h0 st k = Some r" "\<not> exempt (c_status r)"
    and tr: "\<And>t. tr = Some t \<Longrightarrow> tracking_wf d t"
  shows "claim_inv d (stale_pair h actor why s tr r st)"
proof (rule claim_inv_same_links [OF inv stale_pair_committed [OF inv r]])
  have "c_status r \<in> set stale_statuses"
    using r(2) by (cases "c_status r") (simp_all add: exempt_def stale_statuses_def)
  then show "row_ok d (stale_row h why tr r)"
    using claim_invD(3) [OF inv] find_row_Some [OF r(1)] tr
    by (auto simp: row_ok_def stale_row_def reproduced_or_later_def)
qed (simp_all add: fresh_ids_def stale_row_def)

lemma unblocked_wf:
  assumes "claim_inv d st" "r \<in> set (s_claims st)" "unblocked r = Some t"
  shows "tracking_wf d t"
proof -
  obtain x where x: "visible_tracking (c_classification r) (c_tracking r) = Some x" "t = x\<lparr>st_progressBlocker := None\<rparr>"
    using assms(3) by (auto simp: unblocked_def)
  then have "tracking_wf d x"
    using visible_tracking_wf row_okD(11) [OF claim_invD(3) [OF assms(1,2)]] by blast
  then show ?thesis by (simp add: x(2) tracking_wf_def blocker_wf_def)
qed

lemma stale_pair_other:
  assumes "claim_inv d st" "find_row h st k = Some r" "\<not> exempt (c_status r)" "x \<noteq> k"
  shows "find_row h (stale_pair h' actor why s tr r st) x = find_row h st x"
  using find_row_other [OF assms(1) stale_pair_committed [OF assms(1,2,3)], of x] find_row_Some [OF assms(2)] assms(4)
  by simp

lemma stale_pair_row:
  assumes "claim_inv d st" "find_row h st k = Some r" "\<not> exempt (c_status r)"
  shows "find_row h (stale_pair h' actor why s tr r st) k = Some (stale_row h' why tr r)"
  by (rule find_row_committed [OF assms(1) stale_pair_committed [OF assms] assms(2)])

lemma find_mapped: "find P (map f xs) = map_option f (find (P \<circ> f) xs)"
  by (induction xs) auto

lemma find_row_core:
  "find_row h (ledger_core st) k = map_option (\<lambda>r. r\<lparr>c_tracking := unblocked r\<rparr>) (find_row h st k)"
  by (simp add: find_row_def ledger_core_def find_mapped o_def)

text \<open>Reasons are sentences: joined they have no space at either end.\<close>

lemma trimmed_between: "\<not> is_ws x \<Longrightarrow> \<not> is_ws y \<Longrightarrow> trimmed (x # s @ [y])"
  by (simp add: trimmed_def js_trim_id)

lemma sentences:
  "\<exists>s. source_reason a b = CHR ''R'' # s @ ''.''" "\<exists>s. environment_reason = CHR ''T'' # s @ ''.''"
proof -
  show "\<exists>s. source_reason a b = CHR ''R'' # s @ ''.''"
    by (rule exI [of _ "''ecorded source revision '' @ the a @ '' differs from current revision '' @ the b"])
      (simp add: source_reason_def)
  show "\<exists>s. environment_reason = CHR ''T'' # s @ ''.''"
    by (rule exI [of _ "butlast (tl environment_reason)"]) (simp add: environment_reason_def)
qed

lemma reasons_trimmed:
  assumes "staleness_reasons c src env \<noteq> []"
  shows "trimmed (js_join '' '' (staleness_reasons c src env))"
proof -
  obtain a b where s: "source_reason (c_source c) src = CHR ''R'' # a @ ''.''" "environment_reason = CHR ''T'' # b @ ''.''"
    using sentences by metis
  have "trimmed (CHR ''R'' # x @ ''.'')" "trimmed (CHR ''T'' # x @ ''.'')" for x
    by (rule trimmed_between; simp add: is_ws_def)+
  from this(1) [of a] this(2) [of b] this(1) [of "a @ ''. T'' @ b"] show ?thesis
    using assms unfolding staleness_reasons_def js_join_def s by (simp split: if_splits)
qed

definition outdated :: "string option \<Rightarrow> string option \<Rightarrow> claim_view \<Rightarrow> bool" where
  "outdated src env c \<longleftrightarrow> \<not> exempt (c_status c) \<and> staleness_reasons c src env \<noteq> []"

lemma refresh_agree:
  assumes "\<And>n. h_workspace (hs n) = h_workspace h" "claim_inv d st1" "claim_inv d st2"
    "ledger_core st1 = ledger_core st2" "\<forall>c\<in>set cs. read_from h st1 c" "distinct (map c_id cs)"
  shows "\<exists>st1' st2'. refresh_from hs actor src env n cs st1 = Inr (st1', map c_id (filter (outdated src env) cs))
     \<and> refresh_rows hs actor src env n cs st2 = Inr (st2', map c_id (filter (outdated src env) cs))
     \<and> ledger_core st1' = ledger_core st2'
     \<and> (\<forall>c\<in>set cs. outdated src env c \<longrightarrow> (\<exists>r. find_row h st1' (c_id c) = Some r \<and> c_status r = Stale))
     \<and> (\<forall>x. x \<notin> c_id ` {c \<in> set cs. outdated src env c} \<longrightarrow> find_row h st1' x = find_row h st1 x)"
  using assms(2-6)
proof (induction cs arbitrary: n st1 st2)
  case Nil
  then show ?case by simp
next
  case (Cons c cs)
  show ?case
  proof (cases "outdated src env c")
    case False
    then have skip: "exempt (c_status c) \<or> staleness_reasons c src env = []" by (simp add: outdated_def)
    have ids: "c_id ` {x \<in> set (c # cs). outdated src env x} = c_id ` {x \<in> set cs. outdated src env x}"
      using False by auto
    have "\<forall>c\<in>set cs. read_from h st1 c" "distinct (map c_id cs)" using Cons.prems by auto
    from Cons.IH [OF Cons.prems(1,2,3) this, of n] show ?thesis
      unfolding ids using False skip by simp
  next
    case True
    let ?w = "js_join '' '' (staleness_reasons c src env)" and ?k = "c_id c" and ?h = "hs n"
    have ws: "find_row (hs n) st k = find_row h st k" for st k using assms(1) by (simp add: find_row_def)
    obtain r1 where r1: "find_row h st1 ?k = Some r1" "c_revision c = c_revision r1" "c_status c = c_status r1"
        "c_duplicateOf r1 = None"
      using Cons.prems(4) by (auto simp: read_from_def)
    have "find_row h (ledger_core st1) ?k = find_row h (ledger_core st2) ?k" by (simp add: Cons.prems(3))
    then obtain r2 where r2: "find_row h st2 ?k = Some r2" "r1\<lparr>c_tracking := unblocked r1\<rparr> = r2\<lparr>c_tracking := unblocked r2\<rparr>"
      using r1(1) by (cases "find_row h st2 ?k") (simp_all add: find_row_core)
    have eq: "c_revision r2 = c_revision r1" "c_status r2 = c_status r1" "unblocked r2 = unblocked r1"
      using arg_cong [OF r2(2), of c_revision] arg_cong [OF r2(2), of c_status] arg_cong [OF r2(2), of c_tracking] by simp_all
    have open1: "\<not> exempt (c_status r1)" "\<not> exempt (c_status r2)" and why: "staleness_reasons c src env \<noteq> []"
      using True r1(3) eq by (simp_all add: outdated_def)
    let ?s1 = "stale_pair ?h actor ?w (h_session ?h) (unblocked r1) r1 st1"
      and ?s2 = "stale_pair ?h actor ?w None (c_tracking r2) r2 st2"
    have one: "transition ?h (host_caller actor) st1 ?k (stale_input c (staleness_reasons c src env)) = Inr ?s1"
      using transition_stale [OF Cons.prems(1) _ r1(4) open1(1) r1(2) reasons_trimmed [OF why], of ?h ?k actor] r1(1)
      by (simp add: ws stale_pair_def)
    have two: "mark_stale ?h actor c ?w st2 = Inr ?s2"
      using mark_stale_result [OF Cons.prems(2) _ refl, of ?h c r2 actor ?w] r2(1) r1(2,3) eq
      by (simp add: ws stale_pair_def)
    have i1: "claim_inv d ?s1"
      using unblocked_wf [OF Cons.prems(1), of r1] find_row_Some [OF r1(1)]
      by (intro stale_pair_inv [OF Cons.prems(1) r1(1) open1(1)]) blast
    have i2: "claim_inv d ?s2"
      by (rule stale_pair_inv [OF Cons.prems(2) r2(1) open1(2)])
        (use find_row_Some [OF r2(1)] row_okD(11) claim_invD(3) [OF Cons.prems(2)] in blast)
    have core: "ledger_core ?s1 = ledger_core ?s2"
      using r2(2) eq(3) Cons.prems(3) by (simp add: core_stale_pair)
    have later: "\<forall>x\<in>set cs. read_from h ?s1 x"
    proof
      fix x assume x: "x \<in> set cs"
      have "c_id x \<in> c_id ` set cs" using x by (rule imageI)
      moreover have "?k \<notin> c_id ` set cs" using Cons.prems(5) by simp
      ultimately have "c_id x \<noteq> ?k" by metis
      then show "read_from h ?s1 x"
        using Cons.prems(4) x stale_pair_other [OF Cons.prems(1) r1(1) open1(1)] by (simp add: read_from_def)
    qed
    obtain st1' st2' where ih: "refresh_from hs actor src env (Suc n) cs ?s1 = Inr (st1', map c_id (filter (outdated src env) cs))"
        "refresh_rows hs actor src env (Suc n) cs ?s2 = Inr (st2', map c_id (filter (outdated src env) cs))"
        "ledger_core st1' = ledger_core st2'"
        "\<forall>c\<in>set cs. outdated src env c \<longrightarrow> (\<exists>r. find_row h st1' (c_id c) = Some r \<and> c_status r = Stale)"
        "\<forall>x. x \<notin> c_id ` {c \<in> set cs. outdated src env c} \<longrightarrow> find_row h st1' x = find_row h ?s1 x"
      using Cons.IH [OF i1 i2 core later, of "Suc n"] Cons.prems(5) by auto
    have "?k \<notin> c_id ` {c \<in> set cs. outdated src env c}" using Cons.prems(5) by auto
    then have "find_row h st1' ?k = Some (stale_row ?h ?w (unblocked r1) r1)"
      using ih(5) stale_pair_row [OF Cons.prems(1) r1(1) open1(1)] by simp
    then have here: "\<exists>r. find_row h st1' ?k = Some r \<and> c_status r = Stale" by (simp add: stale_row_def)
    have others: "find_row h st1' x = find_row h st1 x" if "x \<notin> c_id ` {y \<in> set (c # cs). outdated src env y}" for x
    proof -
      have "x \<noteq> ?k" "x \<notin> c_id ` {y \<in> set cs. outdated src env y}" using that True by force+
      then show ?thesis using ih(5) stale_pair_other [OF Cons.prems(1) r1(1) open1(1)] by metis
    qed
    have step: "\<not> (exempt (c_status c) \<or> staleness_reasons c src env = [])" using True by (simp add: outdated_def)
    show ?thesis
      using ih(1,2,3,4) here others True step by (simp add: one two)
  qed
qed

text \<open>The claims that a refresh has to mark, and the status of a row.\<close>

definition outdated_ids :: "string option \<Rightarrow> string option \<Rightarrow> host \<Rightarrow> claim_store \<Rightarrow> string list" where
  "outdated_ids src env h st = map c_id (filter (outdated src env) (claim_list h st))"

definition status_at :: "host \<Rightarrow> claim_store \<Rightarrow> string \<Rightarrow> claim_status option" where
  "status_at h st k = map_option c_status (find_row h st k)"

lemma status_at_core: "ledger_core st1 = ledger_core st2 \<Longrightarrow> status_at h st1 k = status_at h st2 k"
proof -
  assume "ledger_core st1 = ledger_core st2"
  then have "map_option c_status (find_row h (ledger_core st1) k) = map_option c_status (find_row h (ledger_core st2) k)"
    by simp
  then show ?thesis by (simp add: find_row_core status_at_def option.map_comp o_def)
qed

lemma refresh_both:
  assumes "claim_inv d st" "\<forall>n. h_workspace (hs n) = h_workspace (hs 0)"
  obtains st1 st2 where
    "refresh_staleness hs a src env st = Inr (st1, outdated_ids src env (hs 0) st)"
    "refresh_rows hs a src env 0 (claim_list (hs 0) st) st = Inr (st2, outdated_ids src env (hs 0) st)"
    "ledger_core st1 = ledger_core st2"
    "\<And>k. status_at (hs 0) st1 k
       = (if k \<in> set (outdated_ids src env (hs 0) st) then Some Stale else status_at (hs 0) st k)"
    "\<And>k. k \<notin> set (outdated_ids src env (hs 0) st) \<Longrightarrow> find_row (hs 0) st1 k = find_row (hs 0) st k"
proof -
  let ?cs = "claim_list (hs 0) st"
  have read: "\<forall>c\<in>set ?cs. read_from (hs 0) st c"
  proof
    fix c assume "c \<in> set ?cs"
    then obtain r where "r \<in> set (s_claims st)" "c_workspace r = h_workspace (hs 0)" "c_duplicateOf r = None"
        "c = view_of (hs 0) st r"
      by (auto simp: claim_list_def)
    then show "read_from (hs 0) st c"
      using find_row_unique [OF claim_invD(2) [OF assms(1)], of r "hs 0"] by (simp add: read_from_def)
  qed
  have ids: "distinct (map c_id ?cs)"
    using claim_invD(2) [OF assms(1)] unfolding claim_list_def
    by (auto simp: o_def distinct_map_filter distinct_map intro: inj_on_subset)
  have ws: "h_workspace (hs n) = h_workspace (hs 0)" for n using assms(2) by blast
  obtain st1 st2 where g: "refresh_from hs a src env 0 ?cs st = Inr (st1, map c_id (filter (outdated src env) ?cs))"
      "refresh_rows hs a src env 0 ?cs st = Inr (st2, map c_id (filter (outdated src env) ?cs))"
      "ledger_core st1 = ledger_core st2"
      "\<forall>c\<in>set ?cs. outdated src env c \<longrightarrow> (\<exists>r. find_row (hs 0) st1 (c_id c) = Some r \<and> c_status r = Stale)"
      "\<forall>x. x \<notin> c_id ` {c \<in> set ?cs. outdated src env c} \<longrightarrow> find_row (hs 0) st1 x = find_row (hs 0) st x"
    using refresh_agree [where hs = hs and h = "hs 0" and actor = a and src = src and env = env and n = 0, OF ws assms(1,1) refl read ids]
    by (elim exE conjE) (rule that)
  have same: "c_id ` {c \<in> set ?cs. outdated src env c} = set (outdated_ids src env (hs 0) st)"
    by (simp add: outdated_ids_def)
  show thesis
  proof (rule that [OF _ _ g(3)])
    fix k
    show "find_row (hs 0) st1 k = find_row (hs 0) st k" if "k \<notin> set (outdated_ids src env (hs 0) st)"
      using g(5) that unfolding same by simp
    then show "status_at (hs 0) st1 k
       = (if k \<in> set (outdated_ids src env (hs 0) st) then Some Stale else status_at (hs 0) st k)"
      using g(4) by (auto simp: status_at_def outdated_ids_def)
  qed (use g(1,2) in \<open>simp_all add: refresh_staleness_def outdated_ids_def\<close>)
qed

text \<open>
  C23. Neither staleness refresh, the store's (which goes through \<open>transition\<close>) or the stand-alone
  one, fails on a ledger that satisfies the invariant.  Each turns exactly these claims stale and
  reports them in the order of the list, and leaves the status of every other one: the canonical claims of the
  workspace that are neither hypothesis, rejected nor already stale, whose recorded source or
  environment is comparable to the current one and differs from it.  The store's refresh compares with
  its arguments as they are, the stand-alone one with the trimmed ones; on arguments without
  surrounding blanks, and for the same actor, both mark the same claims, and the ledgers they leave
  differ only in the progress blockers of the marked claims, which the first clears, and in the
  session of their log entries.
\<close>

theorem refreshes_agree:
  assumes "claim_inv d st" "\<forall>n. h_workspace (hs n) = h_workspace (hs 0)"
  shows "\<exists>st1 st2. refresh_staleness hs a src env st = Inr (st1, outdated_ids src env (hs 0) st)
     \<and> refresh_finding_staleness hs b src env st
         = Inr (st2, outdated_ids (norm_text src) (norm_text env) (hs 0) st)
     \<and> (\<forall>k. status_at (hs 0) st1 k
         = (if k \<in> set (outdated_ids src env (hs 0) st) then Some Stale else status_at (hs 0) st k))
     \<and> (\<forall>k. status_at (hs 0) st2 k
         = (if k \<in> set (outdated_ids (norm_text src) (norm_text env) (hs 0) st) then Some Stale
            else status_at (hs 0) st k))
     \<and> (\<forall>k. k \<notin> set (outdated_ids src env (hs 0) st) \<longrightarrow> find_row (hs 0) st1 k = find_row (hs 0) st k)
     \<and> (norm_text src = src \<and> norm_text env = env
          \<and> a = (case norm_text b of Some b \<Rightarrow> b | None \<Rightarrow> ''host'') \<longrightarrow> ledger_core st1 = ledger_core st2)"
proof -
  let ?b = "case norm_text b of Some b \<Rightarrow> b | None \<Rightarrow> ''host''"
  obtain st1 st1' where one: "refresh_staleness hs a src env st = Inr (st1, outdated_ids src env (hs 0) st)"
      "refresh_rows hs a src env 0 (claim_list (hs 0) st) st = Inr (st1', outdated_ids src env (hs 0) st)"
      "ledger_core st1 = ledger_core st1'"
      "\<And>k. status_at (hs 0) st1 k
         = (if k \<in> set (outdated_ids src env (hs 0) st) then Some Stale else status_at (hs 0) st k)"
      "\<And>k. k \<notin> set (outdated_ids src env (hs 0) st) \<Longrightarrow> find_row (hs 0) st1 k = find_row (hs 0) st k"
    by (rule refresh_both [OF assms, of a src env]) (rule that; assumption)
  obtain st2' st2 where two:
      "refresh_rows hs ?b (norm_text src) (norm_text env) 0 (claim_list (hs 0) st) st
         = Inr (st2, outdated_ids (norm_text src) (norm_text env) (hs 0) st)"
      "ledger_core st2' = ledger_core st2"
      "\<And>k. status_at (hs 0) st2' k = (if k \<in> set (outdated_ids (norm_text src) (norm_text env) (hs 0) st)
         then Some Stale else status_at (hs 0) st k)"
    by (rule refresh_both [OF assms, of ?b "norm_text src" "norm_text env"]) (rule that; assumption)
  have "ledger_core st1 = ledger_core st2" if "norm_text src = src" "norm_text env = env" "a = ?b"
    using one(2,3) two(1) unfolding that(1,2) that(3) [symmetric] by simp
  then have core: "norm_text src = src \<and> norm_text env = env \<and> a = ?b \<longrightarrow> ledger_core st1 = ledger_core st2"
    by blast
  have done2: "refresh_finding_staleness hs b src env st
      = Inr (st2, outdated_ids (norm_text src) (norm_text env) (hs 0) st)"
    using two(1) by (simp only: refresh_finding_staleness_def)
  have status2: "status_at (hs 0) st2 k = (if k \<in> set (outdated_ids (norm_text src) (norm_text env) (hs 0) st)
      then Some Stale else status_at (hs 0) st k)" for k
    unfolding two(3) [symmetric] by (rule status_at_core [OF two(2) [symmetric]])
  show ?thesis
  proof (rule exI [of _ st1], rule exI [of _ st2], intro conjI)
    show "\<forall>k. k \<notin> set (outdated_ids src env (hs 0) st) \<longrightarrow> find_row (hs 0) st1 k = find_row (hs 0) st k"
      using one(5) by blast
  qed (rule one(1) done2 core allI [OF one(4)] allI [OF status2])+
qed

text \<open>A blank in front of the revision: only the stand-alone refresh sees that the source changed.\<close>

lemma ex_outdated:
  "outdated_ids (Some '' git:r:2'') None (ex_host ''t4'' ''d'') ex_store1 = []"
  "outdated_ids (norm_text (Some '' git:r:2'')) (norm_text None) (ex_host ''t4'' ''d'') ex_store1 = [ex_id]"
  by code_simp+

theorem refreshes_agree_witness:
  "\<exists>st1 st2. refresh_staleness (\<lambda>n. ex_host ''t4'' ''d'') ''host'' (Some '' git:r:2'') None ex_store1 = Inr (st1, [])
     \<and> refresh_finding_staleness (\<lambda>n. ex_host ''t4'' ''d'') None (Some '' git:r:2'') None ex_store1 = Inr (st2, [ex_id])
     \<and> status_at (ex_host ''t4'' ''d'') st2 ex_id = Some Stale"
proof -
  let ?h = "ex_host ''t4'' ''d''"
  have ws: "\<forall>n. h_workspace ?h = h_workspace ?h" by simp
  obtain st1 st2 where w: "refresh_staleness (\<lambda>n. ?h) ''host'' (Some '' git:r:2'') None ex_store1 = Inr (st1, [])"
      "refresh_finding_staleness (\<lambda>n. ?h) None (Some '' git:r:2'') None ex_store1 = Inr (st2, [ex_id])"
      "\<forall>k. status_at ?h st2 k = (if k \<in> set [ex_id] then Some Stale else status_at ?h ex_store1 k)"
    using refreshes_agree [where hs = "\<lambda>n. ?h" and a = "''host''" and src = "Some '' git:r:2''" and env = None
        and b = None, OF claim_inv_reachable [OF ex_reachable(1)] ws]
    unfolding ex_outdated by (elim exE conjE) (rule that)
  then show ?thesis using spec [OF w(3), of ex_id] by simp
qed

end
