(* ===== verification/Track_Funnel.thy ===== *)
theory Track_Funnel
  imports Claim_Revise Claim_Checklist
begin

text \<open>
  The queue of subagent work that a research track owns
  (\<open>packages/research-agent/src/track-funnel.ts\<close>): which claims of the ledger each role may
  work on, the reservation of workers for an epoch, and what the end of a session releases.

  The two SQL tables are lists of rows of one workspace.  Claims are never deleted, so the row id of
  a claim is its position in the ledger.
\<close>

section \<open>Time stamps\<close>

text \<open>\<open>new Date(ms).toISOString()\<close>\<close>

definition civil_from_days :: "int \<Rightarrow> int \<times> int \<times> int" where
  "civil_from_days days =
     (let z = days + 719468; era = z div 146097; doe = z mod 146097;
          yoe = (doe - doe div 1460 + doe div 36524 - doe div 146096) div 365;
          doy = doe - (365 * yoe + yoe div 4 - yoe div 100);
          mp = (5 * doy + 2) div 153; d = doy - (153 * mp + 2) div 5 + 1;
          m = (if mp < 10 then mp + 3 else mp - 9)
      in (yoe + era * 400 + (if m \<le> 2 then 1 else 0), m, d))"

text \<open>The last \<open>n\<close> decimal digits.\<close>

fun padded :: "nat \<Rightarrow> int \<Rightarrow> string" where
  "padded 0 v = []"
| "padded (Suc n) v = padded n (v div 10) @ [digit_char (nat (v mod 10))]"

definition iso_print :: "int \<Rightarrow> string" where
  "iso_print ms =
     (let (y, m, d) = civil_from_days (ms div 86400000); t = ms mod 86400000;
          year = (if 0 \<le> y \<and> y \<le> 9999 then padded 4 y else if y < 0 then CHR ''-'' # padded 6 (- y)
            else CHR ''+'' # padded 6 y)
      in year @ ''-'' @ padded 2 m @ ''-'' @ padded 2 d @ ''T'' @ padded 2 (t div 3600000) @ '':''
         @ padded 2 (t div 60000 mod 60) @ '':'' @ padded 2 (t div 1000 mod 60) @ ''.'' @ padded 3 (t mod 1000) @ ''Z'')"

lemma iso_print_examples:
  "iso_print 0 = ''1970-01-01T00:00:00.000Z''" "iso_print 1709208000500 = ''2024-02-29T12:00:00.500Z''"
  "iso_print (- 1) = ''1969-12-31T23:59:59.999Z''" "iso_print 253402300800000 = ''+010000-01-01T00:00:00.000Z''"
  by code_simp+

section \<open>Rows\<close>

datatype worker_role = Investigator | Chain_analyst | Triager | Reporter

fun role_name :: "worker_role \<Rightarrow> string" where
  "role_name Investigator = ''investigator''"
| "role_name Chain_analyst = ''chain_analyst''"
| "role_name Triager = ''triager''"
| "role_name Reporter = ''reporter''"

record worker_assignment =
  as_role :: worker_role
  as_claim :: string
  as_revision :: nat
  as_surface :: "string option"

record worker_attempt =
  wa_role :: worker_role
  wa_claim :: string
  wa_revision :: nat
  wa_attempts :: nat
  wa_next :: "string option"
  wa_session :: "string option"
  wa_epoch :: nat
  wa_runtime :: nat
  wa_assignedAt :: string

record epoch_cutoff =
  ec_session :: string
  ec_epoch :: nat
  ec_rowid :: nat

record funnel =
  fn_attempts :: "worker_attempt list"
  fn_cutoffs :: "epoch_cutoff list"

datatype funnel_error = Session_required | Newer_epoch

text \<open>The constructor resets the reservations of releases that had no model runner.\<close>

definition reset_attempt :: "worker_attempt \<Rightarrow> worker_attempt" where
  "reset_attempt a = (if wa_runtime a < 1 then a\<lparr>wa_attempts := 0, wa_next := None, wa_session := None,
     wa_epoch := 0, wa_runtime := 1\<rparr> else a)"

definition open_funnel :: "funnel \<Rightarrow> funnel" where
  "open_funnel f = f\<lparr>fn_attempts := map reset_attempt (fn_attempts f)\<rparr>"

section \<open>Eligible claims\<close>

definition find_attempt :: "worker_attempt list \<Rightarrow> worker_role \<Rightarrow> string \<Rightarrow> worker_attempt option" where
  "find_attempt as role k = find (\<lambda>a. wa_role a = role \<and> wa_claim a = k) as"

definition worker_eligible :: "string \<Rightarrow> worker_attempt list \<Rightarrow> worker_role \<Rightarrow> ('a claim_scheme) \<Rightarrow> bool" where
  "worker_eligible now as role c = (case find_attempt as role (c_id c) of
     None \<Rightarrow> True
   | Some a \<Rightarrow>
       if truthy (wa_session a) then False
       else if wa_revision a \<noteq> c_revision c then True
       else if role = Chain_analyst \<and> wa_attempts a \<ge> 2 then False
       else \<not> truthy (wa_next a) \<or> cmp_units (the (wa_next a)) now \<le> 0)"

definition unblocked_claim :: "claim_view \<Rightarrow> bool" where
  "unblocked_claim c \<longleftrightarrow> Option.bind (c_tracking c) st_progressBlocker = None"

definition unresolved_claim :: "claim_view \<Rightarrow> bool" where
  "unresolved_claim c \<longleftrightarrow> c_status c \<in> {Hypothesis, Observed, Reproduced, Stale}"

text \<open>Reportable findings whose proof no longer holds.\<close>

definition provenance_refresh :: "claim_view list \<Rightarrow> string list" where
  "provenance_refresh cs = map c_id (filter (\<lambda>c. list_ex (\<lambda>k. k = Key_reproduction \<or> k = Key_independent_verification)
       (cl_missing (candidate_completion_checklist c Target_report_ready)))
     (filter (\<lambda>c. c_status c = Verified \<and> \<not> truthy (c_report c) \<and> is_reportable c) cs))"

definition priority_candidate :: "claim_view \<Rightarrow> bool" where
  "priority_candidate c \<longleftrightarrow> c_rating c \<noteq> Rating_low \<and> c_rating c \<noteq> Rating_informational"

definition within_boundary :: "string list option \<Rightarrow> claim_view \<Rightarrow> bool" where
  "within_boundary prior c \<longleftrightarrow> (case prior of None \<Rightarrow> True | Some ks \<Rightarrow> c_id c \<in> set ks)"

definition investigates :: "string list option \<Rightarrow> string list \<Rightarrow> claim_view \<Rightarrow> bool" where
  "investigates prior refresh c \<longleftrightarrow> security_classification (c_classification c) \<and> c_classification c \<noteq> chain_class
     \<and> (v_projection c = Proj_finding \<or> v_projection c = Proj_lead \<and> within_boundary prior c)
     \<and> (unresolved_claim c \<or> c_id c \<in> set refresh) \<and> unblocked_claim c
     \<and> (priority_candidate c \<or> c_id c \<in> set refresh)"

definition has_evidence :: "claim_view list \<Rightarrow> string \<Rightarrow> bool" where
  "has_evidence cs k \<longleftrightarrow> (case find (\<lambda>c. c_id c = k) cs of None \<Rightarrow> False | Some c \<Rightarrow> v_evidence c \<noteq> [])"

definition chains :: "claim_view list \<Rightarrow> string list option \<Rightarrow> string list \<Rightarrow> claim_view \<Rightarrow> bool" where
  "chains cs prior refresh c \<longleftrightarrow> c_classification c = chain_class
     \<and> (v_projection c = Proj_finding \<or> within_boundary prior c) \<and> v_components c \<noteq> []
     \<and> (unresolved_claim c \<or> c_id c \<in> set refresh) \<and> unblocked_claim c
     \<and> (priority_candidate c \<or> c_id c \<in> set refresh) \<and> list_ex (has_evidence cs) (v_components c)"

text \<open>The triage packet still describes the claim.\<close>

definition packet_current :: "host \<Rightarrow> claim_view \<Rightarrow> bool" where
  "packet_current h c \<longleftrightarrow> map_option tp_binding (Option.bind (c_tracking c) st_packet)
     = Some (claim_verification_hash h c (v_components c))"

definition triage_blocked :: "claim_view \<Rightarrow> bool" where
  "triage_blocked c \<longleftrightarrow> Option.bind (c_tracking c) st_triageBlocker \<noteq> None"

definition triages :: "host \<Rightarrow> string list \<Rightarrow> claim_view \<Rightarrow> bool" where
  "triages h refresh c \<longleftrightarrow> security_classification (c_classification c) \<and> c_status c = Verified
     \<and> c_id c \<notin> set refresh
     \<and> (tracked c (\<lambda>t. st_reportability t = None)
        \<or> is_reportable c \<and> \<not> packet_current h c \<and> \<not> triage_blocked c)"

definition reports :: "host \<Rightarrow> string list \<Rightarrow> claim_view \<Rightarrow> bool" where
  "reports h refresh c \<longleftrightarrow> security_classification (c_classification c) \<and> c_status c = Verified
     \<and> \<not> truthy (c_report c) \<and> c_id c \<notin> set refresh \<and> is_reportable c \<and> \<not> triage_blocked c
     \<and> packet_current h c"

fun suits :: "host \<Rightarrow> claim_view list \<Rightarrow> string list option \<Rightarrow> worker_role \<Rightarrow> claim_view \<Rightarrow> bool" where
  "suits h cs prior Investigator c = investigates prior (provenance_refresh cs) c"
| "suits h cs prior Chain_analyst c = chains cs prior (provenance_refresh cs) c"
| "suits h cs prior Triager c = triages h (provenance_refresh cs) c"
| "suits h cs prior Reporter c = reports h (provenance_refresh cs) c"

fun maturity_order :: "claim_status \<Rightarrow> int" where
  "maturity_order Reproduced = 0"
| "maturity_order Observed = 1"
| "maturity_order s = 2"

fun rating_order :: "claim_rating \<Rightarrow> int" where
  "rating_order Rating_critical = 0"
| "rating_order Rating_high = 1"
| "rating_order Rating_medium = 2"
| "rating_order Rating_low = 3"
| "rating_order Rating_informational = 4"

definition waiting_since :: "worker_attempt list \<Rightarrow> worker_role \<Rightarrow> claim_view \<Rightarrow> string" where
  "waiting_since as role c = (case Option.bind (find_attempt as role (c_id c)) wa_next of
     Some t \<Rightarrow> t | None \<Rightarrow> c_updatedAt c)"

definition pool_order :: "host \<Rightarrow> worker_attempt list \<Rightarrow> worker_role \<Rightarrow> claim_view \<Rightarrow> claim_view \<Rightarrow> int" where
  "pool_order h as role =
     cmp_then (if role = Investigator \<or> role = Chain_analyst then cmp_on (\<lambda>c. rating_order (c_rating c)) cmp_int
               else (\<lambda>x y. 0))
       (cmp_then (if role = Investigator then cmp_on (\<lambda>c. maturity_order (c_status c)) cmp_int else (\<lambda>x y. 0))
         (cmp_then (cmp_on (waiting_since as role) (h_compare h)) (cmp_on c_id (h_compare h))))"

definition eligible_pools ::
  "host \<Rightarrow> worker_attempt list \<Rightarrow> string list option \<Rightarrow> claim_view list \<Rightarrow> worker_role \<Rightarrow> claim_view list" where
  "eligible_pools h as prior cs role = js_sort (pool_order h as role)
     (filter (\<lambda>c. suits h cs prior role c \<and> worker_eligible (h_now h) as role c) cs)"

section \<open>Selection\<close>

definition next_role :: "worker_role list \<Rightarrow> (worker_role \<Rightarrow> claim_view list) \<Rightarrow> worker_role option" where
  "next_role rotated pools = (case find (\<lambda>r. pools r \<noteq> []) rotated of
     Some r \<Rightarrow> Some r
   | None \<Rightarrow> if pools Investigator \<noteq> [] then Some Investigator else None)"

function fill_workers ::
  "nat \<Rightarrow> worker_role list \<Rightarrow> (worker_role \<Rightarrow> claim_view list) \<Rightarrow> (worker_role \<times> claim_view) list
   \<Rightarrow> (worker_role \<times> claim_view) list" where
  "fill_workers limit rotated pools sel =
     (if length sel \<ge> limit then sel
      else case next_role rotated pools of
        None \<Rightarrow> sel
      | Some r \<Rightarrow> fill_workers limit rotated (pools(r := tl (pools r))) (sel @ [(r, hd (pools r))]))"
  by pat_completeness auto

termination fill_workers
  by (relation "measure (\<lambda>(limit, rotated, pools, sel). limit - length sel)") auto

declare fill_workers.simps [simp del]

definition downstream :: "worker_role list" where
  "downstream = [Triager, Reporter, Chain_analyst]"

definition rotated_roles :: "nat \<Rightarrow> worker_role list" where
  "rotated_roles epoch = drop (epoch mod length downstream) downstream @ take (epoch mod length downstream) downstream"

definition select_workers ::
  "nat \<Rightarrow> int \<Rightarrow> (worker_role \<Rightarrow> claim_view list) \<Rightarrow> (worker_role \<times> claim_view) list" where
  "select_workers epoch maxw pools =
     (let first = maxw > 0 \<and> pools Investigator \<noteq> [] in
      fill_workers (nat (max 0 (min 3 maxw))) (rotated_roles epoch)
        (if first then pools(Investigator := tl (pools Investigator)) else pools)
        (if first then [(Investigator, hd (pools Investigator))] else []))"

section \<open>Reservation\<close>

definition numbered_claims :: "host \<Rightarrow> claim_store \<Rightarrow> (nat \<times> claim) list" where
  "numbered_claims h st = filter (\<lambda>(n, c). c_workspace c = h_workspace h) (enumerate 1 (s_claims st))"

definition latest_rowid :: "host \<Rightarrow> claim_store \<Rightarrow> nat" where
  "latest_rowid h st = fold max (map fst (numbered_claims h st)) 0"

definition prior_lead_ids :: "host \<Rightarrow> claim_store \<Rightarrow> nat \<Rightarrow> string list" where
  "prior_lead_ids h st cutoff = map (\<lambda>(n, c). c_id c) (filter (\<lambda>(n, c). n \<le> cutoff) (numbered_claims h st))"

definition note_cutoff :: "string \<Rightarrow> nat \<Rightarrow> nat \<Rightarrow> epoch_cutoff list \<Rightarrow> epoch_cutoff list" where
  "note_cutoff s epoch n qs =
     (if list_ex (\<lambda>q. ec_session q = s) qs
      then map (\<lambda>q. if ec_session q = s \<and> ec_epoch q < epoch then q\<lparr>ec_epoch := epoch, ec_rowid := n\<rparr> else q) qs
      else qs @ [\<lparr>ec_session = s, ec_epoch = epoch, ec_rowid = n\<rparr>])"

definition find_cutoff :: "string \<Rightarrow> epoch_cutoff list \<Rightarrow> epoch_cutoff option" where
  "find_cutoff s qs = find (\<lambda>q. ec_session q = s) qs"

definition supersede :: "string \<Rightarrow> nat \<Rightarrow> worker_attempt \<Rightarrow> worker_attempt" where
  "supersede s epoch a = (if wa_session a \<noteq> None \<and> (wa_session a \<noteq> Some s \<or> wa_epoch a \<noteq> epoch)
     then a\<lparr>wa_session := None\<rparr> else a)"

definition reserved_attempt ::
  "host \<Rightarrow> string \<Rightarrow> nat \<Rightarrow> worker_attempt list \<Rightarrow> worker_role \<Rightarrow> claim_view \<Rightarrow> worker_attempt" where
  "reserved_attempt h s epoch prior role c =
     \<lparr>wa_role = role, wa_claim = c_id c, wa_revision = c_revision c,
       wa_attempts = (case find_attempt prior role (c_id c) of
          Some a \<Rightarrow> if wa_revision a = c_revision c then wa_attempts a + 1 else 1 | None \<Rightarrow> 1),
       wa_next = None, wa_session = Some s, wa_epoch = epoch, wa_runtime = 1, wa_assignedAt = h_now h\<rparr>"

definition upsert_attempt :: "worker_attempt \<Rightarrow> worker_attempt list \<Rightarrow> worker_attempt list" where
  "upsert_attempt a as =
     (if list_ex (\<lambda>b. wa_role b = wa_role a \<and> wa_claim b = wa_claim a) as
      then map (\<lambda>b. if wa_role b = wa_role a \<and> wa_claim b = wa_claim a then a else b) as
      else as @ [a])"

definition assignment_of :: "worker_role \<times> claim_view \<Rightarrow> worker_assignment" where
  "assignment_of x = \<lparr>as_role = fst x, as_claim = c_id (snd x), as_revision = c_revision (snd x),
     as_surface = c_surface (snd x)\<rparr>"

definition reserve_workers ::
  "host \<Rightarrow> claim_store \<Rightarrow> funnel \<Rightarrow> string \<Rightarrow> nat \<Rightarrow> nat \<Rightarrow> int \<Rightarrow> funnel \<times> worker_assignment list" where
  "reserve_workers h st f s epoch cutoff maxw =
     (let as = map (supersede s epoch) (fn_attempts f);
          sel = select_workers epoch maxw
            (eligible_pools h as (Some (prior_lead_ids h st cutoff)) (claim_list h st))
      in (f\<lparr>fn_attempts := foldl (\<lambda>xs x. upsert_attempt (reserved_attempt h s epoch as (fst x) (snd x)) xs) as sel\<rparr>,
          map assignment_of sel))"

definition reserve_for_session ::
  "host \<Rightarrow> claim_store \<Rightarrow> funnel \<Rightarrow> string \<Rightarrow> nat \<Rightarrow> int \<Rightarrow> (funnel_error, funnel \<times> worker_assignment list) res" where
  "reserve_for_session h st f s epoch maxw =
     ensure (js_trim s \<noteq> []) Session_required (
     (let qs = note_cutoff s epoch (latest_rowid h st) (fn_cutoffs f) in
      case find_cutoff s qs of
        None \<Rightarrow> Inl Newer_epoch
      | Some q \<Rightarrow> ensure (ec_epoch q = epoch) Newer_epoch (
          Inr (reserve_workers h st (f\<lparr>fn_cutoffs := qs\<rparr>) s epoch (ec_rowid q) maxw))))"

section \<open>Reading and releasing\<close>

definition active_for_session :: "host \<Rightarrow> claim_store \<Rightarrow> funnel \<Rightarrow> string \<Rightarrow> worker_assignment list" where
  "active_for_session h st f s = concat (map (\<lambda>a. case find_row h st (wa_claim a) of
       None \<Rightarrow> []
     | Some c \<Rightarrow> [\<lparr>as_role = wa_role a, as_claim = c_id c, as_revision = wa_revision a, as_surface = c_surface c\<rparr>])
     (js_sort (cmp_then (cmp_on (\<lambda>a. role_name (wa_role a)) cmp_units) (cmp_on wa_claim cmp_units))
       (filter (\<lambda>a. wa_session a = Some s) (fn_attempts f))))"

definition retry_delay :: "worker_role \<Rightarrow> int" where
  "retry_delay role = (if role = Chain_analyst then 24 * 60 * 60000 else 30 * 60000)"

definition finish_attempt :: "host \<Rightarrow> claim_store \<Rightarrow> int \<Rightarrow> string \<Rightarrow> worker_attempt \<Rightarrow> worker_attempt" where
  "finish_attempt h st ms s a = (if wa_session a = Some s
     then a\<lparr>wa_session := None,
       wa_next := (if map_option c_revision (find_row h st (wa_claim a)) \<noteq> Some (wa_revision a) then None
         else Some (iso_print (ms + retry_delay (wa_role a))))\<rparr>
     else a)"

definition finish_session :: "host \<Rightarrow> claim_store \<Rightarrow> int \<Rightarrow> string \<Rightarrow> funnel \<Rightarrow> funnel" where
  "finish_session h st ms s f = f\<lparr>fn_attempts := map (finish_attempt h st ms s) (fn_attempts f)\<rparr>"

definition cancel_attempt :: "string \<Rightarrow> worker_attempt \<Rightarrow> worker_attempt" where
  "cancel_attempt s a = (if wa_session a = Some s
     then a\<lparr>wa_session := None, wa_attempts := wa_attempts a - 1, wa_next := None\<rparr> else a)"

definition cancel_session :: "string \<Rightarrow> funnel \<Rightarrow> funnel" where
  "cancel_session s f = f\<lparr>fn_attempts := map (cancel_attempt s) (fn_attempts f)\<rparr>"

section \<open>Cards\<close>

text \<open>The activity events of a session's subagents, in the order they were stored; \<open>None\<close> when
  the database has no event table.\<close>

record worker_event =
  we_timestamp :: string
  we_role :: string
  we_claim :: string
  we_status :: string

record worker_card =
  cd_role :: worker_role
  cd_claim :: string
  cd_title :: string
  cd_assignedAt :: string
  cd_queued :: "(string \<times> string) list"

definition attempt_key :: "worker_attempt \<Rightarrow> string \<times> string" where
  "attempt_key a = (role_name (wa_role a), wa_claim a)"

definition latest_status :: "worker_attempt list \<Rightarrow> worker_event list \<Rightarrow> (string \<times> string) \<Rightarrow> string option" where
  "latest_status active evs = fold (\<lambda>e m. case find (\<lambda>a. attempt_key a = (we_role e, we_claim e)) active of
       None \<Rightarrow> m
     | Some a \<Rightarrow> if wa_assignedAt a \<noteq> [] \<and> cmp_units (wa_assignedAt a) (we_timestamp e) \<le> 0
         then m((we_role e, we_claim e) \<mapsto> we_status e) else m) evs Map.empty"

definition cards_for_session ::
  "host \<Rightarrow> claim_store \<Rightarrow> funnel \<Rightarrow> worker_event list option \<Rightarrow> string \<Rightarrow> worker_card list" where
  "cards_for_session h st f events s =
     (let active = js_sort (cmp_then (cmp_on wa_assignedAt cmp_units)
            (cmp_then (cmp_on (\<lambda>a. role_name (wa_role a)) cmp_units) (cmp_on wa_claim cmp_units)))
            (filter (\<lambda>a. wa_session a = Some s) (fn_attempts f)) in
      case (active, events) of
        ([], _) \<Rightarrow> []
      | (_, None) \<Rightarrow> []
      | (a0 # _, Some evs) \<Rightarrow>
          let latest = latest_status active (filter (\<lambda>e. cmp_units (wa_assignedAt a0) (we_timestamp e) \<le> 0) evs);
              running = filter (\<lambda>a. latest (attempt_key a) \<in> {Some ''pending'', Some ''running''}) active;
              cs = claim_list h st; pools = eligible_pools h (fn_attempts f) None cs in
          concat (map (\<lambda>a. case find (\<lambda>c. c_id c = wa_claim a) cs of
              None \<Rightarrow> []
            | Some c \<Rightarrow> [\<lparr>cd_role = wa_role a, cd_claim = c_id c, cd_title = c_title c, cd_assignedAt = wa_assignedAt a,
                cd_queued = map (\<lambda>x. (c_id x, c_title x)) (pools (wa_role a))\<rparr>]) running))"

end
