(* ===== verification/Funnel_Selection.thy ===== *)
theory Funnel_Selection
  imports Track_Funnel Claim_Gate
begin

text \<open>
  Facts on the selection of track workers: the pools of the four roles are disjoint, and the
  selection takes distinct claims from them until the limit is reached or the pools are empty.
\<close>

section \<open>Pools\<close>

lemma suits_disjoint: "suits h cs prior r c \<Longrightarrow> suits h cs prior r' c \<Longrightarrow> r = r'"
  by (cases r; cases r')
    (auto simp: investigates_def chains_def triages_def reports_def unresolved_claim_def tracked_def
      is_reportable_def split: option.splits)

lemma set_pools [simp]:
  "set (eligible_pools h as prior cs r) = {c \<in> set cs. suits h cs prior r c \<and> worker_eligible (h_now h) as r c}"
  by (auto simp: eligible_pools_def)

lemma distinct_pool: "distinct (map c_id cs) \<Longrightarrow> distinct (map c_id (eligible_pools h as prior cs r))"
  unfolding eligible_pools_def distinct_map
  by (auto simp: distinct_map intro: inj_on_subset)

lemma distinct_claim_list: "distinct (map c_id (s_claims st)) \<Longrightarrow> distinct (map c_id (claim_list h st))"
  unfolding claim_list_def
  by (auto simp: o_def distinct_map_filter distinct_map intro: inj_on_subset)

lemma claim_list_get:
  assumes "distinct (map c_id (s_claims st))" "v \<in> set (claim_list h st)"
  shows "claim_get h st (c_id v) = Some v \<and> c_duplicateOf v = None"
proof -
  obtain r where "r \<in> set (s_claims st)" "c_workspace r = h_workspace h" "c_duplicateOf r = None" "v = view_of h st r"
    using assms(2) by (auto simp: claim_list_def)
  then show ?thesis
    using find_row_unique [OF assms(1), of r h] by (simp add: claim_get_def)
qed

section \<open>Selection\<close>

text \<open>No claim waits in two pools, or in a pool while it is selected.\<close>

definition pools_ok :: "(worker_role \<Rightarrow> claim_view list) \<Rightarrow> (worker_role \<times> claim_view) list \<Rightarrow> bool" where
  "pools_ok pools sel \<longleftrightarrow> (\<forall>r. distinct (map c_id (pools r)))
     \<and> (\<forall>r r'. r \<noteq> r' \<longrightarrow> c_id ` set (pools r) \<inter> c_id ` set (pools r') = {})
     \<and> distinct (map (\<lambda>x. c_id (snd x)) sel) \<and> (\<forall>r. c_id ` set (pools r) \<inter> (\<lambda>x. c_id (snd x)) ` set sel = {})"

lemma pools_ok_take:
  assumes "pools_ok pools sel" "pools r \<noteq> []"
  shows "pools_ok (pools(r := tl (pools r))) (sel @ [(r, hd (pools r))])"
proof -
  obtain c cs where p: "pools r = c # cs" using assms(2) by (cases "pools r") auto
  have sub: "set ((pools(r := cs)) q) \<subseteq> set (pools q)" for q using p by auto
  have here: "c_id c \<notin> c_id ` set ((pools(r := cs)) q)" for q
  proof (cases "q = r")
    case True
    then show ?thesis using assms(1) p by (auto simp: pools_ok_def dest: spec [of _ r])
  next
    case False
    then have "c_id ` set (pools r) \<inter> c_id ` set (pools q) = {}" using assms(1) by (simp add: pools_ok_def)
    then show ?thesis using False p by auto
  qed
  have d: "distinct (map c_id ((pools(r := cs)) q))" for q
    using assms(1) p by (cases "q = r") (auto simp: pools_ok_def dest: spec [of _ r])
  have two: "c_id ` set ((pools(r := cs)) q) \<inter> c_id ` set ((pools(r := cs)) q') = {}" if "q \<noteq> q'" for q q'
  proof -
    have "c_id ` set (pools q) \<inter> c_id ` set (pools q') = {}" using assms(1) that by (simp add: pools_ok_def)
    then show ?thesis using sub [of q] sub [of q'] by blast
  qed
  have sel: "c_id ` set (pools q) \<inter> (\<lambda>x. c_id (snd x)) ` set sel = {}" for q using assms(1) by (simp add: pools_ok_def)
  have new: "c_id ` set ((pools(r := cs)) q) \<inter> (\<lambda>x. c_id (snd x)) ` set (sel @ [(r, c)]) = {}" for q
  proof -
    have "c_id ` set ((pools(r := cs)) q) \<inter> (\<lambda>x. c_id (snd x)) ` set sel = {}"
      using image_mono [OF sub [of q], of c_id] sel [of q] by blast
    moreover have "c_id ` set ((pools(r := cs)) q) \<inter> (\<lambda>x. c_id (snd x)) ` set [(r, c)] = {}"
      using here [of q] by (simp del: fun_upd_apply)
    ultimately show ?thesis unfolding set_append image_Un Int_Un_distrib by blast
  qed
  have "distinct (map (\<lambda>x. c_id (snd x)) (sel @ [(r, c)]))"
    using assms(1) sel [of r] p by (auto simp: pools_ok_def)
  with d two new show ?thesis unfolding p list.sel pools_ok_def by blast
qed

lemma next_role_Some: "next_role rs pools = Some r \<Longrightarrow> pools r \<noteq> []"
  by (auto simp: next_role_def find_Some_iff split: option.splits if_splits)

lemma next_role_None: "next_role rs pools = None \<Longrightarrow> r \<in> set rs \<or> r = Investigator \<Longrightarrow> pools r = []"
  by (auto simp: next_role_def find_None_iff split: option.splits if_splits)

lemma fill_workers_facts:
  assumes "pools_ok pools sel"
  shows "distinct (map (\<lambda>x. c_id (snd x)) (fill_workers n rs pools sel))
    \<and> length (fill_workers n rs pools sel) \<le> max n (length sel)
    \<and> set (fill_workers n rs pools sel) \<subseteq> set sel \<union> {(r, c). c \<in> set (pools r)}
    \<and> set sel \<subseteq> set (fill_workers n rs pools sel)
    \<and> (n \<le> length (fill_workers n rs pools sel)
       \<or> (\<forall>r\<in>insert Investigator (set rs). \<forall>c\<in>set (pools r). (r, c) \<in> set (fill_workers n rs pools sel)))"
  using assms
proof (induction n rs pools sel rule: fill_workers.induct)
  case (1 n rs pools sel)
  show ?case
  proof (cases "length sel \<ge> n")
    case True
    with "1.prems" show ?thesis by (simp add: fill_workers.simps pools_ok_def)
  next
    case False
    show ?thesis
    proof (cases "next_role rs pools")
      case None
      then have "\<forall>r\<in>insert Investigator (set rs). pools r = []"
        using next_role_None [OF None] by blast
      with False None "1.prems" show ?thesis by (simp add: fill_workers.simps pools_ok_def)
    next
      case (Some r)
      let ?p = "pools(r := tl (pools r))" and ?s = "sel @ [(r, hd (pools r))]"
      have ne: "pools r \<noteq> []" by (rule next_role_Some [OF Some])
      have eq: "fill_workers n rs pools sel = fill_workers n rs ?p ?s"
        using False Some by (subst fill_workers.simps) simp
      have len: "length ?s \<le> n" using False by simp
      define R where "R = fill_workers n rs ?p ?s"
      note ih = "1.IH" [OF False Some pools_ok_take [OF "1.prems" ne], folded R_def]
      have sub: "{(q, c). c \<in> set (?p q)} \<subseteq> {(q, c). c \<in> set (pools q)}"
        using ne by (auto split: if_splits dest: list.set_sel(2))
      have hd: "hd (pools r) \<in> set (pools r)" using ne by simp
      have keep: "c \<in> set (?p q) \<or> (q, c) \<in> set ?s" if "c \<in> set (pools q)" for q c
        using that ne by (cases "pools r") (auto split: if_splits)
      have in_R: "set ?s \<subseteq> set R" using ih by blast
      have "length R \<le> max n (length sel)" using ih len by (simp add: max_def)
      moreover have "set R \<subseteq> set sel \<union> {(r, c). c \<in> set (pools r)}"
      proof -
        have "set R \<subseteq> set ?s \<union> {(r, c). c \<in> set (?p r)}" using ih by blast
        then show ?thesis using sub hd by fastforce
      qed
      moreover have "set sel \<subseteq> set R" using in_R by simp
      moreover have "n \<le> length R \<or> (\<forall>q\<in>insert Investigator (set rs). \<forall>c\<in>set (pools q). (q, c) \<in> set R)"
      proof (cases "n \<le> length R")
        case False
        then have all: "\<forall>q\<in>insert Investigator (set rs). \<forall>c\<in>set (?p q). (q, c) \<in> set R" using ih by blast
        have "(q, c) \<in> set R" if "q \<in> insert Investigator (set rs)" "c \<in> set (pools q)" for q c
          using keep [OF that(2)] all that(1) in_R by blast
        then show ?thesis by blast
      qed simp
      moreover have "distinct (map (\<lambda>x. c_id (snd x)) R)" using ih by blast
      ultimately show ?thesis unfolding eq R_def [symmetric] by blast
    qed
  qed
qed

lemma rotated_roles_set: "set (rotated_roles n) = {Triager, Reporter, Chain_analyst}"
  unfolding rotated_roles_def by (simp only: set_append) (metis Un_commute append_take_drop_id downstream_def
      empty_set list.simps(15) set_append)

lemma role_cases: "r \<in> insert Investigator (set (rotated_roles n))"
  by (cases r) (simp_all add: rotated_roles_set)

lemma select_workers_facts:
  assumes "pools_ok pools []"
  shows "distinct (map (\<lambda>x. c_id (snd x)) (select_workers e m pools))"
    "length (select_workers e m pools) \<le> nat (max 0 (min 3 m))"
    "(r, c) \<in> set (select_workers e m pools) \<Longrightarrow> c \<in> set (pools r)"
    "length (select_workers e m pools) < nat (max 0 (min 3 m)) \<Longrightarrow> c \<in> set (pools r) \<Longrightarrow>
       (r, c) \<in> set (select_workers e m pools)"
proof -
  define first where "first \<longleftrightarrow> m > 0 \<and> pools Investigator \<noteq> []"
  define p where "p = (if first then pools(Investigator := tl (pools Investigator)) else pools)"
  define t where "t = (if first then [(Investigator, hd (pools Investigator))] else [])"
  let ?n = "nat (max 0 (min 3 m))"
  have ok: "pools_ok p t"
    using assms pools_ok_take [OF assms, of Investigator] by (simp add: p_def t_def first_def)
  have eq: "select_workers e m pools = fill_workers ?n (rotated_roles e) p t"
    by (simp add: select_workers_def Let_def p_def t_def first_def)
  note f = fill_workers_facts [OF ok, of ?n "rotated_roles e", folded eq]
  have sub: "set (p q) \<subseteq> set (pools q)" for q
    by (cases "pools Investigator") (auto simp: p_def first_def)
  have new: "(q, x) \<in> set t \<Longrightarrow> x \<in> set (pools q)" for q x
    by (auto simp: t_def first_def split: if_splits)
  have cover: "c \<in> set (p q) \<or> (q, c) \<in> set t" if "c \<in> set (pools q)" for q c
    using that by (cases "pools Investigator") (auto simp: p_def t_def first_def split: if_splits)
  have "1 \<le> nat (max 0 (min 3 m))" if "m > 0" using that by (cases "m \<ge> 3") (simp_all add: min_def)
  then have size: "length t \<le> ?n" by (simp add: t_def first_def)
  show "distinct (map (\<lambda>x. c_id (snd x)) (select_workers e m pools))" using f by (elim conjE)
  from f have "length (select_workers e m pools) \<le> max ?n (length t)" by (elim conjE)
  with size show "length (select_workers e m pools) \<le> ?n" by (simp only: max_absorb1)
  from f have le: "set (select_workers e m pools) \<subseteq> set t \<union> {(r, c). c \<in> set (p r)}" by (elim conjE)
  show "c \<in> set (pools r)" if "(r, c) \<in> set (select_workers e m pools)"
    using subsetD [OF le that] sub [of r] new [of r c] by blast
  from f have s: "set t \<subseteq> set (select_workers e m pools)" by (elim conjE)
  from f have or: "?n \<le> length (select_workers e m pools) \<or>
    (\<forall>r\<in>insert Investigator (set (rotated_roles e)). \<forall>c\<in>set (p r). (r, c) \<in> set (select_workers e m pools))"
    by (elim conjE)
  show "(r, c) \<in> set (select_workers e m pools)"
    if l: "length (select_workers e m pools) < ?n" and c: "c \<in> set (pools r)"
  proof -
    have all: "\<forall>r\<in>insert Investigator (set (rotated_roles e)). \<forall>c\<in>set (p r). (r, c) \<in> set (select_workers e m pools)"
      by (rule disjE [OF or]) (drule leD, erule notE, rule l, assumption)
    show ?thesis using cover [OF c] bspec [OF bspec [OF all role_cases [of r e]]] s by blast
  qed
qed

end
