(* ===== verification/Funnel_Run.thy ===== *)
theory Funnel_Run
  imports Funnel_Selection Claim_Agreement
begin

text \<open>
  Runs of a research track: the worker queue next to the claim ledger it draws from.  The step
  relation interleaves changes of the ledger with reservations and releases; the invariant of the
  queue is preserved by every step, and the reservation boundary of an epoch never moves.
\<close>

section \<open>Rows of the queue\<close>

definition row_key :: "worker_attempt \<Rightarrow> worker_role \<times> string" where
  "row_key a = (wa_role a, wa_claim a)"

lemma row_key_eq: "row_key a = row_key b \<longleftrightarrow> wa_role a = wa_role b \<and> wa_claim a = wa_claim b"
  by (simp add: row_key_def)

lemma same_key: "distinct (map f xs) \<Longrightarrow> x \<in> set xs \<Longrightarrow> y \<in> set xs \<Longrightarrow> f x = f y \<Longrightarrow> x = y"
  by (auto simp: distinct_map dest: inj_onD)

lemma find_attempt_key:
  assumes "distinct (map row_key as)"
  shows "find_attempt as r k = Some a \<longleftrightarrow> a \<in> set as \<and> row_key a = (r, k)"
proof
  assume "find_attempt as r k = Some a"
  then show "a \<in> set as \<and> row_key a = (r, k)"
    by (auto simp: find_attempt_def find_Some_iff row_key_def)
next
  assume a: "a \<in> set as \<and> row_key a = (r, k)"
  show "find_attempt as r k = Some a"
  proof (cases "find_attempt as r k")
    case None
    with a show ?thesis by (auto simp: find_attempt_def find_None_iff row_key_def)
  next
    case (Some b)
    then have "b \<in> set as" "row_key b = row_key a"
      using a by (auto simp: find_attempt_def find_Some_iff row_key_def)
    with same_key [OF assms, of b a] a Some show ?thesis by simp
  qed
qed

lemma find_attempt_in: "find_attempt as r k = Some a \<Longrightarrow> a \<in> set as \<and> row_key a = (r, k)"
  by (auto simp: find_attempt_def find_Some_iff row_key_def)

lemma upsert_keys:
  "map row_key (upsert_attempt a as) = (if row_key a \<in> row_key ` set as then map row_key as else map row_key as @ [row_key a])"
proof (cases "row_key a \<in> row_key ` set as")
  case True
  then have "list_ex (\<lambda>b. wa_role b = wa_role a \<and> wa_claim b = wa_claim a) as"
    by (force simp: list_ex_iff row_key_def)
  with True show ?thesis by (simp add: upsert_attempt_def row_key_def)
next
  case False
  then have "\<not> list_ex (\<lambda>b. wa_role b = wa_role a \<and> wa_claim b = wa_claim a) as"
    unfolding list_ex_iff image_iff row_key_def by (metis prod.inject)
  with False show ?thesis by (simp add: upsert_attempt_def)
qed

lemma set_upsert: "set (upsert_attempt a as) = insert a {b \<in> set as. row_key b \<noteq> row_key a}"
  by (auto simp: upsert_attempt_def list_ex_iff row_key_def)

lemma upsert_distinct: "distinct (map row_key as) \<Longrightarrow> distinct (map row_key (upsert_attempt a as))"
  by (auto simp: upsert_keys)

definition upsert_all :: "worker_attempt list \<Rightarrow> worker_attempt list \<Rightarrow> worker_attempt list" where
  "upsert_all as bs = foldl (\<lambda>xs b. upsert_attempt b xs) as bs"

lemma upsert_all_distinct: "distinct (map row_key as) \<Longrightarrow> distinct (map row_key (upsert_all as bs))"
  by (induction bs arbitrary: as) (simp_all add: upsert_all_def upsert_distinct)

lemma set_upsert_all:
  "distinct (map row_key bs) \<Longrightarrow>
   set (upsert_all as bs) = set bs \<union> {a \<in> set as. row_key a \<notin> row_key ` set bs}"
proof (induction bs arbitrary: as)
  case (Cons b bs)
  then have "set (upsert_all as (b # bs))
      = set bs \<union> {a \<in> insert b {a \<in> set as. row_key a \<noteq> row_key b}. row_key a \<notin> row_key ` set bs}"
    by (simp add: upsert_all_def set_upsert)
  also have "\<dots> = set (b # bs) \<union> {a \<in> set as. row_key a \<notin> row_key ` set (b # bs)}"
    using Cons.prems by auto
  finally show ?case .
qed (simp add: upsert_all_def)

section \<open>The invariant\<close>

text \<open>
  One row for a role and a claim, one boundary for a session; a chain gets at most two attempts per
  revision; and all workers that are active belong to the same epoch of the same session, the last
  one that session reserved.
\<close>

definition one_epoch :: "worker_attempt list \<Rightarrow> bool" where
  "one_epoch as \<longleftrightarrow> (\<forall>a\<in>set as. \<forall>b\<in>set as. wa_session a \<noteq> None \<and> wa_session b \<noteq> None \<longrightarrow>
     wa_session a = wa_session b \<and> wa_epoch a = wa_epoch b)"

definition attempt_ok :: "epoch_cutoff list \<Rightarrow> worker_attempt \<Rightarrow> bool" where
  "attempt_ok qs a \<longleftrightarrow> wa_runtime a = 1 \<and> (wa_role a = Chain_analyst \<longrightarrow> wa_attempts a \<le> 2)
     \<and> (\<forall>s. wa_session a = Some s \<longrightarrow> s \<noteq> [] \<and> wa_next a = None
         \<and> (\<exists>q\<in>set qs. ec_session q = s \<and> ec_epoch q = wa_epoch a))"

definition funnel_inv :: "funnel \<Rightarrow> bool" where
  "funnel_inv f \<longleftrightarrow> distinct (map row_key (fn_attempts f)) \<and> distinct (map ec_session (fn_cutoffs f))
     \<and> (\<forall>a\<in>set (fn_attempts f). attempt_ok (fn_cutoffs f) a) \<and> one_epoch (fn_attempts f)"

lemma reset_attempt_id: "attempt_ok qs a \<Longrightarrow> reset_attempt a = a"
  by (simp add: attempt_ok_def reset_attempt_def)

lemma open_funnel_id: "funnel_inv f \<Longrightarrow> open_funnel f = f"
  unfolding funnel_inv_def open_funnel_def by (metis (no_types, lifting) reset_attempt_id funnel.surjective funnel.update_convs(1) map_idI)

text \<open>Releases keep the row but for its session, its time and a smaller count.\<close>

definition released :: "worker_attempt \<Rightarrow> worker_attempt \<Rightarrow> bool" where
  "released a b \<longleftrightarrow> b = a \<or> row_key b = row_key a \<and> wa_session b = None \<and> wa_runtime b = wa_runtime a
     \<and> wa_attempts b \<le> wa_attempts a"

lemma released_ok: "attempt_ok qs a \<Longrightarrow> released a b \<Longrightarrow> attempt_ok qs b"
  by (auto simp: attempt_ok_def released_def row_key_def)

lemma released_one_epoch:
  assumes "one_epoch as" "\<And>a. released a (g a)"
  shows "one_epoch (map g as)"
proof -
  have kept: "x \<in> set as" if "x \<in> set (map g as)" "wa_session x \<noteq> None" for x
  proof -
    obtain a where "a \<in> set as" "x = g a" using \<open>x \<in> set (map g as)\<close> by auto
    with assms(2) [of a] that(2) show ?thesis by (auto simp: released_def)
  qed
  show ?thesis using assms(1) kept unfolding one_epoch_def by meson
qed

lemma released_inv:
  assumes inv: "funnel_inv f" and g: "\<And>a. released a (g a)"
  shows "funnel_inv (f\<lparr>fn_attempts := map g (fn_attempts f)\<rparr>)"
proof -
  have "row_key (g a) = row_key a" for a using g [of a] by (auto simp: released_def)
  then have "row_key \<circ> g = row_key" by (simp add: fun_eq_iff)
  moreover have "one_epoch (map g (fn_attempts f))"
    using inv by (intro released_one_epoch g) (simp add: funnel_inv_def)
  ultimately show ?thesis
    using inv released_ok [OF _ g] by (simp add: funnel_inv_def)
qed

lemma finish_released: "released a (finish_attempt h st ms s a)"
  by (simp add: released_def finish_attempt_def row_key_def)

lemma cancel_released: "released a (cancel_attempt s a)"
  by (simp add: released_def cancel_attempt_def row_key_def)

lemma supersede_released: "released a (supersede s e a)"
  by (simp add: released_def supersede_def row_key_def)

lemma finish_inv: "funnel_inv f \<Longrightarrow> funnel_inv (finish_session h st ms s f)"
  unfolding finish_session_def by (rule released_inv [OF _ finish_released])

lemma cancel_inv: "funnel_inv f \<Longrightarrow> funnel_inv (cancel_session s f)"
  unfolding cancel_session_def by (rule released_inv [OF _ cancel_released])

section \<open>Boundaries\<close>

lemma note_cutoff_sessions:
  "map ec_session (note_cutoff s e n qs) = (if s \<in> ec_session ` set qs then map ec_session qs else map ec_session qs @ [s])"
proof (cases "list_ex (\<lambda>q. ec_session q = s) qs")
  case True
  then have "s \<in> ec_session ` set qs" by (auto simp: list_ex_iff)
  with True show ?thesis by (auto simp: note_cutoff_def)
next
  case False
  then have "s \<notin> ec_session ` set qs" by (auto simp: list_ex_iff)
  with False show ?thesis by (simp add: note_cutoff_def)
qed

lemma find_cutoff_in: "find_cutoff s qs = Some q \<Longrightarrow> q \<in> set qs \<and> ec_session q = s"
  by (auto simp: find_cutoff_def find_Some_iff)

lemma find_cutoff_iff:
  assumes "distinct (map ec_session qs)"
  shows "find_cutoff s qs = Some q \<longleftrightarrow> q \<in> set qs \<and> ec_session q = s"
proof
  assume q: "q \<in> set qs \<and> ec_session q = s"
  then obtain p where p: "find_cutoff s qs = Some p"
    by (cases "find_cutoff s qs") (auto simp: find_cutoff_def find_None_iff)
  with find_cutoff_in [OF p] q same_key [OF assms, of p q] show "find_cutoff s qs = Some q" by simp
qed (rule find_cutoff_in)

lemma find_note_cutoff:
  "find_cutoff t (note_cutoff s e n qs) = (if t = s then
       (case find_cutoff s qs of None \<Rightarrow> Some \<lparr>ec_session = s, ec_epoch = e, ec_rowid = n\<rparr>
        | Some q \<Rightarrow> Some (if ec_epoch q < e then q\<lparr>ec_epoch := e, ec_rowid := n\<rparr> else q))
     else find_cutoff t qs)"
proof (cases "list_ex (\<lambda>q. ec_session q = s) qs")
  case True
  have "find_cutoff t (map (\<lambda>q. if ec_session q = s \<and> ec_epoch q < e then q\<lparr>ec_epoch := e, ec_rowid := n\<rparr> else q) qs)
      = map_option (\<lambda>q. if ec_session q = s \<and> ec_epoch q < e then q\<lparr>ec_epoch := e, ec_rowid := n\<rparr> else q) (find_cutoff t qs)"
    by (induction qs) (auto simp: find_cutoff_def)
  moreover have "find_cutoff s qs \<noteq> None" using True by (auto simp: find_cutoff_def find_None_iff list_ex_iff)
  ultimately show ?thesis
    using True by (cases "find_cutoff t qs") (auto simp: note_cutoff_def dest: find_cutoff_in)
next
  case False
  have app: "find_cutoff t (qs @ [x]) = (case find_cutoff t qs of Some q \<Rightarrow> Some q | None \<Rightarrow> if ec_session x = t then Some x else None)"
    for x by (induction qs) (auto simp: find_cutoff_def)
  have "find_cutoff s qs = None" using False by (auto simp: find_cutoff_def find_None_iff list_ex_iff)
  then show ?thesis using False by (auto simp: note_cutoff_def app split: option.splits)
qed

text \<open>The epoch of a session never decreases, and its boundary stays while the epoch does.\<close>

definition later :: "epoch_cutoff option \<Rightarrow> epoch_cutoff option \<Rightarrow> bool" where
  "later p q \<longleftrightarrow> (case p of None \<Rightarrow> True | Some p \<Rightarrow>
     (case q of None \<Rightarrow> False | Some q \<Rightarrow> ec_epoch p < ec_epoch q \<or> p = q))"

lemma later_refl: "later p p"
  by (simp add: later_def split: option.splits)

lemma later_trans: "later p q \<Longrightarrow> later q r \<Longrightarrow> later p r"
  by (auto simp: later_def split: option.splits)

lemma later_note: "later (find_cutoff t qs) (find_cutoff t (note_cutoff s e n qs))"
  by (auto simp: find_note_cutoff later_def split: option.splits)

section \<open>Reservations\<close>

text \<open>The queue once other epochs have been superseded, the leads an epoch may see, and its selection.\<close>

definition queue_at :: "string \<Rightarrow> nat \<Rightarrow> funnel \<Rightarrow> worker_attempt list" where
  "queue_at s e f = map (supersede s e) (fn_attempts f)"

definition leads_at :: "host \<Rightarrow> claim_store \<Rightarrow> funnel \<Rightarrow> string \<Rightarrow> nat \<Rightarrow> string list" where
  "leads_at h st f s e = (case find_cutoff s (note_cutoff s e (latest_rowid h st) (fn_cutoffs f)) of
     None \<Rightarrow> [] | Some q \<Rightarrow> prior_lead_ids h st (ec_rowid q))"

definition pools_at :: "host \<Rightarrow> claim_store \<Rightarrow> funnel \<Rightarrow> string \<Rightarrow> nat \<Rightarrow> worker_role \<Rightarrow> claim_view list" where
  "pools_at h st f s e = eligible_pools h (queue_at s e f) (Some (leads_at h st f s e)) (claim_list h st)"

definition rows_for ::
  "host \<Rightarrow> funnel \<Rightarrow> string \<Rightarrow> nat \<Rightarrow> (worker_role \<times> claim_view) list \<Rightarrow> worker_attempt list" where
  "rows_for h f s e sel = map (\<lambda>x. reserved_attempt h s e (queue_at s e f) (fst x) (snd x)) sel"

lemma reserve_Inr:
  assumes "reserve_for_session h st f s e m = Inr (f', ws)"
  shows "js_trim s \<noteq> []" "fn_cutoffs f' = note_cutoff s e (latest_rowid h st) (fn_cutoffs f)"
    "\<exists>q. find_cutoff s (fn_cutoffs f') = Some q \<and> ec_epoch q = e \<and> leads_at h st f s e = prior_lead_ids h st (ec_rowid q)"
    "fn_attempts f' = upsert_all (queue_at s e f) (rows_for h f s e (select_workers e m (pools_at h st f s e)))"
    "ws = map assignment_of (select_workers e m (pools_at h st f s e))"
proof -
  obtain q where q: "js_trim s \<noteq> []" "find_cutoff s (note_cutoff s e (latest_rowid h st) (fn_cutoffs f)) = Some q"
      "ec_epoch q = e" "(f', ws) = reserve_workers h st (f\<lparr>fn_cutoffs := note_cutoff s e (latest_rowid h st) (fn_cutoffs f)\<rparr>)
         s e (ec_rowid q) m"
    using assms by (auto simp: reserve_for_session_def ensure_Inr_iff Let_def split: option.splits)
  have leads: "leads_at h st f s e = prior_lead_ids h st (ec_rowid q)" using q(2) by (simp add: leads_at_def)
  from q(4) have r: "fn_cutoffs f' = note_cutoff s e (latest_rowid h st) (fn_cutoffs f)"
    "fn_attempts f' = upsert_all (queue_at s e f) (rows_for h f s e (select_workers e m (pools_at h st f s e)))"
    "ws = map assignment_of (select_workers e m (pools_at h st f s e))"
    by (simp_all add: reserve_workers_def Let_def pools_at_def leads queue_at_def upsert_all_def rows_for_def foldl_map)
  show "js_trim s \<noteq> []" by (rule q(1))
  show "\<exists>q. find_cutoff s (fn_cutoffs f') = Some q \<and> ec_epoch q = e \<and> leads_at h st f s e = prior_lead_ids h st (ec_rowid q)"
    using q(2,3) r(1) leads by simp
  show "fn_cutoffs f' = note_cutoff s e (latest_rowid h st) (fn_cutoffs f)"
    "fn_attempts f' = upsert_all (queue_at s e f) (rows_for h f s e (select_workers e m (pools_at h st f s e)))"
    "ws = map assignment_of (select_workers e m (pools_at h st f s e))" by (fact r)+
qed

lemma pools_at_ok:
  assumes "distinct (map c_id (s_claims st))"
  shows "pools_ok (pools_at h st f s e) []"
proof -
  have d: "distinct (map c_id (claim_list h st))" by (rule distinct_claim_list [OF assms])
  have "c_id ` set (pools_at h st f s e r) \<inter> c_id ` set (pools_at h st f s e r') = {}" if "r \<noteq> r'" for r r'
  proof (rule ccontr)
    assume "c_id ` set (pools_at h st f s e r) \<inter> c_id ` set (pools_at h st f s e r') \<noteq> {}"
    then obtain x y where x: "x \<in> set (pools_at h st f s e r)" "y \<in> set (pools_at h st f s e r')" "c_id x = c_id y" by blast
    then have "x = y" using same_key [OF d, of x y] by (simp add: pools_at_def)
    with x that suits_disjoint show False unfolding pools_at_def set_pools by blast
  qed
  then show ?thesis by (simp add: pools_ok_def pools_at_def distinct_pool [OF d])
qed

lemma rows_for_keys: "map row_key (rows_for h f s e sel) = map (\<lambda>x. (fst x, c_id (snd x))) sel"
  by (simp add: rows_for_def row_key_def reserved_attempt_def)

lemma distinct_keys: "distinct (map (\<lambda>x. c_id (snd x)) sel) \<Longrightarrow> distinct (map (\<lambda>x. (fst x, c_id (snd x))) sel)"
  by (auto simp: distinct_map inj_on_def)

lemma queue_at_keys: "map row_key (queue_at s e f) = map row_key (fn_attempts f)"
  by (auto simp: queue_at_def supersede_def row_key_def)

lemma queue_at_active:
  assumes "a \<in> set (queue_at s e f)" "wa_session a \<noteq> None"
  shows "a \<in> set (fn_attempts f) \<and> wa_session a = Some s \<and> wa_epoch a = e"
  using assms by (auto simp: queue_at_def supersede_def split: if_splits)

lemma queue_at_ok:
  assumes "funnel_inv f" "a \<in> set (queue_at s e f)"
  shows "attempt_ok (fn_cutoffs f) a"
  using assms released_ok [OF _ supersede_released] by (auto simp: funnel_inv_def queue_at_def)

text \<open>The rows after a reservation: the new ones and those that were not replaced.\<close>

lemma reserve_rows:
  assumes "reserve_for_session h st f s e m = Inr (f', ws)" "distinct (map c_id (s_claims st))"
  shows "set (fn_attempts f') = set (rows_for h f s e (select_workers e m (pools_at h st f s e)))
      \<union> {a \<in> set (queue_at s e f). row_key a \<notin> (\<lambda>w. (as_role w, as_claim w)) ` set ws}"
proof -
  have "distinct (map row_key (rows_for h f s e (select_workers e m (pools_at h st f s e))))"
    using distinct_keys [OF select_workers_facts(1) [OF pools_at_ok [OF assms(2)]]] by (simp only: rows_for_keys)
  from set_upsert_all [OF this] show ?thesis
    unfolding reserve_Inr(4) [OF assms(1)] reserve_Inr(5) [OF assms(1)]
    by (simp add: rows_for_def image_image assignment_of_def row_key_def reserved_attempt_def)
qed

lemma worker_eligible_chain:
  assumes "worker_eligible now as Chain_analyst c" "find_attempt as Chain_analyst (c_id c) = Some a"
    "wa_revision a = c_revision c"
  shows "wa_attempts a < 2"
  using assms by (auto simp: worker_eligible_def split: if_splits)

lemma reserved_fields [simp]:
  "wa_role (reserved_attempt h s e as r c) = r" "wa_claim (reserved_attempt h s e as r c) = c_id c"
  "wa_revision (reserved_attempt h s e as r c) = c_revision c" "wa_session (reserved_attempt h s e as r c) = Some s"
  "wa_epoch (reserved_attempt h s e as r c) = e" "wa_runtime (reserved_attempt h s e as r c) = 1"
  "wa_next (reserved_attempt h s e as r c) = None"
  by (simp_all add: reserved_attempt_def)

lemma reserve_inv:
  assumes ok: "reserve_for_session h st f s e m = Inr (f', ws)" and st: "distinct (map c_id (s_claims st))"
    and inv: "funnel_inv f"
  shows "funnel_inv f'"
proof -
  let ?sel = "select_workers e m (pools_at h st f s e)"
  note rows = reserve_rows [OF ok st]
  obtain q where q: "q \<in> set (fn_cutoffs f')" "ec_session q = s" "ec_epoch q = e"
    using reserve_Inr(3) [OF ok] find_cutoff_in by metis
  have s: "s \<noteq> []" using reserve_Inr(1) [OF ok] by (auto simp: js_trim_def trim_start_def trim_end_def)
  have new: "attempt_ok (fn_cutoffs f') a \<and> wa_session a = Some s \<and> wa_epoch a = e" if "a \<in> set (rows_for h f s e ?sel)" for a
  proof -
    from that obtain x where "x \<in> set ?sel" "a = reserved_attempt h s e (queue_at s e f) (fst x) (snd x)"
      unfolding rows_for_def set_map by (elim imageE)
    then obtain r c where x: "(r, c) \<in> set ?sel" "a = reserved_attempt h s e (queue_at s e f) r c"
      by (metis prod.collapse)
    have "c \<in> set (pools_at h st f s e r)" by (rule select_workers_facts(3) [OF pools_at_ok [OF st] x(1)])
    then have "worker_eligible (h_now h) (queue_at s e f) r c" by (simp add: pools_at_def)
    then have "wa_attempts a \<le> 2" if "r = Chain_analyst"
      using worker_eligible_chain [of "h_now h" "queue_at s e f" c] that
      by (auto simp: x(2) reserved_attempt_def split: option.splits)
    then show ?thesis using q s by (auto simp: attempt_ok_def x(2))
  qed
  have old: "attempt_ok (fn_cutoffs f') a" if "a \<in> set (queue_at s e f)" for a
    using queue_at_ok [OF inv that] queue_at_active [OF that] q s by (auto simp: attempt_ok_def)
  have act: "wa_session a = Some s \<and> wa_epoch a = e" if "a \<in> set (fn_attempts f')" "wa_session a \<noteq> None" for a
    using that new queue_at_active unfolding rows by blast
  have "distinct (map row_key (fn_attempts f'))"
    unfolding reserve_Inr(4) [OF ok]
    by (rule upsert_all_distinct) (use inv in \<open>simp add: queue_at_keys funnel_inv_def\<close>)
  moreover have "distinct (map ec_session (fn_cutoffs f'))"
    using inv unfolding reserve_Inr(2) [OF ok] note_cutoff_sessions by (auto simp: funnel_inv_def)
  moreover have "\<forall>a\<in>set (fn_attempts f'). attempt_ok (fn_cutoffs f') a" using rows new old by blast
  moreover have "one_epoch (fn_attempts f')" unfolding one_epoch_def using act by metis
  ultimately show ?thesis by (simp add: funnel_inv_def)
qed

end
