(* ===== verification/Funnel_Theorems.thy ===== *)
theory Funnel_Theorems
  imports Funnel_Run
begin

text \<open>
  The properties of the worker queue of a research track: its invariant under any interleaving with
  the claim ledger, the contract of a reservation, the boundary of an epoch, the cool-down after a
  session, the fairness of the selection, and what a retried epoch does.
\<close>

section \<open>Growth of the ledger\<close>

definition claim_key :: "claim \<Rightarrow> string \<times> string" where
  "claim_key c = (c_id c, c_workspace c)"

definition grows :: "claim_store \<Rightarrow> claim_store \<Rightarrow> bool" where
  "grows st st' \<longleftrightarrow> (\<exists>xs. map claim_key (s_claims st') = map claim_key (s_claims st) @ xs)"

lemma grows_refl: "grows st st"
  by (simp add: grows_def)

lemma committed_grows:
  assumes "claim_inv d st" "committed st r r' t es ks st'"
  shows "grows st st'"
proof -
  have "claim_key (if c_id c = c_id r' then r' else c) = claim_key c" if "c \<in> set (s_claims st)" for c
    using assms(2) that distinct_row [OF claim_invD(2) [OF assms(1)]]
    by (auto simp: committed_def successor_def claim_key_def)
  then have "map claim_key (s_claims st') = map claim_key (s_claims st)"
    using assms(2) by (simp add: committed_def put_claim_def)
  then show ?thesis by (simp add: grows_def)
qed

lemma run_op_grows: "claim_inv d st \<Longrightarrow> run_op h ca st k op = Inr st' \<Longrightarrow> grows st st'"
  by (rule run_op_committed) (assumption, assumption, erule (1) committed_grows)

lemma created_grows:
  assumes "create_with_status h ca st i status surface = Inr (st', k)"
  shows "grows st st'"
proof (cases "st' = st")
  case False
  obtain row comps es where "insert_claim h ca i row comps es st = Inr st'"
    using create_committed [OF assms False] by metis
  then have "s_claims st' = s_claims st @ [row]"
    by (auto simp: insert_claim_def ensure_Inr_iff write_components_def)
  then show ?thesis by (simp add: grows_def)
qed (simp add: grows_refl)

lemma claim_step_grows: "claim_step d st st' \<Longrightarrow> claim_inv d st \<Longrightarrow> grows st st'"
proof (induction rule: claim_step.induct)
  case (step_transition h st ca k i st')
  then show ?case using run_op_grows [of d st h ca k "Op_transition i"] by simp
next
  case (step_human h st k n to st')
  then show ?case using run_op_grows [of d st h ca k "Op_human n to" for ca] by simp
next
  case (step_mark h ca st k n parent reason st')
  then show ?case using run_op_grows [of d st h ca k "Op_mark n parent reason"] by simp
next
  case (step_undo h ca st k n reason st')
  then show ?case using run_op_grows [of d st h ca k "Op_undo n reason"] by simp
next
  case (step_revise h st ca k rv st')
  then show ?case using run_op_grows [of d st h ca k "Op_revise rv"] by simp
next
  case (step_packet h st ca k pk st')
  then show ?case using run_op_grows [of d st h ca k "Op_packet pk"] by simp
next
  case (step_stale h st k r actor reason st')
  then show ?case using mark_stale_committed committed_grows by blast
next
  case (step_create h st i surface status ca st' k)
  then show ?case by (intro created_grows)
qed (simp add: grows_refl grows_def)

text \<open>What the queue relies on of the ledger: claims are only added, in order.\<close>

interpretation claim_rows: growing_records "claim_step d" "claim_inv d" "\<lambda>st. map claim_key (s_claims st)" for d
  by unfold_locales (simp add: claim_step_grows [unfolded grows_def])

text \<open>The claims of a workspace up to a row, seen from a longer ledger.\<close>

lemma prior_lead_ids_eq:
  "prior_lead_ids h st n = map fst (filter (\<lambda>k. snd k = h_workspace h) (take n (map claim_key (s_claims st))))"
proof -
  have "filter (\<lambda>(m, c). m \<le> n) (enumerate 1 cs) = enumerate 1 (take n cs)" for cs :: "claim list"
  proof -
    have "filter (\<lambda>(m, c). m \<le> n) (enumerate k cs) = enumerate k (take (n + 1 - k) cs)" if "k \<le> n + 1" for k
      using that
    proof (induction cs arbitrary: k)
      case (Cons c cs)
      show ?case
      proof (cases "k \<le> n")
        case True
        then have "n + 1 - k = Suc (n + 1 - Suc k)" by simp
        with Cons.IH [of "Suc k"] True show ?thesis by simp
      next
        case False
        then have "\<forall>x\<in>set (enumerate (Suc k) cs). \<not> fst x \<le> n"
          using Cons.prems by (auto simp: enumerate_eq_zip dest: set_zip_leftD)
        with False Cons.prems show ?thesis by (auto simp: filter_empty_conv)
      qed
    qed simp
    from this [of 1] show ?thesis by simp
  qed
  moreover have "filter (\<lambda>(m, c). m \<le> n) (numbered_claims h st)
      = filter (\<lambda>(m, c). c_workspace c = h_workspace h) (filter (\<lambda>(m, c). m \<le> n) (enumerate 1 (s_claims st)))"
    unfolding numbered_claims_def filter_filter by (rule filter_cong) auto
  moreover have "map (\<lambda>(m, c). c_id c) (filter (\<lambda>(m, c). c_workspace c = h_workspace h) (enumerate k cs))
      = map fst (filter (\<lambda>k. snd k = h_workspace h) (map claim_key cs))" for k and cs :: "claim list"
    by (induction cs arbitrary: k) (simp_all add: claim_key_def)
  ultimately show ?thesis by (simp add: prior_lead_ids_def take_map)
qed

lemma prior_lead_ids_run:
  assumes "(claim_step d)\<^sup>*\<^sup>* st st'" "claim_inv d st" "n \<le> length (s_claims st)" "h_workspace h' = h_workspace h"
  shows "prior_lead_ids h' st' n = prior_lead_ids h st n"
  using claim_rows.run_take [OF assms(1,2), of n] assms(3,4) unfolding prior_lead_ids_eq by simp

lemma prior_lead_ids_known: "set (prior_lead_ids h st n) \<subseteq> c_id ` set (s_claims st)"
  unfolding prior_lead_ids_eq by (auto simp: claim_key_def dest!: in_set_takeD)

lemma latest_rowid_bound: "latest_rowid h st \<le> length (s_claims st)"
proof -
  have "\<forall>x\<in>set (map fst (numbered_claims h st)). x \<le> length (s_claims st)"
    by (auto simp: numbered_claims_def in_set_enumerate_eq)
  moreover have "(\<forall>x\<in>set xs. x \<le> b) \<Longrightarrow> m \<le> b \<Longrightarrow> fold max xs m \<le> b" for xs and m b :: nat
    by (induction xs arbitrary: m) simp_all
  ultimately show ?thesis by (simp add: latest_rowid_def)
qed

section \<open>Runs\<close>

text \<open>
  The queue of workspace \<open>w\<close> next to the ledger: the ledger changes, the queue is opened again, or an
  operation of the queue reads the current ledger.
\<close>

inductive queue_step :: "(string \<Rightarrow> bool) \<Rightarrow> string \<Rightarrow> claim_store \<times> funnel \<Rightarrow> claim_store \<times> funnel \<Rightarrow> bool"
  for d w where
  run_ledger: "claim_step d st st' \<Longrightarrow> queue_step d w (st, f) (st', f)"
| run_open: "queue_step d w (st, f) (st, open_funnel f)"
| run_reserve: "h_workspace h = w \<Longrightarrow> reserve_for_session h st f s e m = Inr (f', ws) \<Longrightarrow> queue_step d w (st, f) (st, f')"
| run_finish: "h_workspace h = w \<Longrightarrow> queue_step d w (st, f) (st, finish_session h st ms s f)"
| run_cancel: "queue_step d w (st, f) (st, cancel_session s f)"

definition no_funnel :: funnel where
  "no_funnel = \<lparr>fn_attempts = [], fn_cutoffs = []\<rparr>"

definition reachable_queue :: "(string \<Rightarrow> bool) \<Rightarrow> string \<Rightarrow> claim_store \<Rightarrow> funnel \<Rightarrow> bool" where
  "reachable_queue d w st f \<longleftrightarrow> (queue_step d w)\<^sup>*\<^sup>* (empty_store, no_funnel) (st, f)"

definition queue_inv :: "(string \<Rightarrow> bool) \<Rightarrow> claim_store \<times> funnel \<Rightarrow> bool" where
  "queue_inv d x \<longleftrightarrow> claim_inv d (fst x) \<and> funnel_inv (snd x)
     \<and> (\<forall>q\<in>set (fn_cutoffs (snd x)). ec_rowid q \<le> length (s_claims (fst x)))"

lemma note_cutoff_rowid:
  "q \<in> set (note_cutoff s e n qs) \<Longrightarrow> ec_rowid q = n \<or> (\<exists>p\<in>set qs. ec_rowid q = ec_rowid p)"
  by (auto simp: note_cutoff_def split: if_splits)

lemma queue_step_inv: "queue_step d w x y \<Longrightarrow> queue_inv d x \<Longrightarrow> queue_inv d y"
proof (induction rule: queue_step.induct)
  case (run_ledger st st' f)
  then show ?case
    using claim_step_inv claim_rows.run_length [OF r_into_rtranclp] by (fastforce simp: queue_inv_def)
next
  case (run_open st f)
  then show ?case by (simp add: queue_inv_def open_funnel_id)
next
  case (run_reserve h st f s e m f' ws)
  then have inv: "claim_inv d st" "funnel_inv f" by (simp_all add: queue_inv_def)
  have "ec_rowid q \<le> length (s_claims st)" if "q \<in> set (fn_cutoffs f')" for q
    using note_cutoff_rowid [OF that [unfolded reserve_Inr(2) [OF run_reserve.hyps(2)]]] latest_rowid_bound [of h st]
      run_reserve.prems by (auto simp: queue_inv_def)
  with inv show ?case
    using reserve_inv [OF run_reserve.hyps(2) claim_invD(2) [OF inv(1)] inv(2)] by (simp add: queue_inv_def)
next
  case (run_finish h st f ms s)
  then show ?case by (simp add: queue_inv_def finish_inv) (simp add: finish_session_def)
next
  case (run_cancel st f s)
  then show ?case by (simp add: queue_inv_def cancel_inv) (simp add: cancel_session_def)
qed

lemma queue_inv_start: "queue_inv d (empty_store, no_funnel)"
  by (simp add: queue_inv_def claim_inv_empty funnel_inv_def no_funnel_def one_epoch_def)

interpretation worker_queue: invariant_system "queue_step d w" "queue_inv d" for d w
  by unfold_locales (rule queue_step_inv)

lemma reachable_queue_inv: "reachable_queue d w st f \<Longrightarrow> queue_inv d (st, f)"
  unfolding reachable_queue_def by (rule worker_queue.run_inv [OF _ queue_inv_start])

text \<open>Along a run the ledger takes steps of its own and the boundaries only move on.\<close>

lemma queue_step_later:
  "queue_step d w x y \<Longrightarrow> (claim_step d)\<^sup>*\<^sup>* (fst x) (fst y)
     \<and> later (find_cutoff s (fn_cutoffs (snd x))) (find_cutoff s (fn_cutoffs (snd y)))"
proof (induction rule: queue_step.induct)
  case (run_reserve h st f t e m f' ws)
  then show ?case by (simp add: reserve_Inr(2) later_note)
qed (auto simp: later_refl open_funnel_def finish_session_def cancel_session_def)

lemma queue_run_later:
  assumes "(queue_step d w)\<^sup>*\<^sup>* x y" "queue_inv d x"
  shows "(claim_step d)\<^sup>*\<^sup>* (fst x) (fst y)
     \<and> later (find_cutoff s (fn_cutoffs (snd x))) (find_cutoff s (fn_cutoffs (snd y)))"
  using assms
  by (rule worker_queue.run_relates [where R = "\<lambda>x y. (claim_step d)\<^sup>*\<^sup>* (fst x) (fst y)
      \<and> later (find_cutoff s (fn_cutoffs (snd x))) (find_cutoff s (fn_cutoffs (snd y)))"])
    (auto simp: later_refl intro: later_trans dest: queue_step_later)

section \<open>Turns of the roles\<close>

lemma fill_workers_keeps: "set sel \<subseteq> set (fill_workers n rs pools sel)"
proof (induction n rs pools sel rule: fill_workers.induct)
  case (1 n rs pools sel)
  then show ?case by (subst fill_workers.simps) (auto simp del: fun_upd_apply split: option.splits)
qed

lemma role_turn:
  "e mod 3 = 0 \<Longrightarrow> hd (rotated_roles e) = Triager" "e mod 3 = 1 \<Longrightarrow> hd (rotated_roles e) = Reporter"
  "e mod 3 = 2 \<Longrightarrow> hd (rotated_roles e) = Chain_analyst"
proof -
  have n: "length downstream = 3" by (simp add: downstream_def)
  show "e mod 3 = 0 \<Longrightarrow> hd (rotated_roles e) = Triager" "e mod 3 = 1 \<Longrightarrow> hd (rotated_roles e) = Reporter"
    "e mod 3 = 2 \<Longrightarrow> hd (rotated_roles e) = Chain_analyst"
    unfolding rotated_roles_def n by (simp_all add: downstream_def)
qed

lemma residue_near: "(i::nat) < 3 \<Longrightarrow> \<exists>e\<in>{n, n + 1, n + 2}. e mod 3 = i"
proof -
  assume "i < 3"
  then have "n mod 3 = i \<or> Suc n mod 3 = i \<or> Suc (Suc n) mod 3 = i"
    using mod_less_divisor [of 3 n] by (auto simp: mod_Suc)
  then show ?thesis by auto
qed

lemma rotated_ne: "rotated_roles e \<noteq> []"
  by (metis rotated_roles_set empty_not_insert list.set(1))

lemma first_role_selected:
  assumes "2 \<le> m" "pools r \<noteq> []" "hd (rotated_roles e) = r" "r \<noteq> Investigator"
  shows "(r, hd (pools r)) \<in> set (select_workers e m pools)"
proof -
  define p where "p = (if m > 0 \<and> pools Investigator \<noteq> [] then pools(Investigator := tl (pools Investigator)) else pools)"
  define t where "t = (if m > 0 \<and> pools Investigator \<noteq> [] then [(Investigator, hd (pools Investigator))] else [])"
  let ?n = "nat (max 0 (min 3 m))"
  have eq: "select_workers e m pools = fill_workers ?n (rotated_roles e) p t"
    by (simp add: select_workers_def Let_def p_def t_def)
  have pr: "p r = pools r" using assms(4) by (simp add: p_def)
  have "find (\<lambda>r. p r \<noteq> []) (rotated_roles e) = Some r"
    using assms(2,3) pr rotated_ne [of e] by (cases "rotated_roles e") auto
  then have next': "next_role (rotated_roles e) p = Some r" by (simp add: next_role_def)
  have "length t \<le> 1" by (simp add: t_def)
  moreover have "2 \<le> ?n" using assms(1) by (cases "m \<ge> 3") (simp_all add: min_def)
  ultimately have short: "\<not> length t \<ge> ?n" by linarith
  have "fill_workers ?n (rotated_roles e) p t
      = fill_workers ?n (rotated_roles e) (p(r := tl (p r))) (t @ [(r, hd (p r))])"
    by (subst fill_workers.simps) (simp only: short next' if_False option.case)
  then show ?thesis
    unfolding eq using fill_workers_keeps [of "t @ [(r, hd (p r))]" ?n "rotated_roles e"] pr by auto
qed

section \<open>Properties\<close>

text \<open>
  C24. Whatever the ledger does in between, the queue keeps one row for a role and a claim and one
  boundary for a session, gives a chain at most two attempts per revision, and never has workers of
  two sessions or of two epochs active at once; opening it again changes nothing.
\<close>

theorem queue_invariant:
  assumes "reachable_queue d w st f"
  shows "funnel_inv f \<and> open_funnel f = f"
  using reachable_queue_inv [OF assms] by (simp add: queue_inv_def open_funnel_id)

text \<open>
  C25. A reservation hands out at most the number of workers asked for, and never more than three, on
  distinct claims; each is a canonical claim that suits its role and may be worked on, at its current
  revision, and its row is recorded.  When fewer are handed out, no claim that suits a role is left
  over; and from then on only workers of this session and epoch are active.
\<close>

theorem reservation_contract:
  assumes "reachable_queue d w st f" "reserve_for_session h st f s e m = Inr (f', ws)"
  shows "length ws \<le> nat (max 0 (min 3 m)) \<and> distinct (map as_claim ws)
    \<and> (\<forall>x\<in>set ws. \<exists>v\<in>set (claim_list h st). assignment_of (as_role x, v) = x
        \<and> suits h (claim_list h st) (Some (leads_at h st f s e)) (as_role x) v
        \<and> worker_eligible (h_now h) (queue_at s e f) (as_role x) v
        \<and> find_attempt (fn_attempts f') (as_role x) (as_claim x)
            = Some (reserved_attempt h s e (queue_at s e f) (as_role x) v))
    \<and> (length ws < nat (max 0 (min 3 m)) \<longrightarrow> (\<forall>r. \<forall>v\<in>set (claim_list h st).
        suits h (claim_list h st) (Some (leads_at h st f s e)) r v \<and> worker_eligible (h_now h) (queue_at s e f) r v
        \<longrightarrow> assignment_of (r, v) \<in> set ws))
    \<and> (\<forall>a\<in>set (fn_attempts f'). wa_session a \<noteq> None \<longrightarrow> wa_session a = Some s \<and> wa_epoch a = e)"
proof -
  let ?sel = "select_workers e m (pools_at h st f s e)"
  note ws = reserve_Inr(5) [OF assms(2)]
  have inv: "claim_inv d st" "funnel_inv f" using reachable_queue_inv [OF assms(1)] by (simp_all add: queue_inv_def)
  have d: "distinct (map c_id (s_claims st))" by (rule claim_invD(2) [OF inv(1)])
  note rows = reserve_rows [OF assms(2) d] and facts = select_workers_facts [OF pools_at_ok [OF d]]
  have keys: "distinct (map row_key (fn_attempts f'))"
    using reserve_inv [OF assms(2) d inv(2)] by (simp add: funnel_inv_def)
  have picked: "\<exists>v\<in>set (claim_list h st). assignment_of (as_role x, v) = x
        \<and> suits h (claim_list h st) (Some (leads_at h st f s e)) (as_role x) v
        \<and> worker_eligible (h_now h) (queue_at s e f) (as_role x) v
        \<and> find_attempt (fn_attempts f') (as_role x) (as_claim x)
            = Some (reserved_attempt h s e (queue_at s e f) (as_role x) v)" if x: "x \<in> set ws" for x
  proof -
    obtain r v where v: "(r, v) \<in> set ?sel" "x = assignment_of (r, v)" using x unfolding ws by auto
    have "v \<in> set (pools_at h st f s e r)" by (rule facts(3) [OF v(1)])
    moreover have "reserved_attempt h s e (queue_at s e f) r v \<in> set (rows_for h f s e ?sel)"
      using v(1) by (force simp: rows_for_def)
    then have "find_attempt (fn_attempts f') r (c_id v) = Some (reserved_attempt h s e (queue_at s e f) r v)"
      unfolding find_attempt_key [OF keys] rows by (simp add: row_key_def)
    ultimately show ?thesis using v(2) by (intro bexI [of _ v]) (simp_all add: pools_at_def assignment_of_def)
  qed
  have full: "assignment_of (r, v) \<in> set ws" if "length ws < nat (max 0 (min 3 m))" "v \<in> set (claim_list h st)"
      "suits h (claim_list h st) (Some (leads_at h st f s e)) r v" "worker_eligible (h_now h) (queue_at s e f) r v" for r v
  proof -
    have "v \<in> set (pools_at h st f s e r)" using that by (simp add: pools_at_def)
    then have "(r, v) \<in> set ?sel" using facts(4) that(1) by (simp add: ws)
    then show ?thesis unfolding ws by (metis image_eqI list.set_map)
  qed
  have "wa_session a = Some s \<and> wa_epoch a = e" if "a \<in> set (fn_attempts f')" "wa_session a \<noteq> None" for a
    using that queue_at_active [of a s e f] unfolding rows by (auto simp: rows_for_def)
  moreover have "length ws \<le> nat (max 0 (min 3 m))" "distinct (map as_claim ws)"
    using facts(1,2) by (simp_all add: ws assignment_of_def o_def)
  ultimately show ?thesis using picked full by blast
qed

text \<open>
  C26. A lead that was recorded after the first reservation of an epoch is not handed to an
  investigator or a chain analyst when the epoch is retried, whatever the ledger and the queue did in
  the meantime.
\<close>

theorem lead_boundary:
  assumes "reachable_queue d w st f" "h_workspace h = w" "reserve_for_session h st f s e m = Inr (f1, ws)"
    and "(queue_step d w)\<^sup>*\<^sup>* (st, f1) (st2, f2)" "h_workspace h2 = w"
    and "reserve_for_session h2 st2 f2 s e n = Inr (f3, ws2)" "x \<in> set ws2"
    and "as_role x = Investigator \<or> as_role x = Chain_analyst"
  shows "\<exists>v\<in>set (claim_list h2 st2). c_id v = as_claim x
    \<and> (v_projection v = Proj_finding \<or> as_claim x \<in> c_id ` set (s_claims st))"
proof -
  have inv: "queue_inv d (st, f)" by (rule reachable_queue_inv [OF assms(1)])
  have inv1: "queue_inv d (st, f1)" by (rule queue_step_inv [OF run_reserve [OF assms(2,3)] inv])
  have inv2: "queue_inv d (st2, f2)" by (rule worker_queue.run_inv [OF assms(4) inv1])
  obtain q where q: "find_cutoff s (fn_cutoffs f1) = Some q" "ec_epoch q = e" using reserve_Inr(3) [OF assms(3)] by blast
  obtain p where p: "find_cutoff s (fn_cutoffs f3) = Some p" "ec_epoch p = e"
      "leads_at h2 st2 f2 s e = prior_lead_ids h2 st2 (ec_rowid p)" using reserve_Inr(3) [OF assms(6)] by blast
  have run: "(claim_step d)\<^sup>*\<^sup>* st st2" "later (find_cutoff s (fn_cutoffs f1)) (find_cutoff s (fn_cutoffs f2))"
    using queue_run_later [OF assms(4) inv1] by auto
  have "later (find_cutoff s (fn_cutoffs f1)) (find_cutoff s (fn_cutoffs f3))"
    using later_trans [OF run(2)] later_note unfolding reserve_Inr(2) [OF assms(6)] by blast
  then have "p = q" using p q by (simp add: later_def)
  moreover have "ec_rowid q \<le> length (s_claims st)" using inv1 find_cutoff_in [OF q(1)] by (simp add: queue_inv_def)
  ultimately have "leads_at h2 st2 f2 s e = prior_lead_ids h st (ec_rowid q)"
    using prior_lead_ids_run [OF run(1)] inv p(3) assms(2,5) by (simp add: queue_inv_def)
  then have leads: "set (leads_at h2 st2 f2 s e) \<subseteq> c_id ` set (s_claims st)" using prior_lead_ids_known by simp
  obtain r v where v: "(r, v) \<in> set (select_workers e n (pools_at h2 st2 f2 s e))" "x = assignment_of (r, v)"
    using assms(7) unfolding reserve_Inr(5) [OF assms(6)] by auto
  have d: "distinct (map c_id (s_claims st2))" using inv2 claim_invD(2) [of d st2] by (simp add: queue_inv_def)
  have "v \<in> set (pools_at h2 st2 f2 s e r)" by (rule select_workers_facts(3) [OF pools_at_ok [OF d] v(1)])
  then have "v \<in> set (claim_list h2 st2)" "suits h2 (claim_list h2 st2) (Some (leads_at h2 st2 f2 s e)) r v"
    by (simp_all add: pools_at_def)
  moreover have "r = Investigator \<or> r = Chain_analyst" using assms(8) v(2) by (simp add: assignment_of_def)
  ultimately show ?thesis
    using leads v(2) by (intro bexI [of _ v]) (auto simp: assignment_of_def investigates_def chains_def within_boundary_def)
qed

text \<open>
  After a session its workers are free.  A claim that moved on during the session may be worked
  on at once; one that did not waits half an hour, a chain a day, and a chain that had its second
  attempt waits for a new revision.
\<close>

theorem cool_down:
  assumes "reachable_queue d w st f" "find_attempt (fn_attempts f) r k = Some a" "wa_session a = Some s"
    and "find_row h st k = Some c" "c_id v = k"
  shows "(\<forall>b\<in>set (fn_attempts (finish_session h st ms s f)). wa_session b \<noteq> Some s)
    \<and> (worker_eligible now (fn_attempts (finish_session h st ms s f)) r v \<longleftrightarrow>
        c_revision v \<noteq> wa_revision a
        \<or> (r = Chain_analyst \<longrightarrow> wa_attempts a < 2)
          \<and> (c_revision c \<noteq> wa_revision a \<or> cmp_units (iso_print (ms + retry_delay r)) now \<le> 0))"
proof -
  have inv: "funnel_inv f" using reachable_queue_inv [OF assms(1)] by (simp add: queue_inv_def)
  have keys: "distinct (map row_key (fn_attempts f))" using inv by (simp add: funnel_inv_def)
  have keys2: "distinct (map row_key (fn_attempts (finish_session h st ms s f)))"
    using finish_inv [OF inv] by (simp add: funnel_inv_def)
  have a: "a \<in> set (fn_attempts f)" "wa_role a = r" "wa_claim a = k"
    using assms(2) unfolding find_attempt_key [OF keys] by (simp_all add: row_key_def)
  have "finish_attempt h st ms s a \<in> set (fn_attempts (finish_session h st ms s f))"
    using a(1) by (simp add: finish_session_def)
  moreover have "row_key (finish_attempt h st ms s a) = (r, k)" using a(2,3) by (simp add: finish_attempt_def row_key_def)
  ultimately have found: "find_attempt (fn_attempts (finish_session h st ms s f)) r k = Some (finish_attempt h st ms s a)"
    by (simp add: find_attempt_key [OF keys2])
  have printed: "iso_print t \<noteq> []" for t by (simp add: iso_print_def Let_def split: prod.splits)
  have "\<forall>b\<in>set (fn_attempts (finish_session h st ms s f)). wa_session b \<noteq> Some s"
    by (auto simp: finish_session_def finish_attempt_def split: if_splits)
  moreover have "worker_eligible now (fn_attempts (finish_session h st ms s f)) r v \<longleftrightarrow>
        c_revision v \<noteq> wa_revision a \<or> (r = Chain_analyst \<longrightarrow> wa_attempts a < 2)
          \<and> (c_revision c \<noteq> wa_revision a \<or> cmp_units (iso_print (ms + retry_delay r)) now \<le> 0)"
    using assms(3-5) a(2,3) printed by (auto simp: worker_eligible_def found finish_attempt_def truthy_def)
  ultimately show ?thesis by blast
qed

text \<open>
  Among any three consecutive epochs every downstream role has one in which, when it has work
  and two workers are allowed, it gets its first claim.
\<close>

theorem rotation_fair:
  assumes "r = Triager \<or> r = Reporter \<or> r = Chain_analyst"
  shows "\<exists>e\<in>{n, n + 1, n + 2}. \<forall>m pools. 2 \<le> m \<longrightarrow> pools r \<noteq> [] \<longrightarrow>
    (r, hd (pools r)) \<in> set (select_workers e m pools)"
proof -
  obtain i where i: "i < 3" "\<And>e. e mod 3 = i \<Longrightarrow> hd (rotated_roles e) = r"
    using assms role_turn that [of 0] that [of 1] that [of 2] by auto
  obtain e where e: "e \<in> {n, n + 1, n + 2}" "e mod 3 = i" using i(1) by (metis residue_near)
  have "(r, hd (pools r)) \<in> set (select_workers e m pools)" if "2 \<le> m" "pools r \<noteq> []" for m pools
    by (rule first_role_selected) (use that i(2) [OF e(2)] assms in auto)
  with e(1) show ?thesis by blast
qed

definition active_count :: "string \<Rightarrow> funnel \<Rightarrow> nat" where
  "active_count s f = length (filter (\<lambda>a. wa_session a = Some s) (fn_attempts f))"

lemma active_count_card:
  "distinct as \<Longrightarrow> length (filter P as) = card {a \<in> set as. P a}"
  by (metis distinct_card distinct_filter set_filter)

lemma keys_distinct: "distinct (map row_key as) \<Longrightarrow> distinct as"
  by (simp add: distinct_map)

lemma rows_for_card:
  assumes "distinct (map (\<lambda>x. c_id (snd x)) sel)"
  shows "card (set (rows_for h f s e sel)) = length sel"
proof -
  have "distinct (rows_for h f s e sel)"
    by (rule keys_distinct) (simp only: rows_for_keys distinct_keys [OF assms])
  from distinct_card [OF this] show ?thesis by (simp add: rows_for_def)
qed

text \<open>A reservation adds its workers to those this session already has in this epoch.\<close>

lemma reserved_count:
  assumes ok: "reserve_for_session h st f s e m = Inr (f', ws)" and d: "distinct (map c_id (s_claims st))"
    and inv: "funnel_inv f"
  shows "active_count s f' = length ws + card {a \<in> set (fn_attempts f). wa_session a = Some s \<and> wa_epoch a = e}"
proof -
  let ?sel = "select_workers e m (pools_at h st f s e)"
  let ?A = "{a \<in> set (fn_attempts f). wa_session a = Some s \<and> wa_epoch a = e}"
  note facts = select_workers_facts [OF pools_at_ok [OF d]] and rows = reserve_rows [OF ok d]
  have kept: "a \<in> set (queue_at s e f)" if "a \<in> ?A" for a
    using that by (force simp: queue_at_def supersede_def)
  have old: "a \<in> ?A" if "a \<in> set (queue_at s e f)" "wa_session a = Some s" for a
    using queue_at_active [OF that(1)] that(2) by simp
  have queue_keys: "distinct (map row_key (queue_at s e f))"
    using inv by (simp add: queue_at_keys funnel_inv_def)
  have free: "row_key a \<notin> row_key ` set (rows_for h f s e ?sel)" if a: "a \<in> ?A" for a
  proof
    assume "row_key a \<in> row_key ` set (rows_for h f s e ?sel)"
    then have "row_key a \<in> (\<lambda>x. (fst x, c_id (snd x))) ` set ?sel" unfolding set_map [symmetric] rows_for_keys .
    then obtain r v where v: "(r, v) \<in> set ?sel" "row_key a = (r, c_id v)" by (elim imageE) (metis prod.collapse)
    have "v \<in> set (pools_at h st f s e r)" by (rule facts(3) [OF v(1)])
    then have "worker_eligible (h_now h) (queue_at s e f) r v" by (simp add: pools_at_def)
    moreover have "find_attempt (queue_at s e f) r (c_id v) = Some a"
      using kept [OF a] v(2) by (simp add: find_attempt_key [OF queue_keys])
    moreover have "s \<noteq> []" using a inv by (auto simp: funnel_inv_def attempt_ok_def)
    ultimately show False using a by (simp add: worker_eligible_def truthy_def)
  qed
  have ids: "(\<lambda>w. (as_role w, as_claim w)) ` set ws = row_key ` set (rows_for h f s e ?sel)"
    unfolding set_map [symmetric] rows_for_keys reserve_Inr(5) [OF ok] by (simp add: image_image assignment_of_def)
  have split: "{a \<in> set (fn_attempts f'). wa_session a = Some s} = set (rows_for h f s e ?sel) \<union> ?A"
  proof (intro equalityI subsetI)
    fix a assume "a \<in> {a \<in> set (fn_attempts f'). wa_session a = Some s}"
    then show "a \<in> set (rows_for h f s e ?sel) \<union> ?A" unfolding rows using old by blast
  next
    fix a assume "a \<in> set (rows_for h f s e ?sel) \<union> ?A"
    then show "a \<in> {a \<in> set (fn_attempts f'). wa_session a = Some s}"
    proof
      assume "a \<in> set (rows_for h f s e ?sel)"
      then show ?thesis unfolding rows by (auto simp: rows_for_def)
    next
      assume a: "a \<in> ?A"
      then show ?thesis unfolding rows ids using kept [OF a] free [OF a] by simp
    qed
  qed
  have "distinct (fn_attempts f')"
    using reserve_inv [OF ok d inv] by (intro keys_distinct) (simp add: funnel_inv_def)
  then have "active_count s f' = card (set (rows_for h f s e ?sel) \<union> ?A)"
    unfolding active_count_def by (simp only: active_count_card split)
  also have "\<dots> = card (set (rows_for h f s e ?sel)) + card ?A"
    using free by (intro card_Un_disjoint) auto
  also have "card (set (rows_for h f s e ?sel)) = length ws"
    unfolding reserve_Inr(5) [OF ok] by (simp add: rows_for_card [OF facts(1)])
  finally show ?thesis .
qed

text \<open>
  C27. A reservation that is repeated for the same session and epoch keeps the workers of the first
  one active and adds its own to them, so the number of active workers is not bounded by the number
  of workers asked for.
\<close>

theorem retry_adds_workers:
  assumes "reachable_queue d w st f" "h_workspace h = w" "reserve_for_session h st f s e m = Inr (f1, ws)"
    and "(claim_step d)\<^sup>*\<^sup>* st st2" "reserve_for_session h2 st2 f1 s e n = Inr (f2, ws2)"
  shows "active_count s f2 = active_count s f1 + length ws2 \<and> length ws \<le> active_count s f1"
proof -
  have inv: "claim_inv d st" "funnel_inv f" using reachable_queue_inv [OF assms(1)] by (simp_all add: queue_inv_def)
  have d: "distinct (map c_id (s_claims st))" by (rule claim_invD(2) [OF inv(1)])
  have "claim_inv d st2" by (rule ledger.run_inv [OF assms(4) inv(1)])
  then have d2: "distinct (map c_id (s_claims st2))" by (rule claim_invD(2))
  have f1: "funnel_inv f1" by (rule reserve_inv [OF assms(3) d inv(2)])
  have "wa_epoch a = e" if "a \<in> set (fn_attempts f1)" "wa_session a = Some s" for a
    using that queue_at_active [of a s e f] unfolding reserve_rows [OF assms(3) d] by (auto simp: rows_for_def)
  then have "{a \<in> set (fn_attempts f1). wa_session a = Some s \<and> wa_epoch a = e}
      = {a \<in> set (fn_attempts f1). wa_session a = Some s}" by blast
  moreover have "distinct (fn_attempts f1)" using f1 by (intro keys_distinct) (simp add: funnel_inv_def)
  ultimately have "card {a \<in> set (fn_attempts f1). wa_session a = Some s \<and> wa_epoch a = e} = active_count s f1"
    unfolding active_count_def by (simp only: active_count_card)
  then show ?thesis
    using reserved_count [OF assms(5) d2 f1] reserved_count [OF assms(3) d inv(2)] by simp
qed

section \<open>Examples\<close>

text \<open>
  Two leads of high rating; a reservation of one worker, taken again in the same epoch; and a
  reservation made before the second lead was recorded.
\<close>

definition ex_bug :: "string \<Rightarrow> create_input" where
  "ex_bug title = (ex_lead ''security.bug'' title)\<lparr>ni_rating := Some ''high''\<rparr>"

definition ex_bug1 :: "(claim_error, claim_store \<times> string) res" where
  "ex_bug1 = create_lead (ex_host ''t1'' ''a'') (ex_agent ''x'') empty_store (ex_bug ''t'') None"

definition ex_bug2 :: "(claim_error, claim_store \<times> string) res" where
  "ex_bug2 = create_lead (ex_host ''t2'' ''b'') (ex_agent ''x'') (fst (projr ex_bug1)) (ex_bug ''u'') None"

definition ex_ledger1 :: claim_store where
  "ex_ledger1 = fst (projr ex_bug1)"

definition ex_ledger2 :: claim_store where
  "ex_ledger2 = fst (projr ex_bug2)"

definition ex_reserved :: "(funnel_error, funnel \<times> worker_assignment list) res" where
  "ex_reserved = reserve_for_session (ex_host ''t3'' ''c'') ex_ledger2 no_funnel ''s'' 1 1"

definition ex_queue :: funnel where
  "ex_queue = fst (projr ex_reserved)"

definition ex_again :: "(funnel_error, funnel \<times> worker_assignment list) res" where
  "ex_again = reserve_for_session (ex_host ''t4'' ''d'') ex_ledger2 ex_queue ''s'' 1 1"

definition ex_early :: "(funnel_error, funnel \<times> worker_assignment list) res" where
  "ex_early = reserve_for_session (ex_host ''t1'' ''b'') ex_ledger1 no_funnel ''s'' 1 0"

definition ex_late :: "(funnel_error, funnel \<times> worker_assignment list) res" where
  "ex_late = reserve_for_session (ex_host ''t4'' ''d'') ex_ledger2 (fst (projr ex_early)) ''s'' 1 3"

definition ex_worker :: "string \<Rightarrow> worker_assignment" where
  "ex_worker k = \<lparr>as_role = Investigator, as_claim = k, as_revision = 1, as_surface = None\<rparr>"

lemma ex_funnel_ok: "\<not> isl ex_bug1" "\<not> isl ex_bug2" "\<not> isl ex_reserved" "\<not> isl ex_again" "\<not> isl ex_early" "\<not> isl ex_late"
  by code_simp+

lemma ex_funnel_workers:
  "snd (projr ex_reserved) = [ex_worker ''claim_a'']" "snd (projr ex_again) = [ex_worker ''claim_b'']"
  "snd (projr ex_early) = []" "snd (projr ex_late) = [ex_worker ''claim_a'']"
  by code_simp+

lemma ex_ledger_tables:
  "map e_id (s_evidence ex_ledger1) = []" "map c_id (s_claims ex_ledger1) = [''claim_a'']"
  by code_simp+

lemma ex_bug_step:
  assumes "good_host any_date (ex_host now tag) st"
    and "\<not> isl (create_lead (ex_host now tag) ca st (ex_bug title) None)"
  shows "claim_step any_date st (fst (projr (create_lead (ex_host now tag) ca st (ex_bug title) None)))"
proof -
  have ok: "create_with_status (ex_host now tag) ca st (ex_bug title) Hypothesis None
      = Inr (fst (projr (create_lead (ex_host now tag) ca st (ex_bug title) None)),
             snd (projr (create_lead (ex_host now tag) ca st (ex_bug title) None)))"
    using not_isl_Inr [OF assms(2)] by (simp add: create_lead_def)
  show ?thesis
    by (rule step_create [OF assms(1) _ _ ok])
      (simp_all add: surfaces_named_def opt_trimmed_def ex_bug_def ex_lead_def ex_host_def)
qed

lemma ex_bug_steps: "claim_step any_date empty_store ex_ledger1" "claim_step any_date ex_ledger1 ex_ledger2"
proof -
  show "claim_step any_date empty_store ex_ledger1"
    unfolding ex_ledger1_def ex_bug1_def by (rule ex_bug_step [OF ex_hosts(1) ex_funnel_ok(1) [unfolded ex_bug1_def]])
  have "good_host any_date (ex_host ''t2'' ''b'') ex_ledger1"
    by (rule ex_good_host; simp add: ex_ledger_tables trimmed_def js_trim_def trim_start_def trim_end_def is_ws_def)
  then show "claim_step any_date ex_ledger1 ex_ledger2"
    unfolding ex_ledger2_def ex_bug2_def ex_ledger1_def
    by (rule ex_bug_step [OF _ ex_funnel_ok(2) [unfolded ex_bug2_def]])
qed

lemma ex_reserve:
  "reserve_for_session (ex_host ''t3'' ''c'') ex_ledger2 no_funnel ''s'' 1 1 = Inr (ex_queue, [ex_worker ''claim_a''])"
  "reserve_for_session (ex_host ''t4'' ''d'') ex_ledger2 ex_queue ''s'' 1 1 = Inr (fst (projr ex_again), [ex_worker ''claim_b''])"
  "reserve_for_session (ex_host ''t1'' ''b'') ex_ledger1 no_funnel ''s'' 1 0 = Inr (fst (projr ex_early), [])"
  "reserve_for_session (ex_host ''t4'' ''d'') ex_ledger2 (fst (projr ex_early)) ''s'' 1 3
     = Inr (fst (projr ex_late), [ex_worker ''claim_a''])"
  using not_isl_Inr [OF ex_funnel_ok(3)] not_isl_Inr [OF ex_funnel_ok(4)] not_isl_Inr [OF ex_funnel_ok(5)]
    not_isl_Inr [OF ex_funnel_ok(6)] ex_funnel_workers
  unfolding ex_reserved_def ex_queue_def ex_again_def ex_early_def ex_late_def by (metis prod.collapse)+

lemma ex_track_reachable:
  "reachable_queue any_date ''w'' ex_ledger1 no_funnel" "reachable_queue any_date ''w'' ex_ledger2 no_funnel"
  "reachable_queue any_date ''w'' ex_ledger2 ex_queue"
proof -
  show one: "reachable_queue any_date ''w'' ex_ledger1 no_funnel"
    unfolding reachable_queue_def by (rule r_into_rtranclp [where r = "queue_step any_date ''w''", OF run_ledger [OF ex_bug_steps(1)]])
  show two: "reachable_queue any_date ''w'' ex_ledger2 no_funnel"
    using one run_ledger [OF ex_bug_steps(2)] unfolding reachable_queue_def by (rule rtranclp.rtrancl_into_rtrancl)
  show "reachable_queue any_date ''w'' ex_ledger2 ex_queue"
    using two run_reserve [OF _ ex_reserve(1)] unfolding reachable_queue_def
    by (rule rtranclp.rtrancl_into_rtrancl) (simp add: ex_host_def)
qed

theorem queue_invariant_witness: "funnel_inv ex_queue \<and> open_funnel ex_queue = ex_queue"
  by (rule queue_invariant [OF ex_track_reachable(3)])

theorem reservation_contract_witness:
  "find_attempt (fn_attempts ex_queue) Investigator ''claim_a'' \<noteq> None \<and> length [ex_worker ''claim_a''] \<le> nat (max 0 (min 3 1))"
  using reservation_contract [OF ex_track_reachable(2) ex_reserve(1)] by (simp add: ex_worker_def) blast

theorem lead_boundary_witness:
  "\<exists>v\<in>set (claim_list (ex_host ''t4'' ''d'') ex_ledger2). c_id v = ''claim_a''
    \<and> (v_projection v = Proj_finding \<or> ''claim_a'' \<in> c_id ` set (s_claims ex_ledger1))"
proof -
  have run: "(queue_step any_date ''w'')\<^sup>*\<^sup>* (ex_ledger1, fst (projr ex_early)) (ex_ledger2, fst (projr ex_early))"
    by (rule r_into_rtranclp [where r = "queue_step any_date ''w''", OF run_ledger [OF ex_bug_steps(2)]])
  have w: "h_workspace (ex_host now tag) = ''w''" for now tag by (simp add: ex_host_def)
  show ?thesis
    using lead_boundary [OF ex_track_reachable(1) w ex_reserve(3) run w ex_reserve(4), of "ex_worker ''claim_a''"]
    by (simp add: ex_worker_def)
qed

theorem cool_down_witness:
  "worker_eligible ''1970-01-01T00:30:00.000Z'' (fn_attempts (finish_session (ex_host ''t5'' ''e'') ex_ledger2 0 ''s'' ex_queue))
     Investigator (hd (s_claims ex_ledger2))
   \<and> \<not> worker_eligible ''1970-01-01T00:29:59.999Z'' (fn_attempts (finish_session (ex_host ''t5'' ''e'') ex_ledger2 0 ''s'' ex_queue))
     Investigator (hd (s_claims ex_ledger2))"
proof -
  obtain a where a: "find_attempt (fn_attempts ex_queue) Investigator ''claim_a'' = Some a" "wa_session a = Some ''s''"
      "wa_revision a = 1" "wa_attempts a = 1"
  proof
    show "find_attempt (fn_attempts ex_queue) Investigator ''claim_a'' = Some \<lparr>wa_role = Investigator, wa_claim = ''claim_a'',
        wa_revision = 1, wa_attempts = 1, wa_next = None, wa_session = Some ''s'', wa_epoch = 1, wa_runtime = 1,
        wa_assignedAt = ''t3''\<rparr>" by code_simp
  qed simp_all
  have row: "find_row (ex_host ''t5'' ''e'') ex_ledger2 ''claim_a'' = Some (hd (s_claims ex_ledger2))" by code_simp
  have rev: "c_revision (hd (s_claims ex_ledger2)) = 1" "c_id (hd (s_claims ex_ledger2)) = ''claim_a''" by code_simp+
  have time: "cmp_units (iso_print (0 + retry_delay Investigator)) ''1970-01-01T00:30:00.000Z'' \<le> 0"
    "\<not> cmp_units (iso_print (0 + retry_delay Investigator)) ''1970-01-01T00:29:59.999Z'' \<le> 0" by code_simp+
  show ?thesis
    using cool_down [OF ex_track_reachable(3) a(1,2) row rev(2), of 0 "''1970-01-01T00:30:00.000Z''"]
      cool_down [OF ex_track_reachable(3) a(1,2) row rev(2), of 0 "''1970-01-01T00:29:59.999Z''"] a(3) rev(1) time
    by simp
qed

definition ex_pools :: "worker_role \<Rightarrow> claim_view list" where
  "ex_pools r = (if r = Reporter then claim_list (ex_host ''t5'' ''e'') ex_ledger2 else [])"

theorem rotation_fair_witness:
  "(Reporter, hd (ex_pools Reporter)) \<in> set (select_workers 5 2 ex_pools)
   \<or> (Reporter, hd (ex_pools Reporter)) \<in> set (select_workers 6 2 ex_pools)
   \<or> (Reporter, hd (ex_pools Reporter)) \<in> set (select_workers 7 2 ex_pools)"
proof -
  obtain e where e: "e \<in> {5, 5 + 1, 5 + 2}" and
      s: "\<forall>m pools. 2 \<le> m \<longrightarrow> pools Reporter \<noteq> [] \<longrightarrow> (Reporter, hd (pools Reporter)) \<in> set (select_workers e m pools)"
    using rotation_fair [of Reporter 5] by blast
  have "ex_pools Reporter \<noteq> []" by code_simp
  with s have "(Reporter, hd (ex_pools Reporter)) \<in> set (select_workers e 2 ex_pools)" by simp
  with e show ?thesis by auto
qed

theorem retry_adds_workers_witness: "active_count ''s'' (fst (projr ex_again)) = 2"
proof -
  have w: "h_workspace (ex_host ''t3'' ''c'') = ''w''" by (simp add: ex_host_def)
  have "active_count ''s'' ex_queue = 1" by code_simp
  then show ?thesis
    using retry_adds_workers [OF ex_track_reachable(2) w ex_reserve(1) rtranclp.rtrancl_refl ex_reserve(2)] by simp
qed

end
