(* ===== verification/Control_Message.thy ===== *)
theory Control_Message
  imports Json_Value
begin

text \<open>
  The control messages of a running session
  (\<open>packages/app-server-runtime/src/control-stream.ts\<close>, the types and the parser): one JSON
  object per line.  \<open>JSON.parse\<close> is a parameter of the stream, so the parser here starts from
  the parsed value; texts of errors are constructors.
\<close>

section \<open>Messages\<close>

datatype reasoning_effort = Effort_off | Effort_minimal | Effort_low | Effort_medium | Effort_high
  | Effort_xhigh | Effort_max

record model_selection =
  ms_provider :: string
  ms_model :: string
  ms_effort :: reasoning_effort
  ms_daybreak :: "bool option"

datatype safety_mode = Manual_approval | Auto_review | Danger

datatype approval_decision = Approved | Denied

record runbook_request =
  rr_runbook :: string
  rr_cell :: "string option"
  rr_start :: "string option"
  rr_end :: "string option"

datatype control_body =
    Msg_pause | Msg_resume | Msg_stop
  | Msg_configure model_selection
  | Msg_steer string "model_selection option"
  | Msg_remove string
  | Msg_safety safety_mode
  | Msg_runbook runbook_request
  | Msg_shell string approval_decision
  | Msg_tool string approval_decision

text \<open>A message with its request id.\<close>

type_synonym control_message = "control_body \<times> string option"

datatype text_label = Runbook_id | Cell_id | Start_cell_id | End_cell_id

datatype control_error =
    Not_json | Bad_schema | Bad_request_id | Empty_steering | No_target | No_selection | No_provider | Bad_effort
  | Bad_daybreak | Daybreak_provider | Bad_mode | Bad_text text_label | Cell_and_range | No_approval_id | Bad_decision
  | Unknown_type | Reused_id | Not_active | No_runbooks | No_waiter | Bad_approval_id | Waiter_exists

section \<open>Parsing\<close>

definition parse_request_id :: "json option \<Rightarrow> (control_error, string option) res" where
  "parse_request_id v = (case v of
     None \<Rightarrow> Inr None
   | Some (JStr s) \<Rightarrow> ensure (js_trim s \<noteq> [] \<and> length (js_trim s) \<le> 200) Bad_request_id (Inr (Some (js_trim s)))
   | _ \<Rightarrow> Inl Bad_request_id)"

definition parse_required_text :: "text_label \<Rightarrow> json option \<Rightarrow> (control_error, string) res" where
  "parse_required_text l v = (case v of
     Some (JStr s) \<Rightarrow> ensure (js_trim s \<noteq> [] \<and> length (js_trim s) \<le> 200) (Bad_text l) (Inr (js_trim s))
   | _ \<Rightarrow> Inl (Bad_text l))"

text \<open>A text that may be absent.\<close>

definition parse_optional_text :: "text_label \<Rightarrow> json option \<Rightarrow> (control_error, string option) res" where
  "parse_optional_text l v = (if v = None then Inr None
     else rbind (parse_required_text l v) (\<lambda>s. Inr (Some s)))"

definition trimmed_text :: "json option \<Rightarrow> string" where
  "trimmed_text v = (case v of Some (JStr s) \<Rightarrow> js_trim s | _ \<Rightarrow> [])"

definition effort_of :: "json option \<Rightarrow> reasoning_effort option" where
  "effort_of v = (case v of
     Some (JStr s) \<Rightarrow>
       if s = ''off'' then Some Effort_off else if s = ''minimal'' then Some Effort_minimal
       else if s = ''low'' then Some Effort_low else if s = ''medium'' then Some Effort_medium
       else if s = ''high'' then Some Effort_high else if s = ''xhigh'' then Some Effort_xhigh
       else if s = ''max'' then Some Effort_max else None
   | _ \<Rightarrow> None)"

definition daybreak_provider :: string where
  "daybreak_provider = ''openai-codex''"

definition parse_model_selection :: "json option \<Rightarrow> (control_error, model_selection) res" where
  "parse_model_selection v = (case v of
     Some (JObj kvs) \<Rightarrow>
       (let j = JObj kvs; p = trimmed_text (jget j ''provider''); m = trimmed_text (jget j ''model'');
            d = jget j ''daybreakBlue'' in
        ensure (p \<noteq> [] \<and> m \<noteq> []) No_provider (
        rbind (need (effort_of (jget j ''reasoningEffort'')) Bad_effort) (\<lambda>e.
        ensure (d = None \<or> as_bool d \<noteq> None) Bad_daybreak (
        ensure (d = None \<or> p = daybreak_provider) Daybreak_provider (
          Inr \<lparr>ms_provider = p, ms_model = m, ms_effort = e, ms_daybreak = as_bool d\<rparr>)))))
   | _ \<Rightarrow> Inl No_selection)"

definition parse_safety_mode :: "json option \<Rightarrow> (control_error, safety_mode) res" where
  "parse_safety_mode v =
     (if v = Some (JStr ''manual_approval'') then Inr Manual_approval
      else if v = Some (JStr ''auto_review'') then Inr Auto_review
      else if v = Some (JStr ''danger'') then Inr Danger
      else Inl Bad_mode)"

definition parse_decision :: "json option \<Rightarrow> (control_error, approval_decision) res" where
  "parse_decision v =
     (if v = Some (JStr ''approved'') then Inr Approved
      else if v = Some (JStr ''denied'') then Inr Denied
      else Inl Bad_decision)"

definition parse_steer :: "json \<Rightarrow> (control_error, control_body) res" where
  "parse_steer j =
     (let s = trimmed_text (jget j ''instruction'') in
      ensure (s \<noteq> []) Empty_steering (
      rbind (if jget j ''modelSelection'' = None then Inr None
             else rbind (parse_model_selection (jget j ''modelSelection'')) (\<lambda>m. Inr (Some m))) (\<lambda>m.
        Inr (Msg_steer s m))))"

definition parse_runbook_execute :: "json \<Rightarrow> (control_error, control_body) res" where
  "parse_runbook_execute j =
     rbind (parse_required_text Runbook_id (jget j ''runbookId'')) (\<lambda>b.
     rbind (parse_optional_text Cell_id (jget j ''cellId'')) (\<lambda>c.
     rbind (parse_optional_text Start_cell_id (jget j ''startCellId'')) (\<lambda>s.
     rbind (parse_optional_text End_cell_id (jget j ''endCellId'')) (\<lambda>e.
     ensure (\<not> (c \<noteq> None \<and> (s \<noteq> None \<or> e \<noteq> None))) Cell_and_range (
       Inr (Msg_runbook \<lparr>rr_runbook = b, rr_cell = c, rr_start = s, rr_end = e\<rparr>))))))"

text \<open>The body of an approval response.\<close>

definition parse_approval :: "(string \<Rightarrow> approval_decision \<Rightarrow> control_body) \<Rightarrow> json \<Rightarrow> (control_error, control_body) res" where
  "parse_approval f j =
     rbind (parse_request_id (jget j ''approvalRequestId'')) (\<lambda>k.
     rbind (need k No_approval_id) (\<lambda>k.
     rbind (parse_decision (jget j ''decision'')) (\<lambda>d. Inr (f k d))))"

definition parse_body :: "json \<Rightarrow> (control_error, control_body) res" where
  "parse_body j =
     (let t = jget j ''type'' in
      if t = Some (JStr ''pause'') then Inr Msg_pause
      else if t = Some (JStr ''resume'') then Inr Msg_resume
      else if t = Some (JStr ''stop'') then Inr Msg_stop
      else if t = Some (JStr ''steer'') then parse_steer j
      else if t = Some (JStr ''remove_steering'') then
        rbind (parse_request_id (jget j ''targetRequestId'')) (\<lambda>k.
        rbind (need k No_target) (\<lambda>k. Inr (Msg_remove k)))
      else if t = Some (JStr ''configure'') then
        rbind (parse_model_selection (jget j ''modelSelection'')) (\<lambda>m. Inr (Msg_configure m))
      else if t = Some (JStr ''configure_shell_safety'') then
        rbind (parse_safety_mode (jget j ''shellSafetyMode'')) (\<lambda>m. Inr (Msg_safety m))
      else if t = Some (JStr ''runbook_execute'') then parse_runbook_execute j
      else if t = Some (JStr ''resolve_shell_approval'') then parse_approval Msg_shell j
      else if t = Some (JStr ''resolve_tool_approval'') then parse_approval Msg_tool j
      else Inl Unknown_type)"

definition is_steer :: "control_body \<Rightarrow> bool" where
  "is_steer b \<longleftrightarrow> (case b of Msg_steer _ _ \<Rightarrow> True | _ \<Rightarrow> False)"

text \<open>A steering message without a request id gets a random one.\<close>

definition parse_control_message :: "string \<Rightarrow> json option \<Rightarrow> (control_error, control_message) res" where
  "parse_control_message uuid v = (case v of
     None \<Rightarrow> Inl Not_json
   | Some j \<Rightarrow>
       ensure (is_record j \<and> jget j ''schemaVersion'' = Some (JInt 1)) Bad_schema (
       rbind (parse_request_id (jget j ''requestId'')) (\<lambda>r.
       rbind (parse_body j) (\<lambda>b.
         Inr (b, if is_steer b \<and> r = None then Some uuid else r)))))"

text \<open>The request id that an error event names.\<close>

definition request_id_from_line :: "json option \<Rightarrow> string option" where
  "request_id_from_line v = (case v of
     None \<Rightarrow> None
   | Some j \<Rightarrow> (case as_string (jget j ''requestId'') of
       None \<Rightarrow> None
     | Some s \<Rightarrow> if js_trim s \<noteq> [] \<and> length (js_trim s) \<le> 200 then Some (js_trim s) else None))"

section \<open>What a parsed message is\<close>

definition id_ok :: "string \<Rightarrow> bool" where
  "id_ok s \<longleftrightarrow> s \<noteq> [] \<and> js_trim s = s \<and> length s \<le> 200"

definition selection_ok :: "model_selection \<Rightarrow> bool" where
  "selection_ok m \<longleftrightarrow> ms_provider m \<noteq> [] \<and> js_trim (ms_provider m) = ms_provider m
     \<and> ms_model m \<noteq> [] \<and> js_trim (ms_model m) = ms_model m
     \<and> (ms_daybreak m \<noteq> None \<longrightarrow> ms_provider m = daybreak_provider)"

fun body_ok :: "control_body \<Rightarrow> bool" where
  "body_ok (Msg_configure m) = selection_ok m"
| "body_ok (Msg_steer s m) = (s \<noteq> [] \<and> js_trim s = s \<and> pred_option selection_ok m)"
| "body_ok (Msg_remove k) = id_ok k"
| "body_ok (Msg_runbook r) = (id_ok (rr_runbook r) \<and> pred_option id_ok (rr_cell r) \<and> pred_option id_ok (rr_start r)
     \<and> pred_option id_ok (rr_end r) \<and> (rr_cell r = None \<or> rr_start r = None \<and> rr_end r = None))"
| "body_ok (Msg_shell k d) = id_ok k"
| "body_ok (Msg_tool k d) = id_ok k"
| "body_ok _ = True"

lemma parse_request_id_ok: "parse_request_id v = Inr k \<Longrightarrow> pred_option id_ok k"
  by (auto simp: parse_request_id_def ensure_Inr_iff id_ok_def js_trim_idem split: option.splits json.splits)

lemma parse_required_text_ok: "parse_required_text l v = Inr s \<Longrightarrow> id_ok s"
  by (auto simp: parse_required_text_def ensure_Inr_iff id_ok_def js_trim_idem split: option.splits json.splits)

lemma parse_optional_text_ok: "parse_optional_text l v = Inr s \<Longrightarrow> pred_option id_ok s"
  by (auto simp: parse_optional_text_def rbind_Inr_iff dest: parse_required_text_ok split: if_splits)

lemma trimmed_text_trim: "js_trim (trimmed_text v) = trimmed_text v"
  by (auto simp: trimmed_text_def js_trim_idem split: option.splits json.splits)

lemma daybreak_provider_trim: "js_trim daybreak_provider = daybreak_provider"
  by code_simp

lemma parse_model_selection_ok: "parse_model_selection v = Inr m \<Longrightarrow> selection_ok m"
  by (auto simp: parse_model_selection_def Let_def guard_simps selection_ok_def trimmed_text_trim
      daybreak_provider_trim split: option.splits json.splits)

lemma parse_steer_ok: "parse_steer j = Inr b \<Longrightarrow> body_ok b"
  by (auto simp: parse_steer_def Let_def guard_simps trimmed_text_trim dest: parse_model_selection_ok split: if_splits)

lemma parse_runbook_ok: "parse_runbook_execute j = Inr b \<Longrightarrow> body_ok b"
  by (auto simp: parse_runbook_execute_def guard_simps dest: parse_required_text_ok parse_optional_text_ok)

lemma parse_approval_ok: "parse_approval f j = Inr b \<Longrightarrow> (\<And>k d. id_ok k \<Longrightarrow> body_ok (f k d)) \<Longrightarrow> body_ok b"
  by (auto simp: parse_approval_def guard_simps dest!: parse_request_id_ok)

lemma parse_body_ok: "parse_body j = Inr b \<Longrightarrow> body_ok b"
  by (auto simp: parse_body_def Let_def guard_simps dest: parse_steer_ok parse_runbook_ok parse_approval_ok
      parse_model_selection_ok parse_request_id_ok split: if_splits)

end
