(* ===== verification/Control_Stream.thy ===== *)
theory Control_Stream
  imports Control_Message
begin

text \<open>
  The control stream of a running session (\<open>AppServerControlStream\<close> in
  \<open>packages/app-server-runtime/src/control-stream.ts\<close>): lines cut from a byte stream change the
  state of the session and answer the callers that wait for steering or for an approval.

  A call that awaits is a numbered caller.  It is ready (its promise is resolved and its
  continuation runs later), blocked until the session resumes, waiting for steering, or waiting for
  an approval.  What the stream does to the outside, its events and the answers of its callers, is the
  list of outputs, in order.
\<close>

section \<open>State\<close>

datatype event_body =
    Steer_accepted string
  | Removal_accepted string
  | Other_accepted string

datatype control_event =
    Accepted event_body "string option" bool
  | Invalid control_error "string option"

datatype denial = Stream_closed | Stream_ended | Run_stopped | Stream_unavailable | Caller_aborted | Researcher

datatype control_output =
    Emit control_event
  | Steered "nat list" "string list"
  | Shell_answer nat approval_decision denial
  | Tool_answer nat approval_decision denial
  | Call_rejected nat control_error
  | Runbook_started runbook_request

text \<open>A caller of \<open>takeSteeringInstructions\<close>, or of \<open>waitForSteeringInstructions\<close> with its abort signal.\<close>

datatype caller_kind = Take | Wait "nat option"

record control =
  cs_buffer :: string
  cs_paused :: bool
  cs_steering :: "string list"
  cs_active :: "(string \<times> string) list"
  cs_processed :: "(string \<times> control_message \<times> event_body) list"
  cs_model :: "model_selection option"
  cs_safety :: "safety_mode option"
  cs_blocked :: "(nat \<times> caller_kind) list"
  cs_ready :: "(nat \<times> caller_kind) list"
  cs_waiting :: "(nat \<times> nat option) list"
  cs_shell :: "(string \<times> nat \<times> nat option) list"
  cs_tool :: "(string \<times> nat \<times> nat option) list"
  cs_stopped :: bool
  cs_handler :: bool
  cs_started :: bool
  cs_ended :: bool
  cs_aborted :: "nat list"
  cs_calls :: nat
  cs_uuids :: nat
  cs_out :: "control_output list"

text \<open>\<open>JSON.parse\<close> (\<open>None\<close> when it throws) and \<open>randomUUID\<close>.\<close>

record control_env =
  ce_parse :: "string \<Rightarrow> json option"
  ce_uuid :: "nat \<Rightarrow> string"

definition new_control :: "(string \<times> string) list \<Rightarrow> control" where
  "new_control initial = \<lparr>cs_buffer = [], cs_paused = False, cs_steering = [], cs_active = js_map_of initial,
     cs_processed = [], cs_model = None, cs_safety = None, cs_blocked = [], cs_ready = [], cs_waiting = [],
     cs_shell = [], cs_tool = [], cs_stopped = False, cs_handler = False, cs_started = False, cs_ended = False,
     cs_aborted = [], cs_calls = 0, cs_uuids = 0, cs_out = []\<rparr>"

definition put :: "control_output list \<Rightarrow> control \<Rightarrow> control" where
  "put xs s = s\<lparr>cs_out := cs_out s @ xs\<rparr>"

definition active_instructions :: "control \<Rightarrow> string list" where
  "active_instructions s = map snd (cs_active s)"

section \<open>Answers\<close>

definition resolve_resume :: "control \<Rightarrow> control" where
  "resolve_resume s = s\<lparr>cs_ready := cs_ready s @ cs_blocked s, cs_blocked := []\<rparr>"

definition resolve_steering :: "string list \<Rightarrow> control \<Rightarrow> control" where
  "resolve_steering xs s =
     (if cs_paused s \<and> xs \<noteq> [] \<or> cs_waiting s = [] then s
      else put [Steered (map fst (cs_waiting s)) xs] (s\<lparr>cs_waiting := []\<rparr>))"

text \<open>\<open>resolveSteeringWaiters(steeringInstructions.splice(0))\<close>\<close>

definition deliver_steering :: "control \<Rightarrow> control" where
  "deliver_steering s = resolve_steering (cs_steering s) (s\<lparr>cs_steering := []\<rparr>)"

definition deny_shell :: "denial \<Rightarrow> control \<Rightarrow> control" where
  "deny_shell d s = put (map (\<lambda>(k, n, g). Shell_answer n Denied d) (cs_shell s)) (s\<lparr>cs_shell := []\<rparr>)"

definition deny_tool :: "denial \<Rightarrow> control \<Rightarrow> control" where
  "deny_tool d s = put (map (\<lambda>(k, n, g). Tool_answer n Denied d) (cs_tool s)) (s\<lparr>cs_tool := []\<rparr>)"

definition remove_key :: "'k \<Rightarrow> ('k \<times> 'v) list \<Rightarrow> ('k \<times> 'v) list" where
  "remove_key k m = filter (\<lambda>x. fst x \<noteq> k) m"

definition answer_shell :: "string \<Rightarrow> approval_decision \<Rightarrow> control \<Rightarrow> control" where
  "answer_shell k d s = (case map_of (cs_shell s) k of None \<Rightarrow> s
     | Some (n, g) \<Rightarrow> put [Shell_answer n d Researcher] (s\<lparr>cs_shell := remove_key k (cs_shell s)\<rparr>))"

definition answer_tool :: "string \<Rightarrow> approval_decision \<Rightarrow> control \<Rightarrow> control" where
  "answer_tool k d s = (case map_of (cs_tool s) k of None \<Rightarrow> s
     | Some (n, g) \<Rightarrow> put [Tool_answer n d Researcher] (s\<lparr>cs_tool := remove_key k (cs_tool s)\<rparr>))"

section \<open>Lines\<close>

definition stop_run :: "control \<Rightarrow> control" where
  "stop_run s = (deny_tool Run_stopped (deny_shell Run_stopped (resolve_steering []
     (resolve_resume (s\<lparr>cs_paused := False\<rparr>)))))\<lparr>cs_stopped := True\<rparr>"

definition resume_run :: "control \<Rightarrow> control" where
  "resume_run s =
     (let s' = resolve_resume (s\<lparr>cs_paused := False\<rparr>) in
      if cs_waiting s' \<noteq> [] \<and> cs_steering s' \<noteq> [] then deliver_steering s' else s')"

definition accept_steering :: "string \<Rightarrow> model_selection option \<Rightarrow> string option \<Rightarrow> control \<Rightarrow> control" where
  "accept_steering x m r s =
     (let s' = s\<lparr>cs_model := (if m = None then cs_model s else m), cs_steering := cs_steering s @ [x],
          cs_active := (case r of None \<Rightarrow> cs_active s | Some k \<Rightarrow> AList.update k x (cs_active s))\<rparr> in
      if \<not> cs_paused s' \<and> cs_waiting s' \<noteq> [] then deliver_steering s' else s')"

definition remove_steering :: "string \<Rightarrow> control \<Rightarrow> (control_error, control) res" where
  "remove_steering k s = (case map_of (cs_active s) k of
     None \<Rightarrow> Inl Not_active
   | Some x \<Rightarrow> ensure (x \<noteq> []) Not_active (
       Inr (s\<lparr>cs_active := remove_key k (cs_active s), cs_steering := remove1 x (cs_steering s)\<rparr>)))"

fun apply_body :: "control_body \<Rightarrow> string option \<Rightarrow> control \<Rightarrow> (control_error, control) res" where
  "apply_body Msg_pause r s = Inr (s\<lparr>cs_paused := True\<rparr>)"
| "apply_body Msg_resume r s = Inr (resume_run s)"
| "apply_body Msg_stop r s = Inr (stop_run s)"
| "apply_body (Msg_configure m) r s = Inr (s\<lparr>cs_model := Some m\<rparr>)"
| "apply_body (Msg_steer x m) r s = Inr (accept_steering x m r s)"
| "apply_body (Msg_remove k) r s = remove_steering k s"
| "apply_body (Msg_safety m) r s = Inr (s\<lparr>cs_safety := Some m\<rparr>)"
| "apply_body (Msg_runbook q) r s = ensure (cs_handler s) No_runbooks (Inr (put [Runbook_started q] s))"
| "apply_body (Msg_shell k d) r s = ensure (map_of (cs_shell s) k \<noteq> None) No_waiter (Inr (answer_shell k d s))"
| "apply_body (Msg_tool k d) r s = ensure (map_of (cs_tool s) k \<noteq> None) No_waiter (Inr (answer_tool k d s))"

fun event_of :: "control_body \<Rightarrow> event_body" where
  "event_of (Msg_steer x m) = Steer_accepted x"
| "event_of (Msg_remove k) = Removal_accepted k"
| "event_of Msg_pause = Other_accepted ''pause''"
| "event_of Msg_resume = Other_accepted ''resume''"
| "event_of Msg_stop = Other_accepted ''stop''"
| "event_of (Msg_configure m) = Other_accepted ''configure''"
| "event_of (Msg_safety m) = Other_accepted ''configure_shell_safety''"
| "event_of (Msg_runbook q) = Other_accepted ''runbook_execute''"
| "event_of (Msg_shell k d) = Other_accepted ''resolve_shell_approval''"
| "event_of (Msg_tool k d) = Other_accepted ''resolve_tool_approval''"

definition processed_limit :: nat where
  "processed_limit = 256"

text \<open>The map keeps the order of insertion; the oldest entry makes room.\<close>

definition remember :: "control_message \<Rightarrow> control \<Rightarrow> control" where
  "remember msg s = (case snd msg of None \<Rightarrow> s
     | Some k \<Rightarrow> (let m = AList.update k (msg, event_of (fst msg)) (cs_processed s) in
         s\<lparr>cs_processed := (if length m > processed_limit then tl m else m)\<rparr>))"

text \<open>
  A message that was processed before.  The code compares the \<open>JSON.stringify\<close> texts of the parsed
  messages; they agree exactly when the messages do.
\<close>

definition replay_of :: "control_message \<Rightarrow> control \<Rightarrow> (control_message \<times> event_body) option" where
  "replay_of msg s = Option.bind (snd msg) (map_of (cs_processed s))"

definition handle_message :: "control_message \<Rightarrow> control \<Rightarrow> (control_error, control) res" where
  "handle_message msg s = (case replay_of msg s of
     Some (old, ev) \<Rightarrow> ensure (old = msg) Reused_id (Inr (put [Emit (Accepted ev (snd msg) True)] s))
   | None \<Rightarrow> rbind (apply_body (fst msg) (snd msg) s) (\<lambda>s'.
       Inr (put [Emit (Accepted (event_of (fst msg)) (snd msg) False)] (remember msg s'))))"

definition handle_line :: "control_env \<Rightarrow> string \<Rightarrow> control \<Rightarrow> control" where
  "handle_line env l s =
     (if js_trim l = [] then s
      else let v = ce_parse env l; s1 = s\<lparr>cs_uuids := Suc (cs_uuids s)\<rparr> in
        case rbind (parse_control_message (ce_uuid env (cs_uuids s)) v) (\<lambda>msg. handle_message msg s1) of
          Inr s' \<Rightarrow> s'
        | Inl e \<Rightarrow> put [Emit (Invalid e (request_id_from_line v))] s1)"

definition line_feed :: char where
  "line_feed = CHR 0x0A"

definition chomp :: "string \<Rightarrow> string" where
  "chomp l = (if l \<noteq> [] \<and> last l = CHR 0x0D then butlast l else l)"

text \<open>The loop of \<open>handleData\<close>: complete lines are handled, the rest stays in the buffer.\<close>

function cut_lines :: "control_env \<Rightarrow> control \<Rightarrow> control" where
  "cut_lines env s =
     (if line_feed \<in> set (cs_buffer s)
      then let l = takeWhile (\<lambda>c. c \<noteq> line_feed) (cs_buffer s);
               s' = s\<lparr>cs_buffer := drop (Suc (length l)) (cs_buffer s)\<rparr>
           in cut_lines env (handle_line env (chomp l) s')
      else s)"
  by pat_completeness auto

lemma put_simps [simp]:
  "cs_buffer (put xs s) = cs_buffer s" "cs_paused (put xs s) = cs_paused s" "cs_steering (put xs s) = cs_steering s"
  "cs_active (put xs s) = cs_active s" "cs_processed (put xs s) = cs_processed s" "cs_blocked (put xs s) = cs_blocked s"
  "cs_ready (put xs s) = cs_ready s" "cs_waiting (put xs s) = cs_waiting s" "cs_shell (put xs s) = cs_shell s"
  "cs_tool (put xs s) = cs_tool s" "cs_stopped (put xs s) = cs_stopped s" "cs_handler (put xs s) = cs_handler s"
  "cs_started (put xs s) = cs_started s" "cs_ended (put xs s) = cs_ended s" "cs_aborted (put xs s) = cs_aborted s"
  "cs_calls (put xs s) = cs_calls s" "cs_out (put xs s) = cs_out s @ xs" "cs_uuids (put xs s) = cs_uuids s"
  "cs_model (put xs s) = cs_model s" "cs_safety (put xs s) = cs_safety s"
  by (simp_all add: put_def)

lemma buffer_helpers [simp]:
  "cs_buffer (resolve_resume s) = cs_buffer s" "cs_buffer (resolve_steering xs s) = cs_buffer s"
  "cs_buffer (deliver_steering s) = cs_buffer s" "cs_buffer (deny_shell d s) = cs_buffer s"
  "cs_buffer (deny_tool d s) = cs_buffer s" "cs_buffer (answer_shell k a s) = cs_buffer s"
  "cs_buffer (answer_tool k a s) = cs_buffer s" "cs_buffer (stop_run s) = cs_buffer s"
  "cs_buffer (resume_run s) = cs_buffer s" "cs_buffer (accept_steering x m r s) = cs_buffer s"
  "cs_buffer (remember msg s) = cs_buffer s"
  by (auto simp: resolve_resume_def resolve_steering_def deliver_steering_def deny_shell_def deny_tool_def
      answer_shell_def answer_tool_def stop_run_def resume_run_def accept_steering_def remember_def Let_def
      split: option.splits)

lemma buffer_apply_body: "apply_body b r s = Inr s' \<Longrightarrow> cs_buffer s' = cs_buffer s"
  by (cases b) (auto simp: guard_simps remove_steering_def split: option.splits)

lemma buffer_handle_message: "handle_message msg s = Inr s' \<Longrightarrow> cs_buffer s' = cs_buffer s"
  by (auto simp: handle_message_def guard_simps dest: buffer_apply_body split: option.splits)

lemma buffer_handle_line [simp]: "cs_buffer (handle_line env l s) = cs_buffer s"
  by (auto simp: handle_line_def Let_def rbind_Inr_iff dest: buffer_handle_message split: sum.splits)

termination cut_lines
proof (relation "measure (\<lambda>(env, s). length (cs_buffer s))")
  fix env l and s s' :: control
  assume nl: "line_feed \<in> set (cs_buffer s)" and l: "l = takeWhile (\<lambda>c. c \<noteq> line_feed) (cs_buffer s)"
    and s': "s' = s\<lparr>cs_buffer := drop (Suc (length l)) (cs_buffer s)\<rparr>"
  have "cs_buffer s \<noteq> []" using nl by auto
  then show "((env, handle_line env (chomp l) s'), env, s) \<in> measure (\<lambda>(env, s). length (cs_buffer s))"
    by (simp add: s')
qed simp

declare cut_lines.simps [simp del]

section \<open>Input\<close>

definition handle_data :: "control_env \<Rightarrow> string \<Rightarrow> control \<Rightarrow> control" where
  "handle_data env chunk s = cut_lines env (s\<lparr>cs_buffer := cs_buffer s @ chunk\<rparr>)"

definition handle_end :: "control_env \<Rightarrow> control \<Rightarrow> control" where
  "handle_end env s =
     (let l = chomp (cs_buffer s);
          s1 = s\<lparr>cs_ended := True, cs_buffer := []\<rparr>;
          s2 = (if js_trim l \<noteq> [] then handle_line env l s1 else s1)
      in deny_tool Stream_ended (deny_shell Stream_ended (deliver_steering
           (resolve_resume (s2\<lparr>cs_paused := False\<rparr>)))))"

definition start_stream :: "control \<Rightarrow> control" where
  "start_stream s = (if cs_started s then s else s\<lparr>cs_started := True, cs_ended := False\<rparr>)"

definition close_stream :: "control \<Rightarrow> control" where
  "close_stream s = deny_tool Stream_closed (deny_shell Stream_closed (resolve_steering []
     (resolve_resume (s\<lparr>cs_started := False, cs_ended := True, cs_buffer := [], cs_paused := False\<rparr>))))"

section \<open>Callers\<close>

text \<open>The abort signal of a caller has fired.\<close>

definition aborted :: "nat option \<Rightarrow> control \<Rightarrow> bool" where
  "aborted g s = (case g of None \<Rightarrow> False | Some n \<Rightarrow> n \<in> set (cs_aborted s))"

text \<open>A caller that awaits \<open>waitUntilResumed\<close>.\<close>

definition call_steering :: "caller_kind \<Rightarrow> control \<Rightarrow> control" where
  "call_steering k s =
     (let n = cs_calls s; s' = s\<lparr>cs_calls := Suc n\<rparr> in
      if cs_paused s then s'\<lparr>cs_blocked := cs_blocked s @ [(n, k)]\<rparr>
      else s'\<lparr>cs_ready := cs_ready s @ [(n, k)]\<rparr>)"

definition take_all :: "nat \<Rightarrow> control \<Rightarrow> control" where
  "take_all n s = put [Steered [n] (cs_steering s)] (s\<lparr>cs_steering := []\<rparr>)"

definition unavailable :: "nat option \<Rightarrow> control \<Rightarrow> bool" where
  "unavailable g s \<longleftrightarrow> \<not> cs_started s \<or> cs_ended s \<or> aborted g s \<or> cs_stopped s"

definition wait_more :: "nat \<Rightarrow> nat option \<Rightarrow> control \<Rightarrow> control" where
  "wait_more n g s =
     (if cs_steering s \<noteq> [] then take_all n s
      else if unavailable g s then put [Steered [n] []] s
      else let s' = s\<lparr>cs_waiting := cs_waiting s @ [(n, g)]\<rparr> in
           if \<not> cs_paused s' \<and> cs_steering s' \<noteq> [] then deliver_steering s' else s')"

text \<open>The continuation of the first caller whose promise is resolved.\<close>

definition run_ready :: "control \<Rightarrow> control" where
  "run_ready s = (case cs_ready s of
     [] \<Rightarrow> s
   | (n, Take) # rs \<Rightarrow> take_all n (s\<lparr>cs_ready := rs\<rparr>)
   | (n, Wait g) # rs \<Rightarrow> wait_more n g (s\<lparr>cs_ready := rs\<rparr>))"

definition approval_id :: "string \<Rightarrow> string option" where
  "approval_id k = (if js_trim k = [] \<or> length (js_trim k) > 200 then None else Some (js_trim k))"

definition call_shell :: "string \<Rightarrow> nat option \<Rightarrow> control \<Rightarrow> control" where
  "call_shell k g s =
     (let n = cs_calls s; s' = s\<lparr>cs_calls := Suc n\<rparr> in
      case approval_id k of
        None \<Rightarrow> put [Call_rejected n Bad_approval_id] s'
      | Some k \<Rightarrow>
          if map_of (cs_shell s) k \<noteq> None then put [Call_rejected n Waiter_exists] s'
          else if unavailable g s then put [Shell_answer n Denied Stream_unavailable] s'
          else s'\<lparr>cs_shell := cs_shell s @ [(k, n, g)]\<rparr>)"

definition call_tool :: "string \<Rightarrow> nat option \<Rightarrow> control \<Rightarrow> control" where
  "call_tool k g s =
     (let n = cs_calls s; s' = s\<lparr>cs_calls := Suc n\<rparr> in
      case approval_id k of
        None \<Rightarrow> put [Call_rejected n Bad_approval_id] s'
      | Some k \<Rightarrow>
          if map_of (cs_tool s) k \<noteq> None then put [Call_rejected n Waiter_exists] s'
          else if unavailable g s then put [Tool_answer n Denied Stream_unavailable] s'
          else s'\<lparr>cs_tool := cs_tool s @ [(k, n, g)]\<rparr>)"

text \<open>An abort signal fires: its listeners answer the callers that registered it.\<close>

definition abort_signal :: "nat \<Rightarrow> control \<Rightarrow> control" where
  "abort_signal g s =
     (let ws = filter (\<lambda>x. snd x = Some g) (cs_waiting s);
          ks = filter (\<lambda>x. snd (snd x) = Some g) (cs_shell s);
          ts = filter (\<lambda>x. snd (snd x) = Some g) (cs_tool s) in
      put (map (\<lambda>x. Steered [fst x] []) ws @ map (\<lambda>x. Shell_answer (fst (snd x)) Denied Caller_aborted) ks
           @ map (\<lambda>x. Tool_answer (fst (snd x)) Denied Caller_aborted) ts)
        (s\<lparr>cs_aborted := g # cs_aborted s,
           cs_waiting := filter (\<lambda>x. snd x \<noteq> Some g) (cs_waiting s),
           cs_shell := filter (\<lambda>x. snd (snd x) \<noteq> Some g) (cs_shell s),
           cs_tool := filter (\<lambda>x. snd (snd x) \<noteq> Some g) (cs_tool s)\<rparr>))"

section \<open>Runs\<close>

datatype control_op = Op_start | Op_chunk string | Op_end | Op_close | Op_call caller_kind | Op_run
  | Op_shell string "nat option" | Op_tool string "nat option" | Op_abort nat | Op_handler

text \<open>The listeners are attached from \<open>start\<close> to \<open>close\<close>, and no data follows the end.\<close>

fun perform :: "control_env \<Rightarrow> control_op \<Rightarrow> control \<Rightarrow> control" where
  "perform env Op_start s = start_stream s"
| "perform env (Op_chunk c) s = (if cs_started s \<and> \<not> cs_ended s then handle_data env c s else s)"
| "perform env Op_end s = (if cs_started s \<and> \<not> cs_ended s then handle_end env s else s)"
| "perform env Op_close s = close_stream s"
| "perform env (Op_call k) s = call_steering k s"
| "perform env Op_run s = run_ready s"
| "perform env (Op_shell k g) s = call_shell k g s"
| "perform env (Op_tool k g) s = call_tool k g s"
| "perform env (Op_abort g) s = abort_signal g s"
| "perform env Op_handler s = s\<lparr>cs_handler := True\<rparr>"

definition run_control :: "control_env \<Rightarrow> control_op list \<Rightarrow> control \<Rightarrow> control" where
  "run_control env ops s = foldl (\<lambda>s op. perform env op s) s ops"

end
