(* ===== verification/Control_Invariant.thy ===== *)
theory Control_Invariant
  imports Control_Stream "HOL-Library.Sublist"
begin

text \<open>
  The invariant of the control stream: its maps have distinct keys, no caller waits for what is
  already there, nobody waits once the input is over, and every call is either pending or has been
  answered exactly once.
\<close>

section \<open>Pending and answered calls\<close>

definition pending :: "control \<Rightarrow> nat multiset" where
  "pending s = mset (map fst (cs_blocked s)) + mset (map fst (cs_ready s)) + mset (map fst (cs_waiting s))
     + mset (map (\<lambda>x. fst (snd x)) (cs_shell s)) + mset (map (\<lambda>x. fst (snd x)) (cs_tool s))"

fun answered_by :: "control_output \<Rightarrow> nat list" where
  "answered_by (Steered ns xs) = ns"
| "answered_by (Shell_answer n d r) = [n]"
| "answered_by (Tool_answer n d r) = [n]"
| "answered_by (Call_rejected n e) = [n]"
| "answered_by _ = []"

definition answered :: "control_output list \<Rightarrow> nat multiset" where
  "answered out = mset (concat (map answered_by out))"

lemma answered_simps [simp]:
  "answered [] = {#}" "answered (xs @ ys) = answered xs + answered ys"
  "answered (x # xs) = mset (answered_by x) + answered xs"
  by (simp_all add: answered_def)

text \<open>All calls with an outcome: the quantity every operation but a new call keeps.\<close>

definition calls_of :: "control \<Rightarrow> nat multiset" where
  "calls_of s = pending s + answered (cs_out s)"

lemma answered_map: "answered (map f xs) = mset (concat (map (\<lambda>x. answered_by (f x)) xs))"
  by (simp add: answered_def o_def)

lemma concat_singles: "concat (map (\<lambda>x. [f x]) xs) = map f xs"
  by (induction xs) auto

lemma calls_of_put: "calls_of (put xs s) = calls_of s + answered xs"
  by (simp add: calls_of_def pending_def)

lemma calls_resolve_resume: "calls_of (resolve_resume s) = calls_of s"
  by (simp add: calls_of_def pending_def resolve_resume_def)

lemma calls_resolve_steering: "calls_of (resolve_steering xs s) = calls_of s"
  by (simp add: calls_of_def pending_def resolve_steering_def)

lemma calls_deliver: "calls_of (deliver_steering s) = calls_of s"
  by (simp add: deliver_steering_def calls_resolve_steering) (simp add: calls_of_def pending_def)

lemma calls_deny_shell: "calls_of (deny_shell d s) = calls_of s"
  by (simp add: calls_of_def pending_def deny_shell_def answered_map case_prod_unfold concat_singles)

lemma calls_deny_tool: "calls_of (deny_tool d s) = calls_of s"
  by (simp add: calls_of_def pending_def deny_tool_def answered_map case_prod_unfold concat_singles)

lemma remove_key_mset:
  assumes "distinct (map fst m)" "map_of m k = Some v"
  shows "mset m = add_mset (k, v) (mset (remove_key k m))"
proof -
  have "filter (\<lambda>x. fst x = k) m = [(k, v)]"
    using assms
  proof (induction m)
    case (Cons x m)
    then show ?case
      by (cases x) (auto simp: filter_empty_conv split: if_splits)
  qed simp
  moreover have "mset m = mset (filter (\<lambda>x. fst x = k) m) + mset (filter (\<lambda>x. fst x \<noteq> k) m)"
    by (induction m) auto
  ultimately show ?thesis by (simp add: remove_key_def)
qed

lemma remove_key_calls:
  assumes "distinct (map fst m)" "map_of m k = Some (n, g)"
  shows "image_mset (\<lambda>x. fst (snd x)) (mset m)
    = add_mset n (image_mset (\<lambda>x. fst (snd x)) (mset (remove_key k m)))"
  using arg_cong [OF remove_key_mset [OF assms], of "image_mset (\<lambda>x. fst (snd x))"] by simp

lemma calls_answer_shell:
  assumes "distinct (map fst (cs_shell s))"
  shows "calls_of (answer_shell k d s) = calls_of s"
proof (cases "map_of (cs_shell s) k")
  case (Some p)
  then obtain n g where "map_of (cs_shell s) k = Some (n, g)" by (cases p) simp
  then show ?thesis
    using remove_key_calls [OF assms, of k n g] by (simp add: answer_shell_def calls_of_def pending_def)
qed (simp add: answer_shell_def)

lemma calls_answer_tool:
  assumes "distinct (map fst (cs_tool s))"
  shows "calls_of (answer_tool k d s) = calls_of s"
proof (cases "map_of (cs_tool s) k")
  case (Some p)
  then obtain n g where "map_of (cs_tool s) k = Some (n, g)" by (cases p) simp
  then show ?thesis
    using remove_key_calls [OF assms, of k n g] by (simp add: answer_tool_def calls_of_def pending_def)
qed (simp add: answer_tool_def)

lemmas calls_helpers = calls_of_put calls_resolve_resume calls_resolve_steering calls_deliver calls_deny_shell
  calls_deny_tool calls_answer_shell calls_answer_tool

text \<open>Fields that have no part in it.\<close>

lemma calls_of_cong:
  "cs_blocked s' = cs_blocked s \<Longrightarrow> cs_ready s' = cs_ready s \<Longrightarrow> cs_waiting s' = cs_waiting s \<Longrightarrow>
   cs_shell s' = cs_shell s \<Longrightarrow> cs_tool s' = cs_tool s \<Longrightarrow> cs_out s' = cs_out s \<Longrightarrow> calls_of s' = calls_of s"
  by (simp add: calls_of_def pending_def)

lemma calls_irrelevant [simp]:
  "calls_of (s\<lparr>cs_paused := p\<rparr>) = calls_of s" "calls_of (s\<lparr>cs_stopped := b\<rparr>) = calls_of s"
  "calls_of (s\<lparr>cs_model := m\<rparr>) = calls_of s" "calls_of (s\<lparr>cs_safety := f\<rparr>) = calls_of s"
  "calls_of (s\<lparr>cs_buffer := x\<rparr>) = calls_of s" "calls_of (s\<lparr>cs_uuids := u\<rparr>) = calls_of s"
  "calls_of (s\<lparr>cs_processed := r\<rparr>) = calls_of s" "calls_of (s\<lparr>cs_handler := h\<rparr>) = calls_of s"
  "calls_of (s\<lparr>cs_steering := q\<rparr>) = calls_of s" "calls_of (s\<lparr>cs_active := a\<rparr>) = calls_of s"
  "calls_of (s\<lparr>cs_started := t\<rparr>) = calls_of s" "calls_of (s\<lparr>cs_ended := e\<rparr>) = calls_of s"
  "calls_of (s\<lparr>cs_calls := c\<rparr>) = calls_of s" "calls_of (s\<lparr>cs_aborted := z\<rparr>) = calls_of s"
  by (simp_all add: calls_of_def pending_def)

lemma calls_stop: "calls_of (stop_run s) = calls_of s"
  by (simp add: stop_run_def calls_helpers)

lemma calls_resume: "calls_of (resume_run s) = calls_of s"
  by (simp add: resume_run_def Let_def calls_helpers)

lemma calls_accept: "calls_of (accept_steering x m r s) = calls_of s"
  by (simp add: accept_steering_def Let_def calls_helpers)

lemma calls_remember: "calls_of (remember msg s) = calls_of s"
  by (simp add: remember_def Let_def split: option.splits)

definition keys_ok :: "control \<Rightarrow> bool" where
  "keys_ok s \<longleftrightarrow> distinct (map fst (cs_shell s)) \<and> distinct (map fst (cs_tool s))
     \<and> distinct (map fst (cs_active s)) \<and> distinct (map fst (cs_processed s))"

lemma calls_apply_body: "apply_body b r s = Inr s' \<Longrightarrow> keys_ok s \<Longrightarrow> calls_of s' = calls_of s"
  by (cases b) (auto simp: guard_simps remove_steering_def calls_stop calls_resume calls_accept calls_helpers keys_ok_def
      split: option.splits)

lemma calls_handle_message: "handle_message msg s = Inr s' \<Longrightarrow> keys_ok s \<Longrightarrow> calls_of s' = calls_of s"
  by (auto simp: handle_message_def guard_simps calls_remember calls_of_put dest: calls_apply_body split: option.splits)

lemma calls_handle_line: "keys_ok s \<Longrightarrow> calls_of (handle_line env l s) = calls_of s"
  by (auto simp: handle_line_def Let_def rbind_Inr_iff calls_of_put keys_ok_def dest!: calls_handle_message split: sum.splits)

end
