(* ===== verification/Control_Properties.thy ===== *)
theory Control_Properties
  imports Control_Invariant
begin

text \<open>
  The invariant is kept by every operation of the control stream; the parts that concern the end of
  the input hold between operations, the others also between lines.
\<close>

section \<open>Invariant of a line\<close>

definition waiters_ok :: "control \<Rightarrow> bool" where
  "waiters_ok s \<longleftrightarrow> (\<not> cs_paused s \<longrightarrow> cs_blocked s = []) \<and> (\<not> cs_paused s \<and> cs_waiting s \<noteq> [] \<longrightarrow> cs_steering s = [])
     \<and> (cs_stopped s \<longrightarrow> cs_waiting s = [] \<and> cs_shell s = [] \<and> cs_tool s = [])
     \<and> (\<forall>x\<in>set (cs_waiting s). \<not> aborted (snd x) s)
     \<and> (\<forall>x\<in>set (cs_shell s). \<not> aborted (snd (snd x)) s) \<and> (\<forall>x\<in>set (cs_tool s). \<not> aborted (snd (snd x)) s)"

definition all_calls :: "nat \<Rightarrow> nat multiset" where
  "all_calls n = mset [0..<n]"

lemma all_calls_Suc: "all_calls (Suc n) = add_mset n (all_calls n)"
  by (simp add: all_calls_def)

definition line_inv :: "control \<Rightarrow> bool" where
  "line_inv s \<longleftrightarrow> keys_ok s \<and> length (cs_processed s) \<le> processed_limit
     \<and> calls_of s = all_calls (cs_calls s) \<and> waiters_ok s"

lemma aborted_simps [simp]:
  "aborted g (put xs s) = aborted g s" "aborted g (s\<lparr>cs_paused := p\<rparr>) = aborted g s"
  "aborted g (s\<lparr>cs_waiting := w\<rparr>) = aborted g s" "aborted g (s\<lparr>cs_stopped := b\<rparr>) = aborted g s"
  "aborted g (s\<lparr>cs_ready := x, cs_blocked := y\<rparr>) = aborted g s"
  by (simp_all add: aborted_def split: option.splits)

lemma map_fst_remove_key: "map fst (remove_key k m) = filter (\<lambda>x. x \<noteq> k) (map fst m)"
  by (simp add: remove_key_def filter_map o_def)

lemma set_remove_key: "set (remove_key k m) \<subseteq> set m"
  by (auto simp: remove_key_def)

lemmas line_defs = resolve_resume_def resolve_steering_def deliver_steering_def deny_shell_def deny_tool_def
  answer_shell_def answer_tool_def stop_run_def resume_run_def accept_steering_def Let_def

lemma keys_apply_body: "apply_body b r s = Inr s' \<Longrightarrow> keys_ok s \<Longrightarrow> keys_ok s'"
  by (cases b) (auto simp: guard_simps remove_steering_def line_defs keys_ok_def map_fst_remove_key
      distinct_update split: option.splits if_splits)

lemma processed_apply_body: "apply_body b r s = Inr s' \<Longrightarrow> cs_processed s' = cs_processed s"
  by (cases b) (auto simp: guard_simps remove_steering_def line_defs split: option.splits if_splits)

lemma calls_count_apply_body: "apply_body b r s = Inr s' \<Longrightarrow> cs_calls s' = cs_calls s"
  by (cases b) (auto simp: guard_simps remove_steering_def line_defs split: option.splits if_splits)

lemma phase_apply_body:
  "apply_body b r s = Inr s' \<Longrightarrow> cs_started s' = cs_started s \<and> cs_ended s' = cs_ended s \<and> cs_aborted s' = cs_aborted s"
  by (cases b) (auto simp: guard_simps remove_steering_def line_defs split: option.splits if_splits)

lemma aborted_cong: "cs_aborted s' = cs_aborted s \<Longrightarrow> aborted g s' = aborted g s"
  by (simp add: aborted_def split: option.splits)

lemma waiters_put [simp]: "waiters_ok (put xs s) = waiters_ok s"
  by (simp add: waiters_ok_def)

lemma waiters_stop: "waiters_ok (stop_run s)"
  by (simp add: waiters_ok_def line_defs)

lemma waiters_resume: "waiters_ok s \<Longrightarrow> waiters_ok (resume_run s)"
  by (auto simp: waiters_ok_def line_defs aborted_def split: option.splits)

lemma waiters_accept: "waiters_ok s \<Longrightarrow> waiters_ok (accept_steering x m r s)"
  by (auto simp: waiters_ok_def line_defs aborted_def split: option.splits)

lemma waiters_answer_shell: "waiters_ok s \<Longrightarrow> waiters_ok (answer_shell k d s)"
  by (auto simp: waiters_ok_def answer_shell_def aborted_def remove_key_def split: option.splits)

lemma waiters_answer_tool: "waiters_ok s \<Longrightarrow> waiters_ok (answer_tool k d s)"
  by (auto simp: waiters_ok_def answer_tool_def aborted_def remove_key_def split: option.splits)

lemma waiters_remove: "remove_steering k s = Inr s' \<Longrightarrow> waiters_ok s \<Longrightarrow> waiters_ok s'"
  by (auto simp: waiters_ok_def remove_steering_def aborted_def guard_simps split: option.splits)

lemma waiters_irrelevant [simp]:
  "waiters_ok (s\<lparr>cs_model := m\<rparr>) = waiters_ok s" "waiters_ok (s\<lparr>cs_safety := f\<rparr>) = waiters_ok s"
  "waiters_ok (s\<lparr>cs_processed := r\<rparr>) = waiters_ok s" "waiters_ok (s\<lparr>cs_uuids := u\<rparr>) = waiters_ok s"
  "waiters_ok (s\<lparr>cs_buffer := x\<rparr>) = waiters_ok s" "waiters_ok (s\<lparr>cs_handler := h\<rparr>) = waiters_ok s"
  "waiters_ok (s\<lparr>cs_started := t\<rparr>) = waiters_ok s" "waiters_ok (s\<lparr>cs_ended := e\<rparr>) = waiters_ok s"
  "waiters_ok (s\<lparr>cs_calls := n\<rparr>) = waiters_ok s"
  by (simp_all add: waiters_ok_def aborted_def cong: option.case_cong)

lemma waiters_pause: "waiters_ok s \<Longrightarrow> waiters_ok (s\<lparr>cs_paused := True\<rparr>)"
  by (simp add: waiters_ok_def)

lemma waiters_apply_body: "apply_body b r s = Inr s' \<Longrightarrow> waiters_ok s \<Longrightarrow> waiters_ok s'"
  by (cases b) (auto simp: guard_simps intro: waiters_stop waiters_resume waiters_accept waiters_answer_shell
      waiters_answer_tool waiters_remove waiters_pause)

section \<open>Remembering\<close>

lemma remember_fields:
  "keys_ok s \<Longrightarrow> keys_ok (remember msg s)" "waiters_ok (remember msg s) = waiters_ok s"
  "cs_calls (remember msg s) = cs_calls s" "cs_out (remember msg s) = cs_out s"
  by (auto simp: remember_def Let_def keys_ok_def distinct_update distinct_tl map_tl split: option.splits)

lemma replay_None: "replay_of msg s = None \<Longrightarrow> snd msg = Some k \<Longrightarrow> k \<notin> fst ` set (cs_processed s)"
  by (simp add: replay_of_def map_of_eq_None_iff)

lemma update_new: "k \<notin> fst ` set m \<Longrightarrow> AList.update k v m = m @ [(k, v)]"
  by (induction m) auto

lemma remember_new:
  assumes "replay_of msg s = None" "cs_processed s' = cs_processed s"
  shows "cs_processed (remember msg s') = (case snd msg of None \<Rightarrow> cs_processed s | Some k \<Rightarrow>
     let m = cs_processed s @ [(k, msg, event_of (fst msg))] in if length m > processed_limit then tl m else m)"
  using replay_None [OF assms(1)] assms(2)
  by (auto simp: remember_def update_new Let_def split: option.splits)

lemma handle_message_inv:
  assumes "handle_message msg s = Inr s'" "line_inv s"
  shows "line_inv s'"
proof (cases "replay_of msg s")
  case None
  then obtain s1 where s1: "apply_body (fst msg) (snd msg) s = Inr s1"
      "s' = put [Emit (Accepted (event_of (fst msg)) (snd msg) False)] (remember msg s1)"
    using assms(1) by (auto simp: handle_message_def guard_simps)
  have k: "keys_ok s" and w: "waiters_ok s" and n: "length (cs_processed s) \<le> processed_limit"
    using assms(2) by (simp_all add: line_inv_def)
  have "length (cs_processed (remember msg s1)) \<le> processed_limit"
    using n unfolding remember_new [OF None processed_apply_body [OF s1(1)]]
    by (auto simp: Let_def split: option.splits)
  moreover have "keys_ok s'" using remember_fields(1) [OF keys_apply_body [OF s1(1) k]] by (simp add: s1(2) keys_ok_def)
  moreover have "waiters_ok s'" using waiters_apply_body [OF s1(1) w] by (simp add: s1(2) remember_fields)
  moreover have "calls_of s' = all_calls (cs_calls s')"
    using calls_handle_message [OF assms(1) k] calls_count_apply_body [OF s1(1)] assms(2)
    by (simp add: s1(2) remember_fields line_inv_def)
  ultimately show ?thesis by (simp add: line_inv_def s1(2))
next
  case (Some p)
  then obtain old ev where "p = (old, ev)" by (cases p)
  with Some assms(1) have "s' = put [Emit (Accepted ev (snd msg) True)] s" by (auto simp: handle_message_def guard_simps)
  with assms(2) show ?thesis by (simp add: line_inv_def calls_of_put keys_ok_def)
qed

lemma line_inv_irrelevant [simp]:
  "line_inv (s\<lparr>cs_uuids := u\<rparr>) = line_inv s" "line_inv (s\<lparr>cs_buffer := x\<rparr>) = line_inv s"
  "line_inv (s\<lparr>cs_handler := h\<rparr>) = line_inv s" "line_inv (s\<lparr>cs_started := t\<rparr>) = line_inv s"
  "line_inv (s\<lparr>cs_ended := e\<rparr>) = line_inv s" "line_inv (put [Emit v] s) = line_inv s"
  by (simp_all add: line_inv_def keys_ok_def calls_of_put)

lemma handle_line_cases:
  assumes "\<And>s'. s' = s \<Longrightarrow> P s'"
    and "\<And>msg s'. parse_control_message (ce_uuid env (cs_uuids s)) (ce_parse env l) = Inr msg \<Longrightarrow>
      handle_message msg (s\<lparr>cs_uuids := Suc (cs_uuids s)\<rparr>) = Inr s' \<Longrightarrow> P s'"
    and "\<And>e r. P (put [Emit (Invalid e r)] (s\<lparr>cs_uuids := Suc (cs_uuids s)\<rparr>))"
  shows "P (handle_line env l s)"
  using assms unfolding handle_line_def Let_def by (auto simp: rbind_Inr_iff split: sum.splits)

lemma handle_line_inv: "line_inv s \<Longrightarrow> line_inv (handle_line env l s)"
  by (rule handle_line_cases) (auto dest: handle_message_inv)

section \<open>Invariant of an operation\<close>

text \<open>Before the start and after the end nobody waits and the run is not paused.\<close>

definition input_ok :: "control \<Rightarrow> bool" where
  "input_ok s \<longleftrightarrow> (\<not> cs_started s \<or> cs_ended s \<longrightarrow>
     \<not> cs_paused s \<and> cs_waiting s = [] \<and> cs_shell s = [] \<and> cs_tool s = [])"

definition control_inv :: "control \<Rightarrow> bool" where
  "control_inv s \<longleftrightarrow> line_inv s \<and> input_ok s"

lemma phase_remember [simp]:
  "cs_started (remember msg s) = cs_started s" "cs_ended (remember msg s) = cs_ended s"
  by (auto simp: remember_def Let_def split: option.splits)

lemma phase_handle_message:
  "handle_message msg s = Inr s' \<Longrightarrow> cs_started s' = cs_started s \<and> cs_ended s' = cs_ended s"
  by (auto simp: handle_message_def guard_simps dest: phase_apply_body split: option.splits)

lemma phase_handle_line [simp]:
  "cs_started (handle_line env l s) = cs_started s" "cs_ended (handle_line env l s) = cs_ended s"
  by (rule handle_line_cases; auto dest: phase_handle_message)+

lemma cut_lines_inv:
  "line_inv s \<Longrightarrow> line_inv (cut_lines env s) \<and> cs_started (cut_lines env s) = cs_started s
     \<and> cs_ended (cut_lines env s) = cs_ended s"
proof (induction env s rule: cut_lines.induct)
  case (1 env s)
  show ?case
  proof (cases "line_feed \<in> set (cs_buffer s)")
    case True
    define l where "l = takeWhile (\<lambda>c. c \<noteq> line_feed) (cs_buffer s)"
    define s' where "s' = s\<lparr>cs_buffer := drop (Suc (length l)) (cs_buffer s)\<rparr>"
    have "line_inv (handle_line env (chomp l) s')" using "1.prems" by (intro handle_line_inv) (simp add: s'_def)
    from "1.IH" [OF True l_def s'_def this] show ?thesis
      using True by (subst (1 2 3) cut_lines.simps) (simp add: l_def s'_def Let_def)
  next
    case False
    with "1.prems" show ?thesis by (subst (1 2 3) cut_lines.simps) simp
  qed
qed

lemma line_inv_shape:
  "line_inv s \<longleftrightarrow> keys_ok s \<and> length (cs_processed s) \<le> processed_limit
     \<and> calls_of s = all_calls (cs_calls s) \<and> waiters_ok s"
  by (simp add: line_inv_def)

lemma handle_data_inv:
  assumes "control_inv s" "cs_started s" "\<not> cs_ended s"
  shows "control_inv (handle_data env c s)"
  using assms cut_lines_inv [of "s\<lparr>cs_buffer := cs_buffer s @ c\<rparr>" env]
  by (simp add: control_inv_def handle_data_def input_ok_def)

lemma stream_finish_inv:
  assumes "keys_ok s" "length (cs_processed s) \<le> processed_limit" "calls_of s = all_calls (cs_calls s)"
    and "\<not> cs_paused s"
    and "s2 = deny_tool d (deny_shell d (resolve_steering xs (resolve_resume (s\<lparr>cs_steering := ys\<rparr>))))"
  shows "control_inv s2"
proof -
  have w: "cs_waiting s2 = []" "cs_shell s2 = []" "cs_tool s2 = []" "cs_blocked s2 = []" "\<not> cs_paused s2"
    using assms(4) by (auto simp: assms(5) line_defs)
  have k: "keys_ok s2" using assms(1) by (auto simp: assms(5) keys_ok_def line_defs)
  have c: "calls_of s2 = calls_of s" by (simp add: assms(5) calls_helpers)
  have n: "cs_calls s2 = cs_calls s" "cs_processed s2 = cs_processed s" by (auto simp: assms(5) line_defs)
  show ?thesis
    using w k c n assms(2,3) by (simp add: control_inv_def line_inv_def input_ok_def waiters_ok_def)
qed

lemma deliver_resume:
  "deliver_steering (resolve_resume u) = resolve_steering (cs_steering u) (resolve_resume (u\<lparr>cs_steering := []\<rparr>))"
  for u :: control
  by (cases u) (simp add: deliver_steering_def resolve_resume_def)

lemma handle_end_inv:
  assumes "control_inv s"
  shows "control_inv (handle_end env s)"
proof -
  define s2 where "s2 = (let l = chomp (cs_buffer s); s1 = s\<lparr>cs_ended := True, cs_buffer := []\<rparr> in
     (if js_trim l \<noteq> [] then handle_line env l s1 else s1))"
  have "line_inv s2"
    using assms by (auto simp: s2_def Let_def control_inv_def intro: handle_line_inv)
  then have f: "keys_ok (s2\<lparr>cs_paused := False\<rparr>)" "length (cs_processed (s2\<lparr>cs_paused := False\<rparr>)) \<le> processed_limit"
    "calls_of (s2\<lparr>cs_paused := False\<rparr>) = all_calls (cs_calls (s2\<lparr>cs_paused := False\<rparr>))"
    by (simp_all add: line_inv_def keys_ok_def)
  show ?thesis
    by (rule stream_finish_inv [OF f, where xs = "cs_steering s2" and ys = "[]" and d = Stream_ended])
      (simp_all add: handle_end_def s2_def Let_def deliver_resume)
qed

lemma close_inv: "control_inv s \<Longrightarrow> control_inv (close_stream s)"
  by (rule stream_finish_inv [where s = "s\<lparr>cs_started := False, cs_ended := True, cs_buffer := [], cs_paused := False\<rparr>"
        and xs = "[]" and d = Stream_closed and ys = "cs_steering s"])
    (simp_all add: control_inv_def line_inv_def keys_ok_def close_stream_def)

lemma calls_of_new:
  "calls_of (s\<lparr>cs_blocked := cs_blocked s @ [(n, k)]\<rparr>) = add_mset n (calls_of s)"
  "calls_of (s\<lparr>cs_ready := cs_ready s @ [(n, k)]\<rparr>) = add_mset n (calls_of s)"
  "calls_of (s\<lparr>cs_waiting := cs_waiting s @ [(n, g)]\<rparr>) = add_mset n (calls_of s)"
  "calls_of (s\<lparr>cs_shell := cs_shell s @ [(i, n, g)]\<rparr>) = add_mset n (calls_of s)"
  "calls_of (s\<lparr>cs_tool := cs_tool s @ [(i, n, g)]\<rparr>) = add_mset n (calls_of s)"
  by (simp_all add: calls_of_def pending_def)

lemma start_inv: "control_inv s \<Longrightarrow> control_inv (start_stream s)"
  by (auto simp: control_inv_def start_stream_def line_inv_def keys_ok_def input_ok_def)

lemma call_steering_inv: "control_inv s \<Longrightarrow> control_inv (call_steering k s)"
  by (auto simp: control_inv_def call_steering_def Let_def line_inv_def keys_ok_def input_ok_def waiters_ok_def
      aborted_def calls_of_def pending_def all_calls_Suc cong: option.case_cong)

lemma call_shell_inv: "control_inv s \<Longrightarrow> control_inv (call_shell k g s)"
  by (auto simp: control_inv_def call_shell_def Let_def line_inv_def keys_ok_def input_ok_def waiters_ok_def
      unavailable_def aborted_def calls_of_def pending_def all_calls_Suc map_of_eq_None_iff split: option.splits cong: option.case_cong)

lemma call_tool_inv: "control_inv s \<Longrightarrow> control_inv (call_tool k g s)"
  by (auto simp: control_inv_def call_tool_def Let_def line_inv_def keys_ok_def input_ok_def waiters_ok_def
      unavailable_def aborted_def calls_of_def pending_def all_calls_Suc map_of_eq_None_iff split: option.splits cong: option.case_cong)

lemma run_ready_inv: "control_inv s \<Longrightarrow> control_inv (run_ready s)"
  by (auto simp: control_inv_def run_ready_def take_all_def wait_more_def Let_def line_inv_def keys_ok_def input_ok_def
      waiters_ok_def unavailable_def aborted_def calls_of_def pending_def
      split: list.splits prod.splits caller_kind.splits option.splits cong: option.case_cong)

lemma split_filter: "mset (map f xs) = mset (map f (filter P xs)) + mset (map f (filter (\<lambda>x. \<not> P x) xs))"
  by (induction xs) auto

lemma abort_calls: "calls_of (abort_signal g s) = calls_of s"
proof -
  have "mset (map fst (cs_waiting s)) = mset (map fst (filter (\<lambda>x. snd x = Some g) (cs_waiting s)))
      + mset (map fst (cs_waiting (abort_signal g s)))"
    using split_filter [of fst "cs_waiting s" "\<lambda>x. snd x = Some g"] by (simp add: abort_signal_def Let_def)
  moreover have "mset (map (\<lambda>x. fst (snd x)) (cs_shell s))
      = mset (map (\<lambda>x. fst (snd x)) (filter (\<lambda>x. snd (snd x) = Some g) (cs_shell s)))
      + mset (map (\<lambda>x. fst (snd x)) (cs_shell (abort_signal g s)))"
    using split_filter [of "\<lambda>x. fst (snd x)" "cs_shell s" "\<lambda>x. snd (snd x) = Some g"]
    by (simp add: abort_signal_def Let_def)
  moreover have "mset (map (\<lambda>x. fst (snd x)) (cs_tool s))
      = mset (map (\<lambda>x. fst (snd x)) (filter (\<lambda>x. snd (snd x) = Some g) (cs_tool s)))
      + mset (map (\<lambda>x. fst (snd x)) (cs_tool (abort_signal g s)))"
    using split_filter [of "\<lambda>x. fst (snd x)" "cs_tool s" "\<lambda>x. snd (snd x) = Some g"]
    by (simp add: abort_signal_def Let_def)
  moreover have "answered (cs_out (abort_signal g s)) = answered (cs_out s)
      + mset (map fst (filter (\<lambda>x. snd x = Some g) (cs_waiting s)))
      + mset (map (\<lambda>x. fst (snd x)) (filter (\<lambda>x. snd (snd x) = Some g) (cs_shell s)))
      + mset (map (\<lambda>x. fst (snd x)) (filter (\<lambda>x. snd (snd x) = Some g) (cs_tool s)))"
    by (simp add: abort_signal_def Let_def answered_map concat_singles)
  moreover have "cs_blocked (abort_signal g s) = cs_blocked s" "cs_ready (abort_signal g s) = cs_ready s"
    by (simp_all add: abort_signal_def Let_def)
  ultimately show ?thesis unfolding calls_of_def pending_def by (simp only: ac_simps)
qed

lemma abort_inv: "control_inv s \<Longrightarrow> control_inv (abort_signal g s)"
  unfolding control_inv_def line_inv_def abort_calls
  by (auto simp: abort_signal_def Let_def keys_ok_def input_ok_def waiters_ok_def aborted_def distinct_map_filter
      split: option.splits)

lemma perform_inv: "control_inv s \<Longrightarrow> control_inv (perform env op s)"
  by (cases op) (auto simp: start_inv handle_data_inv handle_end_inv close_inv call_steering_inv run_ready_inv
      call_shell_inv call_tool_inv abort_inv, simp add: control_inv_def input_ok_def)

lemma js_map_of_distinct: "distinct (map fst (js_map_of kvs))"
proof -
  have "distinct (map fst m) \<Longrightarrow> distinct (map fst (foldl (\<lambda>m (k, v). AList.update k v m) m kvs))"
    for m :: "('a \<times> 'b) list"
    by (induction kvs arbitrary: m) (auto simp: distinct_update)
  then show ?thesis by (simp add: js_map_of_def)
qed

lemma new_control_inv: "control_inv (new_control initial)"
  by (simp add: control_inv_def line_inv_def input_ok_def waiters_ok_def keys_ok_def new_control_def calls_of_def
      pending_def all_calls_def js_map_of_distinct)

lemma run_control_inv: "control_inv s \<Longrightarrow> control_inv (run_control env ops s)"
  unfolding run_control_def by (induction ops arbitrary: s) (simp_all add: perform_inv)

section \<open>Chunks\<close>

text \<open>A line does not look at the buffer.\<close>

lemma buffer_helper_update:
  "resolve_resume (s\<lparr>cs_buffer := x\<rparr>) = (resolve_resume s)\<lparr>cs_buffer := x\<rparr>"
  "put ys (s\<lparr>cs_buffer := x\<rparr>) = (put ys s)\<lparr>cs_buffer := x\<rparr>"
  by (simp_all add: resolve_resume_def put_def)

lemma apply_body_buffer:
  "apply_body b r (s\<lparr>cs_buffer := x\<rparr>) = map_sum id (\<lambda>s. s\<lparr>cs_buffer := x\<rparr>) (apply_body b r s)"
  by (cases b) (simp_all add: line_defs remove_steering_def put_def ensure_def split: option.splits)

lemma remember_buffer: "remember msg (s\<lparr>cs_buffer := x\<rparr>) = (remember msg s)\<lparr>cs_buffer := x\<rparr>"
  by (simp add: remember_def Let_def split: option.splits)

lemma replay_buffer: "replay_of msg (s\<lparr>cs_buffer := x\<rparr>) = replay_of msg s"
  by (simp add: replay_of_def)

lemma handle_message_buffer:
  "handle_message msg (s\<lparr>cs_buffer := x\<rparr>) = map_sum id (\<lambda>s. s\<lparr>cs_buffer := x\<rparr>) (handle_message msg s)"
proof (cases "replay_of msg s")
  case None
  then show ?thesis
    by (cases "apply_body (fst msg) (snd msg) s")
      (simp_all add: handle_message_def replay_buffer apply_body_buffer remember_buffer buffer_helper_update)
next
  case (Some p)
  then show ?thesis
    by (cases p) (simp add: handle_message_def replay_buffer ensure_def buffer_helper_update)
qed

lemma handle_line_buffer: "handle_line env l (s\<lparr>cs_buffer := x\<rparr>) = (handle_line env l s)\<lparr>cs_buffer := x\<rparr>"
proof -
  let ?s = "s\<lparr>cs_uuids := Suc (cs_uuids s)\<rparr>"
  have c: "(s\<lparr>cs_buffer := x\<rparr>)\<lparr>cs_uuids := Suc (cs_uuids s)\<rparr> = ?s\<lparr>cs_buffer := x\<rparr>" by simp
  show ?thesis
  proof (cases "parse_control_message (ce_uuid env (cs_uuids s)) (ce_parse env l)")
    case (Inl e)
    then show ?thesis by (simp add: handle_line_def Let_def put_def)
  next
    case (Inr msg)
    then show ?thesis
      using handle_message_buffer [where msg = msg and s = ?s and x = x]
      by (cases "handle_message msg ?s") (simp_all add: handle_line_def Let_def c buffer_helper_update)
  qed
qed

lemma takeWhile_prefix: "line_feed \<in> set xs \<Longrightarrow> takeWhile (\<lambda>c. c \<noteq> line_feed) (xs @ ys) = takeWhile (\<lambda>c. c \<noteq> line_feed) xs"
  by (rule takeWhile_append1) auto

lemma line_length: "line_feed \<in> set xs \<Longrightarrow> Suc (length (takeWhile (\<lambda>c. c \<noteq> line_feed) xs)) \<le> length xs"
  by (induction xs) auto

lemma cut_lines_more:
  "cut_lines env (s\<lparr>cs_buffer := cs_buffer s @ b\<rparr>)
    = cut_lines env ((cut_lines env s)\<lparr>cs_buffer := cs_buffer (cut_lines env s) @ b\<rparr>)"
proof (induction env s rule: cut_lines.induct)
  case (1 env s)
  show ?case
  proof (cases "line_feed \<in> set (cs_buffer s)")
    case True
    define l where "l = takeWhile (\<lambda>c. c \<noteq> line_feed) (cs_buffer s)"
    define s' where "s' = s\<lparr>cs_buffer := drop (Suc (length l)) (cs_buffer s)\<rparr>"
    have len: "Suc (length l) \<le> length (cs_buffer s)" using line_length [OF True] by (simp add: l_def)
    have step: "cut_lines env s = cut_lines env (handle_line env (chomp l) s')"
      using True by (subst cut_lines.simps) (simp add: l_def s'_def Let_def)
    have "cut_lines env (s\<lparr>cs_buffer := cs_buffer s @ b\<rparr>)
        = cut_lines env (handle_line env (chomp l) (s\<lparr>cs_buffer := drop (Suc (length l)) (cs_buffer s) @ b\<rparr>))"
      using True len by (subst cut_lines.simps) (simp add: takeWhile_prefix Let_def l_def [symmetric])
    also have "handle_line env (chomp l) (s\<lparr>cs_buffer := drop (Suc (length l)) (cs_buffer s) @ b\<rparr>)
        = (handle_line env (chomp l) s')\<lparr>cs_buffer := cs_buffer (handle_line env (chomp l) s') @ b\<rparr>"
      by (simp add: handle_line_buffer s'_def)
    finally show ?thesis unfolding step using "1.IH" [OF True l_def s'_def] by simp
  next
    case False
    then have "cut_lines env s = s" by (subst cut_lines.simps) simp
    then show ?thesis by simp
  qed
qed

lemma handle_data_append: "handle_data env b (handle_data env a s) = handle_data env (a @ b) s"
  using cut_lines_more [of env "s\<lparr>cs_buffer := cs_buffer s @ a\<rparr>" b] by (simp add: handle_data_def)

end
