(* ===== verification/Control_Log.thy ===== *)
theory Control_Log
  imports Control_Properties
begin

text \<open>
  The history of the control stream, read off its outputs: which requests and which steering were
  accepted, what the window of remembered requests and the queue owe to it, who received steering, and
  how the input is handled line by line.
\<close>

section \<open>Events and deliveries\<close>

definition events :: "control_output list \<Rightarrow> control_event list" where
  "events out = concat (map (\<lambda>x. case x of Emit e \<Rightarrow> [e] | _ \<Rightarrow> []) out)"

definition delivered :: "control_output list \<Rightarrow> string list" where
  "delivered out = concat (map (\<lambda>x. case x of Steered ns xs \<Rightarrow> xs | _ \<Rightarrow> []) out)"

lemma events_simps [simp]:
  "events [] = []" "events (xs @ ys) = events xs @ events ys"
  "events (x # xs) = (case x of Emit e \<Rightarrow> [e] | _ \<Rightarrow> []) @ events xs"
  by (simp_all add: events_def)

lemma delivered_simps [simp]:
  "delivered [] = []" "delivered (xs @ ys) = delivered xs @ delivered ys"
  "delivered (x # xs) = (case x of Steered ns ys \<Rightarrow> ys | _ \<Rightarrow> []) @ delivered xs"
  by (simp_all add: delivered_def)

lemma silent_map:
  "(\<And>x. x \<in> set xs \<Longrightarrow> events [f x] = []) \<Longrightarrow> events (map f xs) = []"
  "(\<And>x. x \<in> set xs \<Longrightarrow> delivered [f x] = []) \<Longrightarrow> delivered (map f xs) = []"
  by (induction xs) (auto simp: events_def delivered_def)

lemma deny_silent [simp]:
  "events (cs_out (deny_shell d s)) = events (cs_out s)" "events (cs_out (deny_tool d s)) = events (cs_out s)"
  "delivered (cs_out (deny_shell d s)) = delivered (cs_out s)" "delivered (cs_out (deny_tool d s)) = delivered (cs_out s)"
  "cs_steering (deny_shell d s) = cs_steering s" "cs_steering (deny_tool d s) = cs_steering s"
  by (simp_all add: deny_shell_def deny_tool_def silent_map case_prod_unfold)

lemma resolve_resume_fields [simp]:
  "cs_out (resolve_resume s) = cs_out s" "cs_steering (resolve_resume s) = cs_steering s"
  "cs_waiting (resolve_resume s) = cs_waiting s" "cs_paused (resolve_resume s) = cs_paused s"
  "cs_processed (resolve_resume s) = cs_processed s"
  by (simp_all add: resolve_resume_def)

lemma resolve_steering_fields [simp]:
  "events (cs_out (resolve_steering xs s)) = events (cs_out s)" "cs_steering (resolve_steering xs s) = cs_steering s"
  "delivered (cs_out (resolve_steering [] s)) = delivered (cs_out s)"
  by (simp_all add: resolve_steering_def)

text \<open>Everything that was handed over, followed by what is queued.\<close>

definition flow :: "control \<Rightarrow> string list" where
  "flow s = delivered (cs_out s) @ cs_steering s"

lemma flow_deliver: "\<not> cs_paused s \<Longrightarrow> cs_waiting s \<noteq> [] \<Longrightarrow> flow (deliver_steering s) = flow s"
  by (simp add: flow_def deliver_steering_def resolve_steering_def)

lemma events_deliver [simp]: "events (cs_out (deliver_steering s)) = events (cs_out s)"
  by (simp add: deliver_steering_def)

lemma events_apply_body: "apply_body b r s = Inr s' \<Longrightarrow> events (cs_out s') = events (cs_out s)"
  by (cases b) (auto simp: guard_simps remove_steering_def stop_run_def resume_run_def accept_steering_def
      answer_shell_def answer_tool_def Let_def split: option.splits)

lemma flow_resume: "flow (resume_run s) = flow s"
  by (auto simp: resume_run_def Let_def flow_deliver) (simp_all add: flow_def)

lemma flow_accept: "flow (accept_steering x m r s) = flow s @ [x]"
  by (auto simp: accept_steering_def Let_def flow_deliver) (simp_all add: flow_def)

lemma flow_apply_body:
  assumes "apply_body b r s = Inr s'"
  shows "flow s' = (case b of Msg_steer x m \<Rightarrow> flow s @ [x]
    | Msg_remove k \<Rightarrow> delivered (cs_out s) @ remove1 (the (map_of (cs_active s) k)) (cs_steering s) | _ \<Rightarrow> flow s)"
proof (cases b)
  case Msg_resume
  then show ?thesis using assms by (auto simp: flow_resume)
next
  case (Msg_steer x m)
  then show ?thesis using assms by (auto simp: flow_accept)
qed (use assms in \<open>auto simp: guard_simps remove_steering_def stop_run_def flow_def answer_shell_def answer_tool_def
    split: option.splits\<close>)

section \<open>Accepted messages\<close>

text \<open>The request ids that were accepted, the steering among them, and the number of removals.\<close>

fun first_id :: "control_event \<Rightarrow> string list" where
  "first_id (Accepted ev (Some k) False) = [k]"
| "first_id _ = []"

fun steering_in :: "control_event \<Rightarrow> string list" where
  "steering_in (Accepted (Steer_accepted x) r False) = [x]"
| "steering_in _ = []"

fun removal_in :: "control_event \<Rightarrow> nat" where
  "removal_in (Accepted (Removal_accepted k) r False) = 1"
| "removal_in _ = 0"

definition accepted_ids :: "control \<Rightarrow> string list" where
  "accepted_ids s = concat (map first_id (events (cs_out s)))"

definition accepted_steering :: "control \<Rightarrow> string list" where
  "accepted_steering s = concat (map steering_in (events (cs_out s)))"

definition removals :: "control \<Rightarrow> nat" where
  "removals s = sum_list (map removal_in (events (cs_out s)))"

text \<open>
  What holds between lines: since a state with the remembered requests and the accepted ids \<open>B\<close>
  only the accepted messages were added to the window, and the steering flows.
\<close>

definition window :: "'a list \<Rightarrow> 'a list" where
  "window xs = drop (length xs - processed_limit) xs"

definition window_ok ::
  "(string \<times> control_message \<times> event_body) list \<times> string list \<Rightarrow> control \<Rightarrow> bool" where
  "window_ok B s \<longleftrightarrow> (\<exists>xs. cs_processed s = window (fst B @ xs) \<and> accepted_ids s = snd B @ map fst xs)"

definition flow_ok :: "control \<Rightarrow> bool" where
  "flow_ok s \<longleftrightarrow> subseq (flow s) (accepted_steering s)"

definition flow_complete :: "control \<Rightarrow> bool" where
  "flow_complete s \<longleftrightarrow> length (accepted_steering s) \<le> length (flow s) + removals s"

lemma drop_snoc_window:
  assumes "ks = drop (length xs - n) xs" "0 < n"
  shows "(if length (ks @ [k]) > n then tl (ks @ [k]) else ks @ [k]) = drop (length (xs @ [k]) - n) (xs @ [k])"
proof (cases "length xs < n")
  case True
  then show ?thesis using assms by simp
next
  case False
  then have len: "length ks = n" using assms by simp
  moreover have "ks \<noteq> []" using len assms(2) by auto
  moreover have "tl ks = drop (Suc (length xs) - n) xs"
    unfolding assms(1) using False by (simp add: tl_drop Suc_diff_le flip: drop_Suc)
  moreover have "Suc 0 - n = 0" using assms(2) by simp
  ultimately show ?thesis using False by simp
qed

lemma window_snoc: "(if length (window ys @ [x]) > processed_limit then tl (window ys @ [x]) else window ys @ [x])
    = window (ys @ [x])"
  unfolding window_def by (rule drop_snoc_window) (simp_all add: processed_limit_def)

lemma window_short: "length xs \<le> processed_limit \<Longrightarrow> window xs = xs"
  by (simp add: window_def)

lemma window_member: "length ys < processed_limit \<Longrightarrow> x \<in> set (window (xs @ x # ys))"
  by (simp add: window_def)

lemma remember_window:
  assumes "replay_of msg s = None" "cs_processed s1 = cs_processed s" "snd msg = Some k" "cs_processed s = window ys"
  shows "cs_processed (remember msg s1) = window (ys @ [(k, msg, event_of (fst msg))])"
  using remember_new [OF assms(1,2)] assms(3,4) window_snoc [of ys "(k, msg, event_of (fst msg))"] by (simp add: Let_def)

lemma handle_message_window:
  assumes "handle_message msg s = Inr s'" "window_ok B s"
  shows "window_ok B s'"
proof (cases "replay_of msg s")
  case None
  then obtain s1 where s1: "apply_body (fst msg) (snd msg) s = Inr s1"
      "s' = put [Emit (Accepted (event_of (fst msg)) (snd msg) False)] (remember msg s1)"
    using assms(1) by (auto simp: handle_message_def guard_simps)
  have ev: "events (cs_out (remember msg s1)) = events (cs_out s)"
    using events_apply_body [OF s1(1)] by (simp add: remember_fields)
  obtain xs where xs: "cs_processed s = window (fst B @ xs)" "accepted_ids s = snd B @ map fst xs"
    using assms(2) by (auto simp: window_ok_def)
  show ?thesis
  proof (cases "snd msg")
    case None
    then show ?thesis
      using assms(2) ev remember_new [OF \<open>replay_of msg s = None\<close> processed_apply_body [OF s1(1)]]
      by (simp add: window_ok_def accepted_ids_def s1(2))
  next
    case (Some k)
    let ?x = "(k, msg, event_of (fst msg))"
    have "cs_processed s' = window (fst B @ (xs @ [?x]))"
      using remember_window [OF None processed_apply_body [OF s1(1)] Some xs(1)] by (simp add: s1(2))
    moreover have "accepted_ids s' = snd B @ map fst (xs @ [?x])"
      using ev Some xs(2) by (simp add: accepted_ids_def s1(2))
    ultimately show ?thesis unfolding window_ok_def by blast
  qed
next
  case (Some p)
  then obtain old ev where "p = (old, ev)" by (cases p)
  with Some assms(1) have "s' = put [Emit (Accepted ev (snd msg) True)] s" by (auto simp: handle_message_def guard_simps)
  with assms(2) show ?thesis by (cases "snd msg") (simp_all add: window_ok_def accepted_ids_def)
qed

lemma remove1_subseq: "subseq (remove1 x xs) xs"
  by (induction xs) auto

lemma handle_message_flow:
  assumes "handle_message msg s = Inr s'"
  shows "flow_ok s \<Longrightarrow> flow_ok s'" "flow_complete s \<Longrightarrow> flow_complete s'"
proof -
  have "(flow_ok s \<longrightarrow> flow_ok s') \<and> (flow_complete s \<longrightarrow> flow_complete s')"
  proof (cases "replay_of msg s")
    case None
    then obtain s1 where s1: "apply_body (fst msg) (snd msg) s = Inr s1"
        "s' = put [Emit (Accepted (event_of (fst msg)) (snd msg) False)] (remember msg s1)"
      using assms(1) by (auto simp: handle_message_def guard_simps)
    have out: "cs_out s' = cs_out s1 @ [Emit (Accepted (event_of (fst msg)) (snd msg) False)]" "cs_steering s' = cs_steering s1"
      by (simp_all add: s1(2) remember_fields) (auto simp: remember_def Let_def split: option.splits)
    then have flow: "flow s' = flow s1" by (simp add: flow_def)
    have ev: "events (cs_out s') = events (cs_out s) @ [Accepted (event_of (fst msg)) (snd msg) False]"
      using events_apply_body [OF s1(1)] by (simp add: out)
    note acc = accepted_steering_def removals_def ev
    show ?thesis
    proof (cases "fst msg")
      case (Msg_steer x m)
      then show ?thesis using flow_apply_body [OF s1(1)] flow
        by (cases "snd msg") (simp_all add: flow_ok_def flow_complete_def acc list_emb_append_mono)
    next
      case (Msg_remove k)
      then have f: "flow s' = delivered (cs_out s) @ remove1 (the (map_of (cs_active s) k)) (cs_steering s)"
        using flow_apply_body [OF s1(1)] flow by simp
      then have "subseq (flow s') (flow s)" by (simp add: flow_def remove1_subseq list_emb_append_mono)
      moreover have "length (flow s) \<le> Suc (length (flow s'))"
        unfolding f by (simp add: flow_def length_remove1) linarith
      ultimately show ?thesis
        using Msg_remove subseq_order.trans [of "flow s'" "flow s" "accepted_steering s"]
        by (cases "snd msg") (auto simp: flow_ok_def flow_complete_def acc)
    qed (use flow_apply_body [OF s1(1)] flow in \<open>cases "snd msg"; simp add: flow_ok_def flow_complete_def acc\<close>)+
  next
    case (Some p)
    then obtain old ev where "p = (old, ev)" by (cases p)
    with Some assms(1) have s': "s' = put [Emit (Accepted ev (snd msg) True)] s" by (auto simp: handle_message_def guard_simps)
    have "steering_in (Accepted ev r True) = []" "removal_in (Accepted ev r True) = 0" for r by (cases ev; simp)+
    then show ?thesis by (simp add: s' flow_ok_def flow_complete_def flow_def accepted_steering_def removals_def)
  qed
  then show "flow_ok s \<Longrightarrow> flow_ok s'" "flow_complete s \<Longrightarrow> flow_complete s'" by blast+
qed

text \<open>The three facts together, kept by every operation but the end of the input.\<close>

definition log_ok ::
  "(string \<times> control_message \<times> event_body) list \<times> string list \<Rightarrow> bool \<Rightarrow> control \<Rightarrow> bool" where
  "log_ok B b s \<longleftrightarrow> window_ok B s \<and> flow_ok s \<and> (b \<longrightarrow> flow_complete s)"

lemma log_cong:
  assumes "log_ok B b s" "cs_processed s' = cs_processed s" "events (cs_out s') = events (cs_out s)" "flow s' = flow s"
  shows "log_ok B b s'"
  using assms by (simp add: log_ok_def window_ok_def flow_ok_def flow_complete_def accepted_ids_def
      accepted_steering_def removals_def)

lemma log_handle_line: "log_ok B b s \<Longrightarrow> log_ok B b (handle_line env l s)"
proof (rule handle_line_cases [where P = "log_ok B b"])
  assume ok: "log_ok B b s"
  show "log_ok B b s'" if "s' = s" for s' using ok that by simp
  have u: "log_ok B b (s\<lparr>cs_uuids := Suc (cs_uuids s)\<rparr>)" by (rule log_cong [OF ok]) (simp_all add: flow_def)
  then show "log_ok B b s'" if "handle_message msg (s\<lparr>cs_uuids := Suc (cs_uuids s)\<rparr>) = Inr s'" for msg s'
    using handle_message_window [OF that] handle_message_flow [OF that] by (simp add: log_ok_def)
  show "log_ok B b (put [Emit (Invalid e r)] (s\<lparr>cs_uuids := Suc (cs_uuids s)\<rparr>))" for e r
    using ok by (simp add: log_ok_def window_ok_def flow_ok_def flow_complete_def accepted_ids_def
      accepted_steering_def removals_def flow_def)
qed

lemma log_cut_lines: "log_ok B b s \<Longrightarrow> log_ok B b (cut_lines env s)"
proof (induction env s rule: cut_lines.induct)
  case (1 env s)
  have buf: "log_ok B b (s\<lparr>cs_buffer := x\<rparr>)" for x by (rule log_cong [OF "1.prems"]) (simp_all add: flow_def)
  show ?case
  proof (cases "line_feed \<in> set (cs_buffer s)")
    case True
    with "1.IH" [OF True refl refl log_handle_line [OF buf]] show ?thesis
      by (subst cut_lines.simps) (simp add: Let_def)
  next
    case False
    with "1.prems" show ?thesis by (subst cut_lines.simps) simp
  qed
qed

lemma log_handle_data: "log_ok B b s \<Longrightarrow> log_ok B b (handle_data env c s)"
  unfolding handle_data_def by (rule log_cut_lines) (erule log_cong; simp add: flow_def)

lemma log_finish:
  assumes "log_ok B b s" "\<not> cs_paused s" "xs = [] \<or> xs = cs_steering s" "ys = (if xs = [] then cs_steering s else [])"
    and "s2 = deny_tool d (deny_shell d (resolve_steering xs (resolve_resume (s\<lparr>cs_steering := ys\<rparr>))))"
  shows "log_ok B (b \<and> (xs = [] \<or> cs_waiting s \<noteq> [])) s2"
proof -
  have p: "cs_processed s2 = cs_processed s" "events (cs_out s2) = events (cs_out s)"
    by (simp_all add: assms(5)) (simp add: line_defs)
  have f: "flow s2 = (if xs = [] \<or> cs_waiting s \<noteq> [] then flow s else delivered (cs_out s))"
    using assms(2-4) by (auto simp: assms(5) flow_def) (auto simp: resolve_steering_def resolve_resume_def)
  show ?thesis
  proof (cases "xs = [] \<or> cs_waiting s \<noteq> []")
    case True
    then show ?thesis using log_cong [OF assms(1) p] f by simp
  next
    case False
    then have "flow s2 = delivered (cs_out s)" using f by simp
    then have "subseq (flow s2) (flow s)" by (simp only: flow_def list_emb_prefix subseq_order.refl)
    then show ?thesis
      using False assms(1) p subseq_order.trans [of "flow s2" "flow s" "accepted_steering s"]
      by (auto simp: log_ok_def window_ok_def flow_ok_def accepted_ids_def accepted_steering_def)
  qed
qed

lemma log_weaken: "log_ok B b s \<Longrightarrow> log_ok B False s"
  by (simp add: log_ok_def)

lemma log_handle_end:
  assumes "log_ok B b s"
  shows "log_ok B False (handle_end env s)"
proof -
  define s2 where "s2 = (let l = chomp (cs_buffer s); s1 = s\<lparr>cs_ended := True, cs_buffer := []\<rparr> in
     (if js_trim l \<noteq> [] then handle_line env l s1 else s1))"
  have "log_ok B b (s\<lparr>cs_ended := True, cs_buffer := []\<rparr>)" by (rule log_cong [OF assms]) (simp_all add: flow_def)
  then have "log_ok B b s2" by (auto simp: s2_def Let_def intro: log_handle_line)
  then have "log_ok B b (s2\<lparr>cs_paused := False\<rparr>)" by (rule log_cong) (simp_all add: flow_def)
  from log_finish [OF this, of "cs_steering s2" _ "handle_end env s" Stream_ended] show ?thesis
    by (intro log_weaken) (auto simp: handle_end_def s2_def Let_def deliver_resume)
qed

lemma log_close:
  assumes "log_ok B b s"
  shows "log_ok B b (close_stream s)"
proof -
  define u where "u = s\<lparr>cs_started := False, cs_ended := True, cs_buffer := [], cs_paused := False\<rparr>"
  have u: "log_ok B b u" by (rule log_cong [OF assms]) (simp_all add: u_def flow_def)
  have e: "close_stream s = deny_tool Stream_closed (deny_shell Stream_closed
      (resolve_steering [] (resolve_resume (u\<lparr>cs_steering := cs_steering s\<rparr>))))"
    by (simp add: close_stream_def u_def)
  have "log_ok B (b \<and> ([] = ([]::string list) \<or> cs_waiting u \<noteq> [])) (close_stream s)"
    by (rule log_finish [OF u _ _ _ e]) (simp_all add: u_def)
  then show ?thesis by simp
qed

lemma log_take_all: "log_ok B b s \<Longrightarrow> log_ok B b (take_all n s)"
  by (erule log_cong) (simp_all add: take_all_def flow_def)

lemma log_put_empty: "log_ok B b s \<Longrightarrow> log_ok B b (put [Steered [n] []] s)"
  by (erule log_cong) (simp_all add: flow_def)

lemma log_wait_more: "log_ok B b s \<Longrightarrow> log_ok B b (wait_more n g s)"
  by (auto simp: wait_more_def Let_def log_take_all log_put_empty) (erule log_cong; simp add: flow_def)

lemma log_run_ready: "log_ok B b s \<Longrightarrow> log_ok B b (run_ready s)"
proof -
  assume ok: "log_ok B b s"
  have "log_ok B b (s\<lparr>cs_ready := rs\<rparr>)" for rs by (rule log_cong [OF ok]) (simp_all add: flow_def)
  then show ?thesis
    using ok by (auto simp: run_ready_def intro: log_take_all log_wait_more split: list.splits caller_kind.splits)
qed

lemma log_abort: "log_ok B b s \<Longrightarrow> log_ok B b (abort_signal g s)"
  by (erule log_cong) (simp_all add: abort_signal_def Let_def flow_def silent_map)

lemma log_call_shell: "log_ok B b s \<Longrightarrow> log_ok B b (call_shell k g s)"
  by (erule log_cong) (auto simp: call_shell_def Let_def flow_def split: option.splits)

lemma log_call_tool: "log_ok B b s \<Longrightarrow> log_ok B b (call_tool k g s)"
  by (erule log_cong) (auto simp: call_tool_def Let_def flow_def split: option.splits)

lemma log_call_steering: "log_ok B b s \<Longrightarrow> log_ok B b (call_steering k s)"
  by (erule log_cong) (auto simp: call_steering_def Let_def flow_def)

lemma log_start: "log_ok B b s \<Longrightarrow> log_ok B b (start_stream s)"
  by (erule log_cong) (auto simp: start_stream_def flow_def)

lemma log_perform: "log_ok B b s \<Longrightarrow> log_ok B (b \<and> op \<noteq> Op_end) (perform env op s)"
proof (cases op)
  case Op_handler
  then show "log_ok B b s \<Longrightarrow> ?thesis" by simp (erule log_cong; simp add: flow_def)
qed (auto simp: log_start log_handle_data log_handle_end log_close log_call_steering log_run_ready log_call_shell
    log_call_tool log_abort dest: log_weaken)

lemma log_run: "log_ok B b s \<Longrightarrow> log_ok B (b \<and> Op_end \<notin> set ops) (run_control env ops s)"
proof (induction ops arbitrary: b s)
  case (Cons op ops)
  have "log_ok B ((b \<and> op \<noteq> Op_end) \<and> Op_end \<notin> set ops) (run_control env ops (perform env op s))"
    by (rule Cons.IH [OF log_perform [OF Cons.prems]])
  moreover have "(b \<and> Op_end \<notin> set (op # ops)) = ((b \<and> op \<noteq> Op_end) \<and> Op_end \<notin> set ops)" by auto
  moreover have "run_control env (op # ops) s = run_control env ops (perform env op s)" by (simp add: run_control_def)
  ultimately show ?case by (simp only:)
qed (simp add: run_control_def)

lemma log_new: "log_ok ([], []) b (new_control initial)"
  by (simp add: log_ok_def window_ok_def window_def flow_ok_def flow_complete_def new_control_def accepted_ids_def
      accepted_steering_def removals_def flow_def)

lemma log_here: "log_ok B b s \<Longrightarrow> length (cs_processed s) \<le> processed_limit \<Longrightarrow> log_ok (cs_processed s, accepted_ids s) b s"
  by (simp add: log_ok_def window_ok_def window_short)

section \<open>Lines of the input\<close>

text \<open>The complete lines of a text and what follows the last line feed.\<close>

fun text_lines :: "string \<Rightarrow> string list \<times> string" where
  "text_lines [] = ([], [])"
| "text_lines (c # cs) = (let (ls, r) = text_lines cs in
     if c = line_feed then ([] # ls, r)
     else case ls of [] \<Rightarrow> ([], c # r) | l # ls' \<Rightarrow> ((c # l) # ls', r))"

lemma text_lines_none: "line_feed \<notin> set xs \<Longrightarrow> text_lines xs = ([], xs)"
  by (induction xs) auto

lemma text_lines_some:
  "line_feed \<in> set xs \<Longrightarrow> text_lines xs = (takeWhile (\<lambda>c. c \<noteq> line_feed) xs
      # fst (text_lines (drop (Suc (length (takeWhile (\<lambda>c. c \<noteq> line_feed) xs))) xs)),
     snd (text_lines (drop (Suc (length (takeWhile (\<lambda>c. c \<noteq> line_feed) xs))) xs)))"
  by (induction xs) (auto simp: case_prod_unfold Let_def)

lemma cut_lines_fold:
  "cut_lines env s = foldl (\<lambda>s l. handle_line env (chomp l) s)
     (s\<lparr>cs_buffer := snd (text_lines (cs_buffer s))\<rparr>) (fst (text_lines (cs_buffer s)))"
proof (induction env s rule: cut_lines.induct)
  case (1 env s)
  show ?case
  proof (cases "line_feed \<in> set (cs_buffer s)")
    case True
    define l where "l = takeWhile (\<lambda>c. c \<noteq> line_feed) (cs_buffer s)"
    define s' where "s' = s\<lparr>cs_buffer := drop (Suc (length l)) (cs_buffer s)\<rparr>"
    let ?t = "text_lines (drop (Suc (length l)) (cs_buffer s))"
    have sp: "text_lines (cs_buffer s) = (l # fst ?t, snd ?t)"
      using text_lines_some [OF True] by (simp add: l_def)
    have step: "cut_lines env s = cut_lines env (handle_line env (chomp l) s')"
      using True by (subst cut_lines.simps) (simp add: l_def s'_def Let_def)
    have "(handle_line env (chomp l) s')\<lparr>cs_buffer := snd ?t\<rparr> = handle_line env (chomp l) (s\<lparr>cs_buffer := snd ?t\<rparr>)"
      by (simp add: handle_line_buffer s'_def)
    with "1.IH" [OF True l_def s'_def] show ?thesis unfolding step sp by (simp add: s'_def)
  next
    case False
    then show ?thesis by (subst cut_lines.simps) (simp add: text_lines_none)
  qed
qed

lemma phase_handle_data [simp]:
  "cs_started (handle_data env c s) = cs_started s" "cs_ended (handle_data env c s) = cs_ended s"
proof -
  have "cs_started (foldl (\<lambda>s l. handle_line env (chomp l) s) s ls) = cs_started s
      \<and> cs_ended (foldl (\<lambda>s l. handle_line env (chomp l) s) s ls) = cs_ended s" for s and ls
    by (induction ls arbitrary: s) simp_all
  then show "cs_started (handle_data env c s) = cs_started s" "cs_ended (handle_data env c s) = cs_ended s"
    by (simp_all add: handle_data_def cut_lines_fold)
qed

lemma perform_chunks: "perform env (Op_chunk b) (perform env (Op_chunk a) s) = perform env (Op_chunk (a @ b)) s"
  by (simp add: handle_data_append)

section \<open>An operation as a sequence of lines\<close>

text \<open>The lines an operation handles, and the state in which line \<open>n\<close> of them is handled.\<close>

definition input_lines :: "control_op \<Rightarrow> control \<Rightarrow> string list" where
  "input_lines op s = (if cs_started s \<and> \<not> cs_ended s then
     (case op of Op_chunk c \<Rightarrow> map chomp (fst (text_lines (cs_buffer s @ c)))
        | Op_end \<Rightarrow> [chomp (cs_buffer s)] | _ \<Rightarrow> []) else [])"

definition handle_lines :: "control_env \<Rightarrow> string list \<Rightarrow> control \<Rightarrow> control" where
  "handle_lines env ls s = foldl (\<lambda>s l. handle_line env l s) s ls"

definition line_state :: "control_env \<Rightarrow> control_op \<Rightarrow> control \<Rightarrow> nat \<Rightarrow> control" where
  "line_state env op s n = handle_lines env (take n (input_lines op s)) s"

lemma handle_lines_simps [simp]:
  "handle_lines env [] s = s" "handle_lines env (ls @ ms) s = handle_lines env ms (handle_lines env ls s)"
  "handle_lines env (l # ls) s = handle_lines env ls (handle_line env l s)"
  by (simp_all add: handle_lines_def)

lemma handle_lines_buffer: "handle_lines env ls (s\<lparr>cs_buffer := x\<rparr>) = (handle_lines env ls s)\<lparr>cs_buffer := x\<rparr>"
  by (induction ls arbitrary: s) (simp_all add: handle_line_buffer)

text \<open>A line does not look at the end of the input either.\<close>

lemma ended_helper_update:
  "resolve_resume (s\<lparr>cs_ended := x\<rparr>) = (resolve_resume s)\<lparr>cs_ended := x\<rparr>"
  "put ys (s\<lparr>cs_ended := x\<rparr>) = (put ys s)\<lparr>cs_ended := x\<rparr>"
  by (simp_all add: resolve_resume_def put_def)

lemma apply_body_ended:
  "apply_body b r (s\<lparr>cs_ended := x\<rparr>) = map_sum id (\<lambda>s. s\<lparr>cs_ended := x\<rparr>) (apply_body b r s)"
  by (cases b) (simp_all add: line_defs remove_steering_def put_def ensure_def split: option.splits)

lemma remember_ended: "remember msg (s\<lparr>cs_ended := x\<rparr>) = (remember msg s)\<lparr>cs_ended := x\<rparr>"
  by (simp add: remember_def Let_def split: option.splits)

lemma handle_message_ended:
  "handle_message msg (s\<lparr>cs_ended := x\<rparr>) = map_sum id (\<lambda>s. s\<lparr>cs_ended := x\<rparr>) (handle_message msg s)"
proof (cases "replay_of msg s")
  case None
  then show ?thesis
    by (cases "apply_body (fst msg) (snd msg) s")
      (simp_all add: handle_message_def replay_of_def apply_body_ended remember_ended ended_helper_update)
next
  case (Some p)
  then show ?thesis
    by (cases p) (simp add: handle_message_def replay_of_def ensure_def ended_helper_update)
qed

lemma handle_line_ended: "handle_line env l (s\<lparr>cs_ended := x\<rparr>) = (handle_line env l s)\<lparr>cs_ended := x\<rparr>"
proof -
  let ?s = "s\<lparr>cs_uuids := Suc (cs_uuids s)\<rparr>"
  have c: "(s\<lparr>cs_ended := x\<rparr>)\<lparr>cs_uuids := Suc (cs_uuids s)\<rparr> = ?s\<lparr>cs_ended := x\<rparr>" by simp
  show ?thesis
  proof (cases "parse_control_message (ce_uuid env (cs_uuids s)) (ce_parse env l)")
    case (Inl e)
    then show ?thesis by (simp add: handle_line_def Let_def put_def)
  next
    case (Inr msg)
    then show ?thesis
      using handle_message_ended [where msg = msg and s = ?s and x = x]
      by (cases "handle_message msg ?s") (simp_all add: handle_line_def Let_def c ended_helper_update)
  qed
qed

lemma handle_data_lines:
  "handle_data env c s = (handle_lines env (map chomp (fst (text_lines (cs_buffer s @ c)))) s)
     \<lparr>cs_buffer := snd (text_lines (cs_buffer s @ c))\<rparr>"
proof -
  have f: "foldl (\<lambda>s l. handle_line env (chomp l) s) t ls = handle_lines env (map chomp ls) t" for t ls
    by (induction ls arbitrary: t) simp_all
  show ?thesis
    by (simp add: handle_data_def cut_lines_fold [of env "s\<lparr>cs_buffer := cs_buffer s @ c\<rparr>"] f
        flip: handle_lines_buffer)
qed

lemma handle_end_line:
  "handle_end env s = deny_tool Stream_ended (deny_shell Stream_ended (deliver_steering (resolve_resume
     ((handle_line env (chomp (cs_buffer s)) s)\<lparr>cs_ended := True, cs_buffer := [], cs_paused := False\<rparr>))))"
proof -
  have "(if js_trim l \<noteq> [] then handle_line env l (s\<lparr>cs_ended := True, cs_buffer := []\<rparr>)
      else s\<lparr>cs_ended := True, cs_buffer := []\<rparr>) = (handle_line env l s)\<lparr>cs_ended := True, cs_buffer := []\<rparr>" for l
  proof -
    have "(if js_trim l \<noteq> [] then handle_line env l t else t) = handle_line env l t" for t
      by (simp add: handle_line_def)
    then show ?thesis by (simp add: handle_line_ended handle_line_buffer)
  qed
  then show ?thesis by (simp add: handle_end_def Let_def)
qed

lemma line_state_inv:
  assumes "line_inv s" shows "line_inv (line_state env op s n)"
proof -
  have "line_inv (handle_lines env ls s)" for ls
    using assms by (induction ls arbitrary: s) (simp_all add: handle_line_inv)
  then show ?thesis by (simp add: line_state_def)
qed

lemma log_handle_lines: "log_ok B b s \<Longrightarrow> log_ok B b (handle_lines env ls s)"
  by (induction ls arbitrary: s) (simp_all add: log_handle_line)

lemma log_line_state: "log_ok B b s \<Longrightarrow> log_ok B b (line_state env op s n)"
  by (simp add: line_state_def log_handle_lines)

lemma log_end: "log_ok B b s \<Longrightarrow> log_ok B False (deny_tool d (deny_shell d (deliver_steering (resolve_resume
     (s\<lparr>cs_ended := True, cs_buffer := [], cs_paused := False\<rparr>)))))"
proof -
  assume ok: "log_ok B b s"
  let ?u = "s\<lparr>cs_ended := True, cs_buffer := [], cs_paused := False\<rparr>"
  have "log_ok B b ?u" by (rule log_cong [OF ok]) (simp_all add: flow_def)
  from log_finish [OF this, of "cs_steering s" _ "deny_tool d (deny_shell d (deliver_steering (resolve_resume ?u)))" d]
  show ?thesis by (intro log_weaken) (auto simp: deliver_resume)
qed

text \<open>What holds once one of its lines has been handled holds when the operation is done.\<close>

lemma line_state_Suc:
  "n < length (input_lines op s) \<Longrightarrow>
     line_state env op s (Suc n) = handle_line env (input_lines op s ! n) (line_state env op s n)"
  by (simp add: line_state_def take_Suc_conv_app_nth)

lemma log_rest:
  assumes "n < length (input_lines op s)" "log_ok B b (line_state env op s (Suc n))"
  shows "log_ok B False (perform env op s)"
proof -
  have open_input: "cs_started s" "\<not> cs_ended s"
    using assms(1) by (auto simp: input_lines_def split: if_splits)
  show ?thesis
  proof (cases op)
    case (Op_chunk c)
    let ?ls = "input_lines op s" and ?r = "snd (text_lines (cs_buffer s @ c))"
    have ls: "?ls = map chomp (fst (text_lines (cs_buffer s @ c)))"
      using open_input Op_chunk by (simp add: input_lines_def)
    have "handle_lines env ?ls s = handle_lines env (drop (Suc n) ?ls) (line_state env op s (Suc n))"
      unfolding line_state_def by (metis append_take_drop_id handle_lines_simps(2))
    then have "log_ok B b (handle_lines env ?ls s)" using log_handle_lines [OF assms(2)] by simp
    then have "log_ok B b ((handle_lines env ?ls s)\<lparr>cs_buffer := ?r\<rparr>)" by (rule log_cong) (simp_all add: flow_def)
    then show ?thesis
      using open_input Op_chunk ls by (simp add: handle_data_lines) (rule log_weaken)
  next
    case Op_end
    have "input_lines op s = [chomp (cs_buffer s)]" using open_input Op_end by (simp add: input_lines_def)
    then have "line_state env op s (Suc n) = handle_line env (chomp (cs_buffer s)) s"
      using assms(1) by (simp add: line_state_def)
    then show ?thesis using open_input Op_end log_end assms(2) by (simp add: handle_end_line)
  qed (use assms(1) in \<open>simp_all add: input_lines_def split: if_splits\<close>)
qed

section \<open>Receivers\<close>

text \<open>Who took part in a delivery, and that a delivery of something has receivers.\<close>

definition receivers :: "control_output list \<Rightarrow> nat list" where
  "receivers out = concat (map (\<lambda>x. case x of Steered ns xs \<Rightarrow> ns | _ \<Rightarrow> []) out)"

definition received :: "control_output \<Rightarrow> bool" where
  "received x \<longleftrightarrow> (case x of Steered ns xs \<Rightarrow> xs = [] \<or> ns \<noteq> [] | _ \<Rightarrow> True)"

definition all_received :: "control \<Rightarrow> bool" where
  "all_received s \<longleftrightarrow> list_all received (cs_out s)"

lemma distinct_submset:
  assumes "mset xs \<subseteq># mset ys" "distinct ys" shows "distinct xs"
proof -
  have "count (mset ys) a \<le> 1" for a
    using assms(2) by (cases "a \<in> set ys") (simp_all add: distinct_count_atmost_1 count_mset_0_iff)
  then have "count (mset xs) a \<le> 1" for a
    using mset_subset_eq_count [OF assms(1), of a] le_trans by blast
  moreover have "count (mset xs) a = 0 \<longleftrightarrow> a \<notin> set xs" for a by (simp add: count_mset_0_iff)
  ultimately show ?thesis unfolding distinct_count_atmost_1 by (metis One_nat_def le_zero_eq le_Suc_eq)
qed

lemma receivers_answered: "mset (receivers out) \<subseteq># answered out"
proof (induction out)
  case Nil
  then show ?case by (simp add: receivers_def)
next
  case (Cons x out)
  have "mset (case x of Steered ns xs \<Rightarrow> ns | _ \<Rightarrow> []) \<subseteq># mset (answered_by x)" by (cases x) simp_all
  then show ?case using Cons by (simp add: receivers_def subset_mset.add_mono)
qed

lemma received_simps [simp]:
  "received (Emit e)" "received (Shell_answer n d r)" "received (Tool_answer n d r)" "received (Call_rejected n err)"
  "received (Runbook_started q)" "received (Steered ns []) " "received (Steered (n # ns) xs)"
  by (simp_all add: received_def)

lemma all_received_put [simp]: "all_received (put xs s) \<longleftrightarrow> all_received s \<and> list_all received xs"
  by (simp add: all_received_def)

lemma all_received_fields [simp]:
  "all_received (s\<lparr>cs_paused := p\<rparr>) = all_received s" "all_received (s\<lparr>cs_steering := q\<rparr>) = all_received s"
  "all_received (s\<lparr>cs_uuids := u\<rparr>) = all_received s" "all_received (s\<lparr>cs_buffer := x\<rparr>) = all_received s"
  "all_received (s\<lparr>cs_ready := rs\<rparr>) = all_received s" "all_received (s\<lparr>cs_ended := e\<rparr>) = all_received s"
  "all_received (s\<lparr>cs_stopped := b\<rparr>) = all_received s" "all_received (s\<lparr>cs_shell := a\<rparr>) = all_received s"
  "all_received (s\<lparr>cs_tool := t\<rparr>) = all_received s" "all_received (s\<lparr>cs_waiting := w\<rparr>) = all_received s"
  "all_received (s\<lparr>cs_calls := n\<rparr>) = all_received s" "all_received (s\<lparr>cs_model := m\<rparr>) = all_received s"
  "all_received (s\<lparr>cs_safety := f\<rparr>) = all_received s" "all_received (s\<lparr>cs_active := v\<rparr>) = all_received s"
  "all_received (s\<lparr>cs_processed := z\<rparr>) = all_received s" "all_received (s\<lparr>cs_handler := h\<rparr>) = all_received s"
  "all_received (s\<lparr>cs_started := st\<rparr>) = all_received s" "all_received (s\<lparr>cs_blocked := bl\<rparr>) = all_received s"
  "all_received (s\<lparr>cs_aborted := ab\<rparr>) = all_received s"
  by (simp_all add: all_received_def)

lemma received_callers: "ns \<noteq> [] \<Longrightarrow> received (Steered ns xs)"
  by (simp add: received_def)

lemma all_received_helpers [simp]:
  "all_received (resolve_resume s) = all_received s" "all_received (resolve_steering xs s) = all_received s"
  "all_received (deny_shell d s) = all_received s" "all_received (deny_tool d s) = all_received s"
  "all_received (remember msg s) = all_received s" "all_received (answer_shell k a s) = all_received s"
  "all_received (answer_tool k a s) = all_received s"
  by (auto simp: resolve_resume_def resolve_steering_def deny_shell_def deny_tool_def remember_def answer_shell_def
      answer_tool_def Let_def received_callers list_all_iff split: option.splits)

lemma all_received_deliver [simp]: "all_received (deliver_steering s) = all_received s"
  by (simp add: deliver_steering_def)

lemma all_received_apply_body: "apply_body b r s = Inr s' \<Longrightarrow> all_received s' = all_received s"
  by (cases b) (auto simp: guard_simps remove_steering_def stop_run_def resume_run_def accept_steering_def Let_def
      split: option.splits if_splits)

lemma all_received_handle_message: "handle_message msg s = Inr s' \<Longrightarrow> all_received s' = all_received s"
  by (auto simp: handle_message_def guard_simps dest: all_received_apply_body split: option.splits)

lemma all_received_handle_line [simp]: "all_received (handle_line env l s) = all_received s"
  by (rule handle_line_cases) (auto dest: all_received_handle_message)

lemma all_received_lines [simp]: "all_received (handle_lines env ls s) = all_received s"
  by (induction ls arbitrary: s) simp_all

lemma all_received_wait: "all_received (wait_more n g s) = all_received s" "all_received (take_all n s) = all_received s"
  by (simp_all add: wait_more_def take_all_def Let_def)

lemma all_received_perform: "all_received (perform env op s) = all_received s"
  by (cases op) (auto simp: start_stream_def handle_data_lines handle_end_line close_stream_def call_steering_def
      run_ready_def call_shell_def call_tool_def abort_signal_def Let_def all_received_wait list_all_iff
      split: list.splits caller_kind.splits option.splits)

lemma all_received_run: "all_received (run_control env ops (new_control initial))"
proof -
  have "all_received (foldl (\<lambda>s op. perform env op s) s ops) = all_received s" for s
    by (induction ops arbitrary: s) (simp_all add: all_received_perform)
  then show ?thesis by (simp add: run_control_def) (simp add: all_received_def new_control_def)
qed

end
