(* ===== verification/Control_Theorems.thy ===== *)
theory Control_Theorems
  imports Control_Log
begin

text \<open>
  The properties of the control stream: how chunks become lines, what a repeated request does, which
  steering reaches a caller, who may approve, and that every call is answered once.
\<close>

section \<open>Approvals\<close>

text \<open>The outputs that approve a request.\<close>

fun approving :: "control_output \<Rightarrow> bool" where
  "approving (Shell_answer n d r) = (d = Approved)"
| "approving (Tool_answer n d r) = (d = Approved)"
| "approving _ = False"

definition approvals :: "control_output list \<Rightarrow> control_output list" where
  "approvals out = filter approving out"

lemma approvals_simps [simp]:
  "approvals [] = []" "approvals (xs @ ys) = approvals xs @ approvals ys"
  "approvals (Emit e # xs) = approvals xs" "approvals (Steered ns zs # xs) = approvals xs"
  "approvals (Runbook_started q # xs) = approvals xs" "approvals (Call_rejected n r # xs) = approvals xs"
  "approvals (Shell_answer n Denied d # xs) = approvals xs" "approvals (Tool_answer n Denied d # xs) = approvals xs"
  "approvals (Shell_answer n Approved d # xs) = Shell_answer n Approved d # approvals xs"
  "approvals (Tool_answer n Approved d # xs) = Tool_answer n Approved d # approvals xs"
  by (simp_all add: approvals_def)

lemma approvals_denied: "approvals (map (\<lambda>x. Shell_answer (f x) Denied d) xs) = []"
  "approvals (map (\<lambda>x. Tool_answer (f x) Denied d) xs) = []" "approvals (map (\<lambda>x. Steered (g x) []) xs) = []"
  by (induction xs) simp_all

lemma approvals_helpers [simp]:
  "approvals (cs_out (deny_shell d s)) = approvals (cs_out s)" "approvals (cs_out (deny_tool d s)) = approvals (cs_out s)"
  "approvals (cs_out (resolve_steering xs s)) = approvals (cs_out s)"
  "approvals (cs_out (deliver_steering s)) = approvals (cs_out s)"
  by (simp_all add: deny_shell_def deny_tool_def resolve_steering_def deliver_steering_def approvals_denied case_prod_unfold)

lemma approvals_apply_body:
  assumes "apply_body b r s = Inr s'"
  shows "approvals (cs_out s') = approvals (cs_out s)
    @ (case b of Msg_shell k Approved \<Rightarrow> [Shell_answer (fst (the (map_of (cs_shell s) k))) Approved Researcher]
       | Msg_tool k Approved \<Rightarrow> [Tool_answer (fst (the (map_of (cs_tool s) k))) Approved Researcher] | _ \<Rightarrow> [])
    \<and> (case b of Msg_shell k d \<Rightarrow> map_of (cs_shell s) k \<noteq> None | Msg_tool k d \<Rightarrow> map_of (cs_tool s) k \<noteq> None | _ \<Rightarrow> True)"
  using assms
  by (cases b) (auto simp: guard_simps remove_steering_def stop_run_def resume_run_def accept_steering_def
      answer_shell_def answer_tool_def Let_def split: option.splits approval_decision.splits)

text \<open>The output answers the caller whose request the message approves.\<close>

definition authorised :: "control_body \<Rightarrow> control \<Rightarrow> control_output \<Rightarrow> bool" where
  "authorised b s x \<longleftrightarrow> (\<exists>k n g. b = Msg_shell k Approved \<and> (k, n, g) \<in> set (cs_shell s) \<and> x = Shell_answer n Approved Researcher)
     \<or> (\<exists>k n g. b = Msg_tool k Approved \<and> (k, n, g) \<in> set (cs_tool s) \<and> x = Tool_answer n Approved Researcher)"

lemma approvals_handle_message:
  assumes "handle_message msg s = Inr s'"
  shows "approvals (cs_out s') = approvals (cs_out s)
    \<or> (\<exists>x. authorised (fst msg) s x \<and> approvals (cs_out s') = approvals (cs_out s) @ [x])"
proof (cases "replay_of msg s")
  case None
  then obtain s1 where s1: "apply_body (fst msg) (snd msg) s = Inr s1"
      "s' = put [Emit (Accepted (event_of (fst msg)) (snd msg) False)] (remember msg s1)"
    using assms by (auto simp: handle_message_def guard_simps)
  then have "approvals (cs_out s') = approvals (cs_out s1)" by (simp add: remember_fields)
  then show ?thesis
    using approvals_apply_body [OF s1(1)] map_of_SomeD [of "cs_shell s"] map_of_SomeD [of "cs_tool s"]
    by (auto simp: authorised_def split: control_body.splits approval_decision.splits) force+
next
  case (Some p)
  with assms show ?thesis by (cases p) (auto simp: handle_message_def guard_simps)
qed

lemma authorised_uuids [simp]: "authorised b (s\<lparr>cs_uuids := u\<rparr>) x = authorised b s x"
  by (simp add: authorised_def)

lemma approvals_handle_line:
  "approvals (cs_out (handle_line env l s)) = approvals (cs_out s)
    \<or> (\<exists>b r x. parse_control_message (ce_uuid env (cs_uuids s)) (ce_parse env l) = Inr (b, r)
         \<and> authorised b s x \<and> approvals (cs_out (handle_line env l s)) = approvals (cs_out s) @ [x])"
  (is "?P (handle_line env l s)")
proof (rule handle_line_cases [where P = ?P])
  fix msg t
  assume p: "parse_control_message (ce_uuid env (cs_uuids s)) (ce_parse env l) = Inr msg"
    and t: "handle_message msg (s\<lparr>cs_uuids := Suc (cs_uuids s)\<rparr>) = Inr t"
  show "?P t" using approvals_handle_message [OF t] p by (cases msg) auto
qed simp_all

lemma approvals_handle_lines:
  "\<exists>xs. approvals (cs_out (handle_lines env ls s)) = approvals (cs_out s) @ map snd xs
     \<and> sorted_wrt (<) (map fst xs)
     \<and> (\<forall>(n, x)\<in>set xs. n < length ls
         \<and> (\<exists>b r. parse_control_message (ce_uuid env (cs_uuids (handle_lines env (take n ls) s)))
               (ce_parse env (ls ! n)) = Inr (b, r)
             \<and> authorised b (handle_lines env (take n ls) s) x))"
proof (induction ls rule: rev_induct)
  case Nil
  then show ?case by simp
next
  case (snoc l ls)
  let ?ok = "\<lambda>ls (n, x). n < length ls
         \<and> (\<exists>b r. parse_control_message (ce_uuid env (cs_uuids (handle_lines env (take n ls) s)))
               (ce_parse env (ls ! n)) = Inr (b, r)
             \<and> authorised b (handle_lines env (take n ls) s) x)"
  from snoc obtain xs where xs: "approvals (cs_out (handle_lines env ls s)) = approvals (cs_out s) @ map snd xs"
      "sorted_wrt (<) (map fst xs)" "\<forall>y\<in>set xs. ?ok ls y" by blast
  have more: "\<forall>y\<in>set xs. ?ok (ls @ [l]) y" using xs(3) by (auto simp: nth_append)
  show ?case
    using approvals_handle_line [of env l "handle_lines env ls s"]
  proof (elim disjE exE conjE)
    assume "approvals (cs_out (handle_line env l (handle_lines env ls s))) = approvals (cs_out (handle_lines env ls s))"
    then show ?thesis using xs(1,2) more by (intro exI [of _ xs]) simp
  next
    fix b r x
    assume x: "parse_control_message (ce_uuid env (cs_uuids (handle_lines env ls s))) (ce_parse env l) = Inr (b, r)"
      "authorised b (handle_lines env ls s) x"
      "approvals (cs_out (handle_line env l (handle_lines env ls s))) = approvals (cs_out (handle_lines env ls s)) @ [x]"
    have "?ok (ls @ [l]) (length ls, x)" using x(1,2) by auto
    moreover have "sorted_wrt (<) (map fst (xs @ [(length ls, x)]))"
      using xs(2,3) by (fastforce simp: sorted_wrt_append)
    ultimately show ?thesis
      using xs(1) more x(3) by (intro exI [of _ "xs @ [(length ls, x)]"]) simp
  qed
qed

section \<open>After the close\<close>

lemma run_ready_closed:
  assumes "\<not> cs_started s" "cs_ready s = x # rs"
  shows "cs_ready (run_ready s) = rs" "\<not> cs_started (run_ready s)" "cs_blocked (run_ready s) = cs_blocked s"
    "cs_waiting (run_ready s) = cs_waiting s" "cs_shell (run_ready s) = cs_shell s" "cs_tool (run_ready s) = cs_tool s"
    "cs_calls (run_ready s) = cs_calls s"
  using assms
  by (cases x; cases "snd x"; auto simp: run_ready_def take_all_def wait_more_def unavailable_def)+

lemma run_all_closed:
  "\<not> cs_started s \<Longrightarrow> let t = run_control env (replicate (length (cs_ready s)) Op_run) s in
     cs_ready t = [] \<and> cs_blocked t = cs_blocked s \<and> cs_waiting t = cs_waiting s \<and> cs_shell t = cs_shell s
     \<and> cs_tool t = cs_tool s \<and> cs_calls t = cs_calls s"
proof (induction "cs_ready s" arbitrary: s)
  case Nil
  then show ?case by (simp add: run_control_def)
next
  case (Cons x rs)
  note f = run_ready_closed [OF Cons.prems Cons.hyps(2) [symmetric]]
  have "run_control env (replicate (length (cs_ready s)) Op_run) s
      = run_control env (replicate (length (cs_ready (run_ready s))) Op_run) (run_ready s)"
    by (simp add: run_control_def f(1) flip: Cons.hyps(2))
  then show ?case using Cons.hyps(1) [of "run_ready s"] f by (simp add: Let_def)
qed

section \<open>Acceptance\<close>

text \<open>A line whose request id is accepted leaves its message as the last one remembered.\<close>

lemma accepted_line_remembered:
  assumes "line_inv s" "parse_control_message (ce_uuid env (cs_uuids s)) (ce_parse env l) = Inr (b, Some k)"
    and "accepted_ids (handle_line env l s) = accepted_ids s @ [k]"
  shows "\<exists>p. cs_processed (handle_line env l s) = p @ [(k, (b, Some k), event_of b)]"
proof -
  let ?s = "s\<lparr>cs_uuids := Suc (cs_uuids s)\<rparr>"
  have "handle_line env l s \<noteq> s" using assms(3) by auto
  then have l: "handle_line env l s = (case handle_message (b, Some k) ?s of Inr s' \<Rightarrow> s'
      | Inl e \<Rightarrow> put [Emit (Invalid e (request_id_from_line (ce_parse env l)))] ?s)"
    using assms(2) by (auto simp: handle_line_def Let_def split: if_splits)
  show ?thesis
  proof (cases "replay_of (b, Some k) ?s")
    case (Some p)
    then have "accepted_ids (handle_line env l s) = accepted_ids s"
      by (cases p) (simp add: l handle_message_def ensure_def accepted_ids_def)
    then show ?thesis using assms(3) by simp
  next
    case None
    show ?thesis
    proof (cases "apply_body b (Some k) ?s")
      case (Inl e)
      then have "accepted_ids (handle_line env l s) = accepted_ids s"
        using None by (simp add: l handle_message_def accepted_ids_def)
      then show ?thesis using assms(3) by simp
    next
      case (Inr s1)
      have "cs_processed (handle_line env l s) = cs_processed (remember (b, Some k) s1)"
        using None Inr by (simp add: l handle_message_def)
      moreover have "cs_processed ?s = window (cs_processed s)"
        using assms(1) by (simp add: line_inv_def window_short)
      ultimately show ?thesis
        using remember_window [OF None processed_apply_body [OF Inr] _ \<open>cs_processed ?s = window (cs_processed s)\<close>]
        by (simp add: window_def processed_limit_def)
    qed
  qed
qed

section \<open>Properties\<close>

text \<open>
  C29. However the input is cut into chunks, the stream ends in the same state with the same outputs;
  and a chunk is handled as the sequence of complete lines it completes, with the rest kept.
\<close>

theorem chunks_are_lines:
  "run_control env (map Op_chunk (c # cs)) s = perform env (Op_chunk (concat (c # cs))) s
   \<and> handle_data env c s = (let (ls, rest) = text_lines (cs_buffer s @ c) in
       foldl (\<lambda>s l. handle_line env (chomp l) s) (s\<lparr>cs_buffer := rest\<rparr>) ls)"
proof -
  have "foldl (\<lambda>s op. perform env op s) (perform env (Op_chunk c) s) (map Op_chunk cs)
      = perform env (Op_chunk (c @ concat cs)) s" for c
  proof (induction cs arbitrary: c)
    case (Cons d cs)
    from Cons.IH [of "c @ d"] show ?case by (simp only: list.map foldl.simps perform_chunks concat.simps append_assoc)
  qed simp
  then show ?thesis
    by (simp add: run_control_def handle_data_def cut_lines_fold [of env "s\<lparr>cs_buffer := cs_buffer s @ c\<rparr>"] case_prod_unfold Let_def)
qed

text \<open>
  C28. In every reachable state of the stream its maps have distinct keys and at most 256 requests are
  remembered; calls are held back only while the session is paused, and nobody waits for steering that
  could be handed over; once the run is stopped nobody waits for steering or an approval, and once the
  input is over nobody waits and nothing is held back; and every call is pending or has been answered,
  exactly once.
\<close>

theorem control_invariant:
  "control_inv (run_control env ops (new_control initial))
   \<and> pending (run_control env ops (new_control initial)) + answered (cs_out (run_control env ops (new_control initial)))
     = mset [0..<cs_calls (run_control env ops (new_control initial))]"
  using run_control_inv [OF new_control_inv, of env ops initial]
  by (simp add: control_inv_def line_inv_def calls_of_def all_calls_def)

text \<open>
  C32. A message whose request id was accepted is not applied again as long as no more than 256 ids
  have been accepted since, this one included: under its id the same message is answered by a replay
  of its event and changes nothing else, and any other message is refused.
\<close>

theorem replay_window:
  assumes "s0 = run_control env ops0 (new_control initial)"
    and "n < length (input_lines op s0)" "t = line_state env op s0 n" "l = input_lines op s0 ! n"
    and "parse_control_message (ce_uuid env (cs_uuids t)) (ce_parse env l) = Inr (b, Some k)"
    and "accepted_ids (handle_line env l t) = accepted_ids t @ [k]"
    and "s = run_control env ops (perform env op s0)" "length (accepted_ids s) \<le> length (accepted_ids t) + 256"
  shows "handle_message (b', Some k) s =
    (if b' = b then Inr (put [Emit (Accepted (event_of b) (Some k) True)] s) else Inl Reused_id)"
proof -
  have inv: "line_inv t" "control_inv s"
    using run_control_inv [OF new_control_inv] line_state_inv perform_inv run_control_inv
    by (auto simp: assms(1,3,7) control_inv_def)
  obtain p where p: "cs_processed (handle_line env l t) = p @ [(k, (b, Some k), event_of b)]"
    using accepted_line_remembered [OF inv(1) assms(5,6)] by blast
  let ?B = "(cs_processed (handle_line env l t), accepted_ids (handle_line env l t))"
  have "log_ok ?B False (handle_line env l t)"
    using log_here log_handle_line log_line_state log_weaken
      log_run [OF log_new [of True initial], of ops0 env] handle_line_inv [OF inv(1)]
    unfolding assms(1,3) line_inv_def by blast
  then have "log_ok ?B False (perform env op s0)"
    using log_rest [OF assms(2)] line_state_Suc [OF assms(2)] by (simp add: assms(3,4))
  then have "window_ok ?B s"
    using log_run [of ?B False "perform env op s0" ops env] by (simp add: assms(7) log_ok_def)
  then obtain xs where xs: "cs_processed s = window (p @ (k, (b, Some k), event_of b) # xs)"
      "accepted_ids s = accepted_ids t @ k # map fst xs"
    unfolding window_ok_def by (auto simp: p assms(6))
  then have "length xs < processed_limit" using assms(8) by (simp add: processed_limit_def)
  then have "(k, (b, Some k), event_of b) \<in> set (cs_processed s)" unfolding xs(1) by (rule window_member)
  then have "map_of (cs_processed s) k = Some ((b, Some k), event_of b)"
    using inv(2) by (simp add: control_inv_def line_inv_def keys_ok_def)
  then show ?thesis by (auto simp: handle_message_def replay_of_def ensure_def)
qed

text \<open>
  C30. Each accepted instruction is handed over at most once, in one delivery: the deliveries, followed
  by what is queued, are the accepted steering in its order, with nothing added or repeated.  A delivery of
  instructions reaches at least one caller, and all its callers get the same ones; no caller takes part in two
  deliveries.  As long as the input has not ended only as many instructions are missing as removals
  were accepted.
\<close>

theorem steering_conserved:
  assumes "s = run_control env ops (new_control initial)"
  shows "subseq (delivered (cs_out s) @ cs_steering s) (accepted_steering s)
    \<and> (\<forall>ns xs. Steered ns xs \<in> set (cs_out s) \<longrightarrow> xs = [] \<or> ns \<noteq> [])
    \<and> distinct (receivers (cs_out s))
    \<and> (Op_end \<notin> set ops \<longrightarrow>
        length (accepted_steering s) \<le> length (delivered (cs_out s) @ cs_steering s) + removals s)"
proof -
  have "answered (cs_out s) \<subseteq># mset [0..<cs_calls s]"
    using run_control_inv [OF new_control_inv, of env ops initial]
    unfolding assms control_inv_def line_inv_def calls_of_def all_calls_def by (metis mset_subset_eq_add_right)
  then have "mset (receivers (cs_out s)) \<subseteq># mset [0..<cs_calls s]"
    using receivers_answered subset_mset.order_trans by blast
  then have "distinct (receivers (cs_out s))" by (rule distinct_submset) simp
  moreover have "\<forall>ns xs. Steered ns xs \<in> set (cs_out s) \<longrightarrow> xs = [] \<or> ns \<noteq> []"
    using all_received_run [of env ops initial]
    by (force simp: assms all_received_def list_all_iff received_def)
  ultimately show ?thesis
    using log_run [OF log_new [of True initial], of ops env]
    by (simp add: assms log_ok_def flow_ok_def flow_complete_def flow_def)
qed

text \<open>
  C31. The end of the input discards steering that is queued while no caller waits for it: it was
  accepted and is never handed over.
\<close>

theorem end_discards_steering:
  assumes "cs_waiting s = []" "js_trim (chomp (cs_buffer s)) = []"
  shows "cs_steering (handle_end env s) = [] \<and> delivered (cs_out (handle_end env s)) = delivered (cs_out s)
    \<and> accepted_steering (handle_end env s) = accepted_steering s"
  using assms by (simp add: handle_end_def Let_def deliver_steering_def resolve_steering_def accepted_steering_def)

text \<open>
  C33. Only the researcher approves.  Whatever the operation, a chunk of input, its end, the close of
  the stream, an abort or a call, each output that approves a shell command or a tool comes from its
  own line of the input, which parses to an approval of the request its caller waits with in the state
  in which the line is handled.
\<close>

theorem approval_authorised:
  "\<exists>xs. approvals (cs_out (perform env op s)) = approvals (cs_out s) @ map snd xs
     \<and> sorted_wrt (<) (map fst xs)
     \<and> (\<forall>(n, x)\<in>set xs. n < length (input_lines op s)
         \<and> (\<exists>b r. parse_control_message (ce_uuid env (cs_uuids (line_state env op s n)))
               (ce_parse env (input_lines op s ! n)) = Inr (b, r)
             \<and> authorised b (line_state env op s n) x))"
proof -
  have outs: "approvals (cs_out (perform env op s)) = approvals (cs_out (handle_lines env (input_lines op s) s))"
    by (cases op) (auto simp: input_lines_def handle_data_lines handle_end_line start_stream_def close_stream_def
      call_steering_def run_ready_def take_all_def wait_more_def call_shell_def call_tool_def abort_signal_def
      approvals_denied Let_def split: list.splits caller_kind.splits option.splits)
  show ?thesis
    using approvals_handle_lines [of env "input_lines op s" s] unfolding outs line_state_def .
qed

text \<open>
  After the stream has been closed every call made so far is answered once the resolved promises
  have run.
\<close>

theorem close_answers_everyone:
  assumes "s = run_control env ops (new_control initial)"
  shows "answered (cs_out (run_control env (Op_close # replicate (length (cs_ready s) + length (cs_blocked s)) Op_run) s))
    = mset [0..<cs_calls s]"
proof -
  define t where "t = close_stream s"
  define u where "u = run_control env (replicate (length (cs_ready t)) Op_run) t"
  have t: "\<not> cs_started t" "cs_blocked t = []" "cs_waiting t = []" "cs_shell t = []" "cs_tool t = []"
    "cs_ready t = cs_ready s @ cs_blocked s" "cs_calls t = cs_calls s"
    by (auto simp: t_def close_stream_def line_defs)
  have "control_inv t" unfolding t_def assms by (intro close_inv run_control_inv new_control_inv)
  then have "control_inv u" unfolding u_def by (rule run_control_inv)
  then have "pending u + answered (cs_out u) = mset [0..<cs_calls u]"
    by (simp add: control_inv_def line_inv_def calls_of_def all_calls_def)
  moreover have "pending u = {#}" "cs_calls u = cs_calls s"
    using run_all_closed [OF t(1), of env] t(2-7) by (simp_all add: u_def Let_def pending_def)
  moreover have "run_control env (Op_close # replicate (length (cs_ready s) + length (cs_blocked s)) Op_run) s = u"
    by (simp add: run_control_def u_def t(6)) (simp add: t_def)
  ultimately show ?thesis by simp
qed

text \<open>
  C34. A message the parser accepts is well formed: its ids are trimmed, not empty and at most 200
  characters long, its instruction is not empty, a cell excludes a range of cells, the Daybreak flag
  goes with one provider, and steering always has a request id.
\<close>

theorem parsed_message_ok:
  assumes "parse_control_message uuid v = Inr (b, r)" "id_ok uuid"
  shows "body_ok b \<and> pred_option id_ok r \<and> (is_steer b \<longrightarrow> r \<noteq> None)"
  using assms by (auto simp: parse_control_message_def guard_simps parse_body_ok dest: parse_request_id_ok
      split: option.splits if_splits)

section \<open>Examples\<close>

text \<open>A session that received one steering message, and one with a caller and an approval request.\<close>

definition ex_steer :: json where
  "ex_steer = JObj [(''schemaVersion'', JInt 1), (''type'', JStr ''steer''), (''requestId'', JStr ''r1''),
     (''instruction'', JStr ''look'')]"

definition ex_control_env :: control_env where
  "ex_control_env = \<lparr>ce_parse = (\<lambda>l. if l = stringify ex_steer then Some ex_steer else None),
     ce_uuid = (\<lambda>n. CHR ''u'' # replicate n (CHR ''x''))\<rparr>"

definition ex_ops :: "control_op list" where
  "ex_ops = [Op_start, Op_chunk (stringify ex_steer @ [line_feed])]"

definition ex_calls :: "control_op list" where
  "ex_calls = [Op_start, Op_call Take, Op_shell ''a'' None]"

definition ex_session :: control where
  "ex_session = run_control ex_control_env ex_ops (new_control [])"

lemma ex_session_facts:
  "accepted_ids ex_session = [''r1'']" "cs_waiting ex_session = []" "cs_buffer ex_session = []"
  "delivered (cs_out ex_session) = []" "accepted_steering ex_session = [''look'']" "cs_steering ex_session = [''look'']"
  by code_simp+

lemma ex_calls_facts:
  "cs_calls (run_control ex_control_env ex_calls (new_control [])) = 2"
  "length (cs_ready (run_control ex_control_env ex_calls (new_control []))) = 1"
  "cs_blocked (run_control ex_control_env ex_calls (new_control [])) = []"
  by code_simp+

text \<open>The same message again is a replay, another one under its id is refused.\<close>

theorem replay_window_witness:
  "handle_message (Msg_steer ''look'' None, Some ''r1'') ex_session
     = Inr (put [Emit (Accepted (Steer_accepted ''look'') (Some ''r1'') True)] ex_session)
   \<and> handle_message (Msg_pause, Some ''r1'') ex_session = Inl Reused_id"
proof -
  let ?op = "Op_chunk (stringify ex_steer @ [line_feed])" and ?s0 = "run_control ex_control_env [Op_start] (new_control [])"
  let ?t = "line_state ex_control_env ?op ?s0 0" and ?l = "input_lines ?op ?s0 ! 0"
  have f: "length (input_lines ?op ?s0) = 1"
    "parse_control_message (ce_uuid ex_control_env (cs_uuids ?t)) (ce_parse ex_control_env ?l)
       = Inr (Msg_steer ''look'' None, Some ''r1'')"
    "accepted_ids ?t = []" "accepted_ids (handle_line ex_control_env ?l ?t) = [''r1'']"
    by code_simp+
  have s: "ex_session = run_control ex_control_env [] (perform ex_control_env ?op ?s0)"
    by (simp add: ex_session_def ex_ops_def run_control_def)
  have "0 < length (input_lines ?op ?s0)" "accepted_ids (handle_line ex_control_env ?l ?t) = accepted_ids ?t @ [''r1'']"
    "length (accepted_ids ex_session) \<le> length (accepted_ids ?t) + 256"
    by (simp_all add: f ex_session_facts)
  from replay_window [OF refl this(1) refl refl f(2) this(2) s this(3)] show ?thesis by simp
qed

theorem steering_conserved_witness:
  "length (accepted_steering ex_session) \<le> length (delivered (cs_out ex_session) @ cs_steering ex_session) + removals ex_session"
proof -
  have "Op_end \<notin> set ex_ops" by (simp add: ex_ops_def)
  then show ?thesis using steering_conserved [OF ex_session_def] by blast
qed

text \<open>A caller waits for an approval, and a line approves it.\<close>

definition ex_approve :: json where
  "ex_approve = JObj [(''schemaVersion'', JInt 1), (''type'', JStr ''resolve_shell_approval''),
     (''approvalRequestId'', JStr ''a''), (''decision'', JStr ''approved'')]"

definition ex_approval_env :: control_env where
  "ex_approval_env = \<lparr>ce_parse = (\<lambda>l. if l = stringify ex_approve then Some ex_approve else None),
     ce_uuid = (\<lambda>n. CHR ''u'' # replicate n (CHR ''x''))\<rparr>"

definition ex_asking :: control where
  "ex_asking = run_control ex_approval_env [Op_start, Op_shell ''a'' None] (new_control [])"

definition ex_approving :: control_op where
  "ex_approving = Op_chunk (stringify ex_approve @ [line_feed])"

lemma ex_asking_facts:
  "approvals (cs_out ex_asking) = []"
  "approvals (cs_out (perform ex_approval_env ex_approving ex_asking)) = [Shell_answer 0 Approved Researcher]"
  "length (input_lines ex_approving ex_asking) = 1"
  by code_simp+

theorem approval_authorised_witness:
  "\<exists>b. authorised b (line_state ex_approval_env ex_approving ex_asking 0) (Shell_answer 0 Approved Researcher)"
proof -
  obtain xs where xs: "[Shell_answer 0 Approved Researcher] = map snd xs"
      "\<forall>(n, x)\<in>set xs. n < 1 \<and> (\<exists>b. authorised b (line_state ex_approval_env ex_approving ex_asking n) x)"
    using approval_authorised [of ex_approval_env ex_approving ex_asking] unfolding ex_asking_facts by fastforce
  then show ?thesis by (cases xs) auto
qed

theorem end_discards_steering_witness:
  "cs_steering ex_session = [''look''] \<and> cs_steering (handle_end ex_control_env ex_session) = []
   \<and> delivered (cs_out (handle_end ex_control_env ex_session)) = []
   \<and> accepted_steering (handle_end ex_control_env ex_session) = [''look'']"
proof -
  have "js_trim (chomp (cs_buffer ex_session)) = []" by (simp add: ex_session_facts chomp_def)
  then show ?thesis
    using end_discards_steering [OF ex_session_facts(2), of ex_control_env] by (simp add: ex_session_facts)
qed

theorem close_answers_everyone_witness:
  "answered (cs_out (run_control ex_control_env [Op_close, Op_run]
     (run_control ex_control_env ex_calls (new_control [])))) = {#0, 1#}"
proof -
  have "mset [0..<2] = {#0, 1#}" by (simp add: numeral_2_eq_2)
  then show ?thesis
    using close_answers_everyone [OF refl, of ex_control_env ex_calls "[]"] by (simp add: ex_calls_facts)
qed

theorem parsed_message_ok_witness: "body_ok (Msg_steer ''look'' None)"
proof -
  have "parse_control_message ''u'' (Some ex_steer) = Inr (Msg_steer ''look'' None, Some ''r1'')" by code_simp
  moreover have "id_ok ''u''" by code_simp
  ultimately show ?thesis using parsed_message_ok by blast
qed

end
