(* ===== verification/Broker_Files.thy ===== *)
theory Broker_Files
  imports Json_Value "HOL-Library.Word"
begin

text \<open>
  What the model broker spool of \<open>app-server/src/fleetModelBrokerQueue.ts\<close> stands on: the
  files of a session directory, the file operations the code performs on them, and the base64 text in
  which the chunks of an answer arrive.

  A directory is an association list from files to their contents.  The code's paths are constructors,
  and \<open>file_name\<close> gives the names they stand for.  JSON files the code writes and reads
  back itself (the session and the state files) are stored as the record they denote; requests are
  stored as the text that was written, parts and results as bytes.
\<close>

section \<open>Bytes as text\<close>

type_synonym byte = "8 word"

definition sextet_char :: "nat \<Rightarrow> char" where
  "sextet_char n =
     (if n < 26 then char_of (n + 65) else if n < 52 then char_of (n + 71) else if n < 62 then char_of (n - 4)
      else if n = 62 then CHR ''+'' else CHR ''/'')"

text \<open>\<open>bytes.toString("base64")\<close>\<close>

fun base64 :: "byte list \<Rightarrow> string" where
  "base64 [] = []"
| "base64 [a] = [sextet_char (unat a div 4), sextet_char (unat a mod 4 * 16), CHR ''='', CHR ''='']"
| "base64 [a, b] = [sextet_char (unat a div 4), sextet_char (unat a mod 4 * 16 + unat b div 16),
     sextet_char (unat b mod 16 * 4), CHR ''='']"
| "base64 (a # b # c # bs) = sextet_char (unat a div 4) # sextet_char (unat a mod 4 * 16 + unat b div 16)
     # sextet_char (unat b mod 16 * 4 + unat c div 64) # sextet_char (unat c mod 64) # base64 bs"

definition sextet :: "char \<Rightarrow> nat option" where
  "sextet c = (let n = (of_char c :: nat) in
     if 65 \<le> n \<and> n \<le> 90 then Some (n - 65) else if 97 \<le> n \<and> n \<le> 122 then Some (n - 71)
     else if 48 \<le> n \<and> n \<le> 57 then Some (n + 4) else if n = 43 then Some 62
     else if n = 47 then Some 63 else None)"

definition byte_of :: "nat \<Rightarrow> byte" where
  "byte_of n = word_of_nat n"

text \<open>
  \<open>Buffer.from(data, "base64")\<close> on texts in the canonical form; \<open>None\<close> elsewhere, where
  the code compares the re-encoded bytes with the text and rejects it.
\<close>

fun unbase64 :: "string \<Rightarrow> byte list option" where
  "unbase64 [] = Some []"
| "unbase64 (p # q # r # s # cs) =
     (if r = CHR ''='' then
        (case (sextet p, sextet q) of
           (Some i, Some j) \<Rightarrow> if s = CHR ''='' \<and> cs = [] then Some [byte_of (i * 4 + j div 16)] else None
         | _ \<Rightarrow> None)
      else if s = CHR ''='' then
        (case (sextet p, sextet q, sextet r) of
           (Some i, Some j, Some k) \<Rightarrow>
             if cs = [] then Some [byte_of (i * 4 + j div 16), byte_of (j mod 16 * 16 + k div 4)] else None
         | _ \<Rightarrow> None)
      else
        (case (sextet p, sextet q, sextet r, sextet s, unbase64 cs) of
           (Some i, Some j, Some k, Some l, Some bs) \<Rightarrow>
             Some (byte_of (i * 4 + j div 16) # byte_of (j mod 16 * 16 + k div 4) # byte_of (k mod 4 * 64 + l) # bs)
         | _ \<Rightarrow> None))"
| "unbase64 _ = None"

lemma sextet_char:
  assumes "n < 64" shows "sextet (sextet_char n) = Some n" "sextet_char n \<noteq> CHR ''=''"
proof -
  have "sextet (sextet_char n) = Some n"
    using assms by (auto simp: sextet_def sextet_char_def Let_def)
  then show "sextet (sextet_char n) = Some n" "sextet_char n \<noteq> CHR ''=''"
    by (auto simp: sextet_def)
qed

lemma unbase64_group:
  assumes "i < 64" "j < 64" "k < 64" "l < 64" "unbase64 cs = Some bs"
  shows "unbase64 (sextet_char i # sextet_char j # sextet_char k # sextet_char l # cs)
    = Some (byte_of (i * 4 + j div 16) # byte_of (j mod 16 * 16 + k div 4) # byte_of (k mod 4 * 64 + l) # bs)"
    "unbase64 [sextet_char i, sextet_char j, sextet_char k, CHR ''='']
    = Some [byte_of (i * 4 + j div 16), byte_of (j mod 16 * 16 + k div 4)]"
    "unbase64 [sextet_char i, sextet_char j, CHR ''='', CHR ''=''] = Some [byte_of (i * 4 + j div 16)]"
  using assms sextet_char by (simp_all del: mod_mult_self1)

lemma byte_range: "unat (a :: byte) < 256"
  using unsigned_less [of a] by simp

lemma byte_of_unat: "n = unat (a :: byte) \<Longrightarrow> byte_of n = a"
  by (simp add: byte_of_def)

lemma small_digits:
  fixes m q k l :: nat
  assumes "m < l" "q < k" shows "m * k + q < l * k" "m * k < l * k"
proof -
  have "k + m * k \<le> l * k" unfolding mult_Suc [symmetric] using assms(1) by (intro mult_le_mono1) simp
  then show "m * k + q < l * k" "m * k < l * k" using assms(2) by linarith+
qed

lemma sextets_of_bytes:
  fixes a b c :: byte
  shows "unat a div 4 < 64" "unat a mod 4 * 16 < 64" "unat a mod 4 * 16 + unat b div 16 < 64"
    "unat b mod 16 * 4 < 64" "unat b mod 16 * 4 + unat c div 64 < 64" "unat c mod 64 < 64"
proof -
  have "unat x div 16 < 16" "unat x div 4 < 64" "unat x div 64 < 4" for x :: byte
    using byte_range [of x] by linarith+
  moreover have "unat x mod 4 < 4" "unat x mod 16 < 16" for x :: byte by simp_all
  ultimately show "unat a div 4 < 64" "unat a mod 4 * 16 < 64" "unat a mod 4 * 16 + unat b div 16 < 64"
    "unat b mod 16 * 4 < 64" "unat b mod 16 * 4 + unat c div 64 < 64" "unat c mod 64 < 64"
    using small_digits [of "unat a mod 4" 4 "unat b div 16" 16] small_digits [of "unat b mod 16" 16 "unat c div 64" 4]
    by simp_all
qed

lemma digit_pair:
  fixes q k :: nat
  assumes "q < k" shows "(m * k + q) div k = m" "(m * k + q) mod k = q"
  using assms by simp_all

lemma bytes_of_sextets:
  fixes a b c :: byte
  shows "byte_of (unat a div 4 * 4 + unat a mod 4 * 16 div 16) = a"
    "byte_of (unat a div 4 * 4 + (unat a mod 4 * 16 + unat b div 16) div 16) = a"
    "byte_of ((unat a mod 4 * 16 + unat b div 16) mod 16 * 16 + unat b mod 16 * 4 div 4) = b"
    "byte_of ((unat a mod 4 * 16 + unat b div 16) mod 16 * 16 + (unat b mod 16 * 4 + unat c div 64) div 4) = b"
    "byte_of ((unat b mod 16 * 4 + unat c div 64) mod 4 * 64 + unat c mod 64) = c"
proof -
  have "unat b div 16 < 16" "unat c div 64 < 4" using byte_range [of b] byte_range [of c] by linarith+
  note pairs = digit_pair [OF this(1)] digit_pair [OF this(2)]
  show "byte_of (unat a div 4 * 4 + unat a mod 4 * 16 div 16) = a"
    by (rule byte_of_unat) (simp only: nonzero_mult_div_cancel_right zero_neq_numeral [symmetric] not_False_eq_True div_mult_mod_eq)
  show "byte_of (unat a div 4 * 4 + (unat a mod 4 * 16 + unat b div 16) div 16) = a"
    by (rule byte_of_unat) (simp only: pairs div_mult_mod_eq)
  show "byte_of ((unat a mod 4 * 16 + unat b div 16) mod 16 * 16 + unat b mod 16 * 4 div 4) = b"
    by (rule byte_of_unat) (simp only: pairs nonzero_mult_div_cancel_right zero_neq_numeral [symmetric] not_False_eq_True div_mult_mod_eq)
  show "byte_of ((unat a mod 4 * 16 + unat b div 16) mod 16 * 16 + (unat b mod 16 * 4 + unat c div 64) div 4) = b"
    by (rule byte_of_unat) (simp only: pairs div_mult_mod_eq)
  show "byte_of ((unat b mod 16 * 4 + unat c div 64) mod 4 * 64 + unat c mod 64) = c"
    by (rule byte_of_unat) (simp only: pairs div_mult_mod_eq)
qed

lemma unbase64_base64: "unbase64 (base64 bs) = Some bs"
proof (induction bs rule: base64.induct)
  case (2 a)
  show ?case
    by (simp only: base64.simps unbase64_group(3) [OF sextets_of_bytes(1,2,1,1) unbase64.simps(1)] bytes_of_sextets)
next
  case (3 a b)
  show ?case
    by (simp only: base64.simps unbase64_group(2) [OF sextets_of_bytes(1,3,4,1) unbase64.simps(1)] bytes_of_sextets)
next
  case (4 a b c bs)
  show ?case
    by (simp only: base64.simps unbase64_group(1) [OF sextets_of_bytes(1,3,5,6) 4] bytes_of_sextets)
qed simp

lemma length_base64: "length (base64 bs) \<le> 4 * ((length bs + 2) div 3)"
proof (induction bs rule: base64.induct)
  case (4 a b c bs)
  have "(length (a # b # c # bs) + 2) div 3 = Suc ((length bs + 2) div 3)" by simp
  with 4 show ?case by simp
qed simp_all

text \<open>\<open>Buffer.byteLength(text)\<close>: the length in UTF-8 of a text over code page 1252.\<close>

definition utf8_size :: "char \<Rightarrow> nat" where
  "utf8_size c = (let n = (of_char c :: nat) in
     if n < 128 then 1
     else if n \<in> {129, 131, 136, 138, 140, 141, 142, 143, 144, 152, 154, 156, 157, 158, 159} \<or> 160 \<le> n then 2
     else 3)"

definition byte_length :: "string \<Rightarrow> nat" where
  "byte_length s = sum_list (map utf8_size s)"

section \<open>Identifiers and file names\<close>

definition alnum :: "char \<Rightarrow> bool" where
  "alnum c \<longleftrightarrow> (let n = (of_char c :: nat) in
     48 \<le> n \<and> n \<le> 57 \<or> 65 \<le> n \<and> n \<le> 90 \<or> 97 \<le> n \<and> n \<le> 122)"

text \<open>\<open>/^[A-Za-z0-9][A-Za-z0-9._-]{0,127}$/u\<close>\<close>

fun spool_id :: "string \<Rightarrow> bool" where
  "spool_id [] = False"
| "spool_id (c # cs) = (alnum c \<and> length cs \<le> 127 \<and> list_all (\<lambda>d. alnum d \<or> d \<in> set ''._-'') cs)"

datatype spool_file =
    Session_file
  | Request_file string
  | State_file string
  | Part_file string
  | Result_file string
  | Temp_file spool_file string

fun permanent :: "spool_file \<Rightarrow> bool" where
  "permanent (Temp_file f u) = False"
| "permanent _ = True"

definition request_suffix :: string where
  "request_suffix = ''.request.json''"

fun file_name :: "spool_file \<Rightarrow> string" where
  "file_name Session_file = ''session.json''"
| "file_name (Request_file r) = r @ request_suffix"
| "file_name (State_file r) = r @ ''.state.json''"
| "file_name (Part_file r) = r @ ''.part''"
| "file_name (Result_file r) = r @ ''.result.json''"
| "file_name (Temp_file f u) = file_name f @ ''.'' @ u @ ''.tmp''"

text \<open>Two files of a session never share a name, whatever identifiers are chosen.\<close>

lemma file_name_inject:
  assumes "permanent f" "permanent g" "file_name f = file_name g" shows "f = g"
  using assms(1,2) arg_cong [OF assms(3), of rev]
  by (cases f; cases g) (auto simp: request_suffix_def)

lemma starts_with_prefix: "starts_with (p @ s) p"
  by (induction p) auto

lemma starts_with_iff: "starts_with s p \<longleftrightarrow> (\<exists>t. s = p @ t)"
  by (induction s p rule: starts_with.induct) auto

lemma request_name_iff: "ends_with (file_name f) request_suffix \<longleftrightarrow> (\<exists>r. f = Request_file r)"
proof -
  have "\<not> starts_with (rev (file_name f)) (rev request_suffix)" if "\<And>r. f \<noteq> Request_file r"
    using that by (cases f) (auto simp: request_suffix_def)
  moreover have "starts_with (rev (file_name (Request_file r))) (rev request_suffix)" for r
    by (simp add: starts_with_prefix)
  ultimately show ?thesis unfolding ends_with_def by blast
qed

section \<open>Directories and the operations on them\<close>

datatype request_phase = Pending | Done

record broker_state =
  bs_leaseId :: "string option"
  bs_leaseUntil :: int
  bs_phase :: request_phase

datatype content =
    Session_text string
  | State_text broker_state
  | Text string
  | Bytes "byte list"

type_synonym directory = "(spool_file \<times> content) list"
type_synonym broker = "(string \<times> directory) list"

definition dir_of :: "broker \<Rightarrow> string \<Rightarrow> directory" where
  "dir_of b s = (case map_of b s of None \<Rightarrow> [] | Some d \<Rightarrow> d)"

definition read_file :: "broker \<Rightarrow> string \<Rightarrow> spool_file \<Rightarrow> content option" where
  "read_file b s f = map_of (dir_of b s) f"

fun bytes_in :: "content option \<Rightarrow> byte list" where
  "bytes_in (Some (Bytes xs)) = xs"
| "bytes_in _ = []"

datatype spool_action =
    Make_dir string
  | Write_file string spool_file content
  | Append_file string spool_file "byte list"
  | Rename_file string spool_file spool_file
  | Remove_dir string

definition change_dir :: "string \<Rightarrow> (directory \<Rightarrow> directory) \<Rightarrow> broker \<Rightarrow> broker" where
  "change_dir s f b = AList.update s (f (dir_of b s)) b"

fun act :: "broker \<Rightarrow> spool_action \<Rightarrow> broker" where
  "act b (Make_dir s) = change_dir s (\<lambda>d. d) b"
| "act b (Write_file s f c) = change_dir s (AList.update f c) b"
| "act b (Append_file s f xs) = change_dir s (AList.update f (Bytes (bytes_in (read_file b s f) @ xs))) b"
| "act b (Rename_file s f g) = (case read_file b s f of None \<Rightarrow> b
     | Some c \<Rightarrow> change_dir s (\<lambda>d. AList.update g c (AList.delete f d)) b)"
| "act b (Remove_dir s) = AList.delete s b"

definition perform :: "spool_action list \<Rightarrow> broker \<Rightarrow> broker" where
  "perform as b = foldl act b as"

lemma perform_simps [simp]: "perform [] b = b" "perform (a # as) b = perform as (act b a)"
  by (simp_all add: perform_def)

lemma dir_of_change [simp]: "dir_of (change_dir s f b) s' = (if s' = s then f (dir_of b s) else dir_of b s')"
  by (simp add: dir_of_def change_dir_def map_of_update)

lemma dir_of_remove [simp]: "dir_of (AList.delete s b) s' = (if s' = s then [] else dir_of b s')"
  by (simp add: dir_of_def delete_conv')

lemma read_file_act [simp]:
  "read_file (act b (Make_dir s)) s' f' = read_file b s' f'"
  "read_file (act b (Write_file s f c)) s' f' = (if s' = s \<and> f' = f then Some c else read_file b s' f')"
  "read_file (act b (Append_file s f xs)) s' f' =
     (if s' = s \<and> f' = f then Some (Bytes (bytes_in (read_file b s f) @ xs)) else read_file b s' f')"
  "read_file (act b (Remove_dir s)) s' f' = (if s' = s then None else read_file b s' f')"
  by (simp_all add: read_file_def map_of_update)

lemma read_file_rename [simp]:
  "f \<noteq> g \<Longrightarrow> read_file b s f = Some c \<Longrightarrow> read_file (act b (Rename_file s f g)) s' f' =
     (if s' = s \<and> f' = g then Some c else if s' = s \<and> f' = f then None else read_file b s' f')"
  by (auto simp: read_file_def map_of_update delete_conv')

declare act.simps [simp del]

end
