(* ===== verification/Broker_Queue.thy ===== *)
theory Broker_Queue
  imports Broker_Files
begin

text \<open>
  The model broker of a guest (\<open>FleetModelBrokerQueue\<close> in
  \<open>app-server/src/fleetModelBrokerQueue.ts\<close>): a worker without provider credentials submits
  model requests to a spool on disk, the workspace primary polls them under a lease, uploads the answer
  in chunks and seals it, and the worker reads it back.

  A method is a function of the spool that either throws or returns its value with the file operations
  it performs, in order.  A completed call performs all of them; a process that is stopped in between
  leaves a prefix.
\<close>

section \<open>Requests, errors, environment\<close>

text \<open>\<open>ModelBrokerRequest\<close> of \<open>model-broker.ts\<close> and the JSON object it is.\<close>

record model_request =
  mr_id :: string
  mr_provider :: string
  mr_model :: string
  mr_context :: json
  mr_options :: json
  mr_flags :: "json option"

definition request_json :: "model_request \<Rightarrow> json" where
  "request_json q = JObj ([(''id'', JStr (mr_id q)),
     (''model'', JObj [(''provider'', JStr (mr_provider q)), (''id'', JStr (mr_model q))]),
     (''context'', mr_context q), (''options'', mr_options q)]
     @ (case mr_flags q of None \<Rightarrow> [] | Some f \<Rightarrow> [(''brokerFlags'', f)]))"

datatype broker_error =
    Invalid_session_id
  | Invalid_request_id
  | Invalid_token
  | Invalid_request
  | Request_too_large
  | Request_id_reused
  | Request_limit
  | Session_unavailable
  | Unknown_request
  | Lease_expired
  | Invalid_chunk
  | Invalid_encoding
  | Out_of_sequence
  | Integrity
  | Invalid_result
  | Missing_file
  | Unparsable

text \<open>\<open>JSON.parse\<close> of a text and of bytes (\<open>None\<close> when it throws), and SHA-256 in hexadecimal.\<close>

record broker_env =
  be_parse :: "string \<Rightarrow> json option"
  be_parse_bytes :: "byte list \<Rightarrow> json option"
  be_sha256 :: "byte list \<Rightarrow> string"

text \<open>What one call draws: the readings of the clock, the random ids, and the random token.\<close>

record broker_host =
  bh_clock :: "nat \<Rightarrow> int"
  bh_uuid :: "nat \<Rightarrow> string"
  bh_token :: string

definition lease_ms :: int where "lease_ms = 30000"
definition max_request_bytes :: nat where "max_request_bytes = 16777216"
definition max_result_bytes :: nat where "max_result_bytes = 16777216"
definition max_requests_per_session :: nat where "max_requests_per_session = 5000"

section \<open>Files of a session\<close>

definition session_directory :: "string \<Rightarrow> (broker_error, 'a) res \<Rightarrow> (broker_error, 'a) res" where
  "session_directory s k = ensure (spool_id s) Invalid_session_id k"

definition request_path :: "string \<Rightarrow> string \<Rightarrow> (broker_error, 'a) res \<Rightarrow> (broker_error, 'a) res" where
  "request_path s r k = session_directory s (ensure (spool_id r) Invalid_request_id k)"

text \<open>\<open>writePrivate\<close>: a temporary file that is renamed.\<close>

definition write_private :: "string \<Rightarrow> string \<Rightarrow> spool_file \<Rightarrow> content \<Rightarrow> spool_action list" where
  "write_private u s f c = [Write_file s (Temp_file f u) c, Rename_file s (Temp_file f u) f]"

definition session_token :: "broker \<Rightarrow> string \<Rightarrow> string option" where
  "session_token b s = (case read_file b s Session_file of Some (Session_text t) \<Rightarrow> Some t | _ \<Rightarrow> None)"

definition broker_token :: "broker \<Rightarrow> string \<Rightarrow> (broker_error, string option) res" where
  "broker_token b s = session_directory s (Inr (session_token b s))"

definition authorize :: "broker \<Rightarrow> string \<Rightarrow> string \<Rightarrow> (broker_error, unit) res" where
  "authorize b s t = rbind (broker_token b s) (\<lambda>e.
     ensure (e \<noteq> None \<and> e \<noteq> Some [] \<and> e = Some t) Invalid_token (Inr ()))"

definition read_state :: "broker \<Rightarrow> string \<Rightarrow> string \<Rightarrow> (broker_error, broker_state) res" where
  "read_state b s r = request_path s r (case read_file b s (State_file r) of
     Some (State_text st) \<Rightarrow> Inr st | _ \<Rightarrow> Inl Unknown_request)"

definition require_lease :: "broker_host \<Rightarrow> broker \<Rightarrow> string \<Rightarrow> string \<Rightarrow> string \<Rightarrow> (broker_error, broker_state) res" where
  "require_lease h b s r l = rbind (read_state b s r) (\<lambda>st.
     ensure (bs_phase st = Pending \<and> l \<noteq> [] \<and> bs_leaseId st = Some l \<and> bh_clock h 0 \<le> bs_leaseUntil st)
       Lease_expired (Inr st))"

definition request_names :: "broker \<Rightarrow> string \<Rightarrow> string list" where
  "request_names b s = filter (\<lambda>n. ends_with n request_suffix) (map (\<lambda>(f, c). file_name f) (dir_of b s))"

definition request_of_name :: "string \<Rightarrow> string" where
  "request_of_name n = take (length n - length request_suffix) n"

section \<open>The worker's side\<close>

definition register_session :: "broker_host \<Rightarrow> broker \<Rightarrow> string \<Rightarrow> (broker_error, string \<times> spool_action list) res" where
  "register_session h b s = session_directory s (case read_file b s Session_file of
     Some (Session_text t) \<Rightarrow> Inr (t, [Make_dir s])
   | Some _ \<Rightarrow> Inl Unparsable
   | None \<Rightarrow> Inr (bh_token h, Make_dir s # write_private (bh_uuid h 0) s Session_file (Session_text (bh_token h))))"

definition valid_request :: "model_request \<Rightarrow> bool" where
  "valid_request q \<longleftrightarrow> spool_id (mr_id q) \<and> spool_id (mr_provider q) \<and> spool_id (mr_model q)
     \<and> (case mr_context q of JObj kvs \<Rightarrow> True | JArr xs \<Rightarrow> True | _ \<Rightarrow> False)"

definition submit :: "broker_host \<Rightarrow> broker \<Rightarrow> string \<Rightarrow> string \<Rightarrow> model_request \<Rightarrow> (broker_error, spool_action list) res" where
  "submit h b s t q = rbind (authorize b s t) (\<lambda>_.
     ensure (valid_request q) Invalid_request (
     let text = stringify (request_json q) in
     ensure (byte_length text \<le> max_request_bytes) Request_too_large (
     request_path s (mr_id q) (
     case read_file b s (Request_file (mr_id q)) of
       Some c \<Rightarrow> ensure (c = Text text) Request_id_reused (Inr [])
     | None \<Rightarrow> ensure (length (request_names b s) < max_requests_per_session) Request_limit (
         Inr (Write_file s (Request_file (mr_id q)) (Text text)
           # write_private (bh_uuid h 0) s (State_file (mr_id q)) (State_text
               \<lparr>bs_leaseId = None, bs_leaseUntil = 0, bs_phase = Pending\<rparr>)))))))"

definition pending_result :: json where
  "pending_result = JObj [(''state'', JStr ''pending'')]"

definition broker_result :: "broker_env \<Rightarrow> broker \<Rightarrow> string \<Rightarrow> string \<Rightarrow> string \<Rightarrow> (broker_error, json) res" where
  "broker_result env b s t r = rbind (authorize b s t) (\<lambda>_. rbind (read_state b s r) (\<lambda>st.
     if bs_phase st \<noteq> Done then Inr pending_result
     else (case read_file b s (Result_file r) of
       Some (Bytes xs) \<Rightarrow> need (be_parse_bytes env xs) Unparsable | _ \<Rightarrow> Inl Missing_file)))"

section \<open>The primary's side\<close>

text \<open>
  What \<open>poll\<close> does: nothing is open, a request is handed out with its lease, or the lease is
  written and the text of the request does not parse, which throws.  The middle component of
  \<open>Leased\<close> is the identifier in the name of the file the request was read from.
\<close>

datatype polled = No_request | Leased json string string | Unreadable

text \<open>\<open>k\<close> counts the readings of the clock.\<close>

fun poll_names :: "broker_env \<Rightarrow> broker_host \<Rightarrow> nat \<Rightarrow> broker \<Rightarrow> string \<Rightarrow> string list \<Rightarrow> (broker_error, polled \<times> spool_action list) res" where
  "poll_names env h k b s [] = Inr (No_request, [])"
| "poll_names env h k b s (n # ns) = (let r = request_of_name n in
     rbind (read_state b s r) (\<lambda>st.
       if bs_phase st = Done then poll_names env h k b s ns
       else if bh_clock h k < bs_leaseUntil st then poll_names env h (Suc k) b s ns
       else Inr ((case read_file b s (Request_file r) of
           Some (Text t) \<Rightarrow> (case be_parse env t of Some j \<Rightarrow> Leased j r (bh_uuid h 0) | None \<Rightarrow> Unreadable)
         | _ \<Rightarrow> Unreadable),
         write_private (bh_uuid h 1) s (State_file r) (State_text
           \<lparr>bs_leaseId = Some (bh_uuid h 0), bs_leaseUntil = bh_clock h (Suc k) + lease_ms, bs_phase = Pending\<rparr>))))"

definition poll :: "broker_env \<Rightarrow> broker_host \<Rightarrow> broker \<Rightarrow> string \<Rightarrow> (broker_error, polled \<times> spool_action list) res" where
  "poll env h b s = session_directory s (
     ensure (read_file b s Session_file \<noteq> None) Session_unavailable (
     poll_names env h 0 b s (js_sort cmp_units (request_names b s))))"

definition renew :: "broker_host \<Rightarrow> broker \<Rightarrow> string \<Rightarrow> string \<Rightarrow> string \<Rightarrow> (broker_error, spool_action list) res" where
  "renew h b s r l = rbind (require_lease h b s r l) (\<lambda>st.
     Inr (write_private (bh_uuid h 0) s (State_file r) (State_text (st\<lparr>bs_leaseUntil := bh_clock h 1 + lease_ms\<rparr>))))"

definition begin_result :: "broker_host \<Rightarrow> broker \<Rightarrow> string \<Rightarrow> string \<Rightarrow> string \<Rightarrow> (broker_error, spool_action list) res" where
  "begin_result h b s r l = rbind (require_lease h b s r l) (\<lambda>_. Inr [Write_file s (Part_file r) (Bytes [])])"

definition append_result ::
  "broker_host \<Rightarrow> broker \<Rightarrow> string \<Rightarrow> string \<Rightarrow> string \<Rightarrow> int \<Rightarrow> string \<Rightarrow> (broker_error, spool_action list) res" where
  "append_result h b s r l off data = rbind (require_lease h b s r l) (\<lambda>_.
     ensure (\<bar>off\<bar> \<le> 9007199254740991 \<and> 0 \<le> off \<and> length data \<le> 262144) Invalid_chunk (
     rbind (need (unbase64 data) Invalid_encoding) (\<lambda>xs.
     ensure (base64 xs = data \<and> length xs \<le> 196608) Invalid_encoding (
     ensure (read_file b s (Part_file r) \<noteq> None \<and> int (length (bytes_in (read_file b s (Part_file r)))) = off
         \<and> off + int (length xs) \<le> int max_result_bytes) Out_of_sequence (
     Inr [Append_file s (Part_file r) xs])))))"

text \<open>\<open>state\<close> of a sealed answer is \<open>done\<close> or \<open>error\<close>.\<close>

definition sealed_value :: "json \<Rightarrow> bool" where
  "sealed_value v \<longleftrightarrow> as_string (jget v ''state'') \<in> {Some ''done'', Some ''error''}"

definition seal_result ::
  "broker_env \<Rightarrow> broker_host \<Rightarrow> broker \<Rightarrow> string \<Rightarrow> string \<Rightarrow> string \<Rightarrow> string \<Rightarrow> (broker_error, spool_action list) res" where
  "seal_result env h b s r l hash = rbind (require_lease h b s r l) (\<lambda>_.
     ensure (read_file b s (Part_file r) \<noteq> None) Missing_file (
     let xs = bytes_in (read_file b s (Part_file r)) in
     ensure (be_sha256 env xs = hash) Integrity (
     rbind (need (be_parse_bytes env xs) Unparsable) (\<lambda>v.
     ensure (sealed_value v) Invalid_result (
     Inr (write_private (bh_uuid h 0) s (Result_file r) (Bytes xs)
       @ write_private (bh_uuid h 1) s (State_file r) (State_text
           \<lparr>bs_leaseId = None, bs_leaseUntil = 0, bs_phase = Done\<rparr>)))))))"

section \<open>Calls and their interruption\<close>

datatype spool_call =
    Register string
  | Submit string string model_request
  | Poll string
  | Renew string string string
  | Begin_result string string string
  | Append_result string string string int string
  | Seal_result string string string string
  | Remove string

fun spool_plan :: "broker_env \<Rightarrow> broker_host \<Rightarrow> spool_call \<Rightarrow> broker \<Rightarrow> (broker_error, spool_action list) res" where
  "spool_plan env h (Register s) b = rbind (register_session h b s) (\<lambda>x. Inr (snd x))"
| "spool_plan env h (Submit s t q) b = submit h b s t q"
| "spool_plan env h (Poll s) b = rbind (poll env h b s) (\<lambda>x. Inr (snd x))"
| "spool_plan env h (Renew s r l) b = renew h b s r l"
| "spool_plan env h (Begin_result s r l) b = begin_result h b s r l"
| "spool_plan env h (Append_result s r l off data) b = append_result h b s r l off data"
| "spool_plan env h (Seal_result s r l hash) b = seal_result env h b s r l hash"
| "spool_plan env h (Remove s) b = session_directory s (Inr [Remove_dir s])"

text \<open>A call that returns.\<close>

definition spool_exec :: "broker_env \<Rightarrow> broker_host \<Rightarrow> spool_call \<Rightarrow> broker \<Rightarrow> (broker_error, broker) res" where
  "spool_exec env h c b = rbind (spool_plan env h c b) (\<lambda>as. Inr (perform as b))"

text \<open>A call that returns, or whose process stops after some of its file operations.\<close>

inductive spool_step :: "broker_env \<Rightarrow> broker_host \<times> spool_call \<Rightarrow> broker \<Rightarrow> broker \<Rightarrow> bool" where
  spool_step: "spool_plan env h c b = Inr as \<Longrightarrow> spool_step env (h, c) b (perform (take n as) b)"

inductive spool_run :: "broker_env \<Rightarrow> (broker_host \<times> spool_call) list \<Rightarrow> broker \<Rightarrow> broker \<Rightarrow> bool" where
  spool_run_Nil: "spool_run env [] b b"
| spool_run_Cons: "spool_step env x b b1 \<Longrightarrow> spool_run env xs b1 b2 \<Longrightarrow> spool_run env (x # xs) b b2"

inductive_cases spool_stepE: "spool_step env x b b'"
inductive_cases spool_run_NilE: "spool_run env [] b b'"
inductive_cases spool_run_ConsE: "spool_run env (x # xs) b b'"

section \<open>Uploading an answer\<close>

text \<open>
  The calls of \<open>answerBrokerRequest\<close> in \<open>fleetRemote.ts\<close>: the answer is sent in
  chunks of 192 KiB.
\<close>

definition chunk_bytes :: nat where "chunk_bytes = 196608"

function upload_chunks :: "string \<Rightarrow> string \<Rightarrow> string \<Rightarrow> nat \<Rightarrow> byte list \<Rightarrow> spool_call list" where
  "upload_chunks s r l off xs = (if off < length xs
     then Append_result s r l (int off) (base64 (take chunk_bytes (drop off xs)))
       # upload_chunks s r l (off + chunk_bytes) xs
     else [])"
  by auto
termination by (relation "measure (\<lambda>(s, r, l, off, xs). length xs - off)") (auto simp: chunk_bytes_def)

declare upload_chunks.simps [simp del]

definition upload_calls :: "broker_env \<Rightarrow> string \<Rightarrow> string \<Rightarrow> string \<Rightarrow> byte list \<Rightarrow> spool_call list" where
  "upload_calls env s r l xs =
     Begin_result s r l # upload_chunks s r l 0 xs @ [Seal_result s r l (be_sha256 env xs)]"

text \<open>Calls one after the other, until one throws.\<close>

fun spool_execs :: "broker_env \<Rightarrow> (broker_host \<times> spool_call) list \<Rightarrow> broker \<Rightarrow> (broker_error, broker) res" where
  "spool_execs env [] b = Inr b"
| "spool_execs env ((h, c) # cs) b = rbind (spool_exec env h c b) (spool_execs env cs)"

end
