(* ===== verification/Broker_Effects.thy ===== *)
theory Broker_Effects
  imports Broker_Queue
begin

text \<open>
  What the calls of the model broker do to the permanent files of the spool, seen as a map: the abstract
  spool.  Whole calls are atomic there; a call that is stopped has no effect, its whole effect, or one of
  two halves (a request without its state, an answer without its state).  The invariants and the
  properties of the broker are proved over these effects.
\<close>

type_synonym spool_view = "string \<times> spool_file \<Rightarrow> content option"

definition spool_view :: "broker \<Rightarrow> spool_view" where
  "spool_view b = (\<lambda>(s, f). if permanent f then read_file b s f else None)"

definition requests_in :: "spool_view \<Rightarrow> string \<Rightarrow> string set" where
  "requests_in v s = {r. v (s, Request_file r) \<noteq> None}"

inductive spool_effect :: "broker_env \<Rightarrow> broker_host \<times> spool_call \<Rightarrow> spool_view \<Rightarrow> spool_view \<Rightarrow> bool" where
  unchanged: "spool_effect env x v v"
| registered: "spool_id s \<Longrightarrow> v (s, Session_file) = None \<Longrightarrow>
    spool_effect env (h, Register s) v (v((s, Session_file) \<mapsto> Session_text (bh_token h)))"
| half_submitted: "v (s, Session_file) = Some (Session_text t) \<Longrightarrow> t \<noteq> [] \<Longrightarrow> valid_request q \<Longrightarrow>
    v (s, Request_file (mr_id q)) = None \<Longrightarrow> byte_length (stringify (request_json q)) \<le> max_request_bytes \<Longrightarrow>
    card (requests_in v s) < max_requests_per_session \<Longrightarrow> finite (requests_in v s) \<Longrightarrow>
    spool_effect env (h, Submit s t q) v (v((s, Request_file (mr_id q)) \<mapsto> Text (stringify (request_json q))))"
| submitted: "v (s, Session_file) = Some (Session_text t) \<Longrightarrow> t \<noteq> [] \<Longrightarrow> valid_request q \<Longrightarrow>
    v (s, Request_file (mr_id q)) = None \<Longrightarrow> byte_length (stringify (request_json q)) \<le> max_request_bytes \<Longrightarrow>
    card (requests_in v s) < max_requests_per_session \<Longrightarrow> finite (requests_in v s) \<Longrightarrow>
    spool_effect env (h, Submit s t q) v (v((s, Request_file (mr_id q)) \<mapsto> Text (stringify (request_json q)),
      (s, State_file (mr_id q)) \<mapsto> State_text \<lparr>bs_leaseId = None, bs_leaseUntil = 0, bs_phase = Pending\<rparr>))"
| leased: "v (s, State_file r) = Some (State_text st) \<Longrightarrow> bs_phase st = Pending \<Longrightarrow> bs_leaseUntil st \<le> bh_clock h k \<Longrightarrow>
    spool_effect env (h, Poll s) v (v((s, State_file r) \<mapsto> State_text
      \<lparr>bs_leaseId = Some (bh_uuid h 0), bs_leaseUntil = bh_clock h (Suc k) + lease_ms, bs_phase = Pending\<rparr>))"
| renewed: "v (s, State_file r) = Some (State_text st) \<Longrightarrow> bs_phase st = Pending \<Longrightarrow> bs_leaseId st = Some l \<Longrightarrow>
    bh_clock h 0 \<le> bs_leaseUntil st \<Longrightarrow>
    spool_effect env (h, Renew s r l) v (v((s, State_file r) \<mapsto> State_text (st\<lparr>bs_leaseUntil := bh_clock h 1 + lease_ms\<rparr>)))"
| begun: "v (s, State_file r) = Some (State_text st) \<Longrightarrow> bs_phase st = Pending \<Longrightarrow> bs_leaseId st = Some l \<Longrightarrow>
    bh_clock h 0 \<le> bs_leaseUntil st \<Longrightarrow>
    spool_effect env (h, Begin_result s r l) v (v((s, Part_file r) \<mapsto> Bytes []))"
| appended: "v (s, State_file r) = Some (State_text st) \<Longrightarrow> bs_phase st = Pending \<Longrightarrow> bs_leaseId st = Some l \<Longrightarrow>
    bh_clock h 0 \<le> bs_leaseUntil st \<Longrightarrow> v (s, Part_file r) = Some c \<Longrightarrow>
    length (bytes_in (Some c)) + length xs \<le> max_result_bytes \<Longrightarrow>
    spool_effect env (h, Append_result s r l off data) v (v((s, Part_file r) \<mapsto> Bytes (bytes_in (Some c) @ xs)))"
| half_sealed: "v (s, State_file r) = Some (State_text st) \<Longrightarrow> bs_phase st = Pending \<Longrightarrow> bs_leaseId st = Some l \<Longrightarrow>
    bh_clock h 0 \<le> bs_leaseUntil st \<Longrightarrow> v (s, Part_file r) = Some c \<Longrightarrow>
    be_parse_bytes env (bytes_in (Some c)) = Some j \<Longrightarrow> sealed_value j \<Longrightarrow>
    spool_effect env (h, Seal_result s r l hash) v (v((s, Result_file r) \<mapsto> Bytes (bytes_in (Some c))))"
| sealed: "v (s, State_file r) = Some (State_text st) \<Longrightarrow> bs_phase st = Pending \<Longrightarrow> bs_leaseId st = Some l \<Longrightarrow>
    bh_clock h 0 \<le> bs_leaseUntil st \<Longrightarrow> v (s, Part_file r) = Some c \<Longrightarrow>
    be_parse_bytes env (bytes_in (Some c)) = Some j \<Longrightarrow> sealed_value j \<Longrightarrow>
    spool_effect env (h, Seal_result s r l hash) v (v((s, Result_file r) \<mapsto> Bytes (bytes_in (Some c)),
      (s, State_file r) \<mapsto> State_text \<lparr>bs_leaseId = None, bs_leaseUntil = 0, bs_phase = Done\<rparr>))"
| removed: "spool_id s \<Longrightarrow> spool_effect env (h, Remove s) v (\<lambda>(s', f). if s' = s then None else v (s', f))"

section \<open>The file operations, seen abstractly\<close>

lemma spool_view_read: "permanent f \<Longrightarrow> spool_view b (s, f) = read_file b s f"
  by (simp add: spool_view_def)

lemma spool_view_act [simp]:
  "spool_view (act b (Make_dir s)) = spool_view b"
  "permanent f \<Longrightarrow> spool_view (act b (Write_file s f c)) = (spool_view b)((s, f) \<mapsto> c)"
  "spool_view (act b (Write_file s (Temp_file f u) c)) = spool_view b"
  "permanent f \<Longrightarrow> spool_view (act b (Append_file s f xs)) =
     (spool_view b)((s, f) \<mapsto> Bytes (bytes_in (read_file b s f) @ xs))"
  "spool_view (act b (Remove_dir s)) = (\<lambda>(s', f). if s' = s then None else spool_view b (s', f))"
  by (auto simp: spool_view_def fun_eq_iff)

lemma spool_view_rename [simp]:
  "permanent f \<Longrightarrow> spool_view (act (act b (Write_file s (Temp_file f u) c)) (Rename_file s (Temp_file f u) f))
     = (spool_view b)((s, f) \<mapsto> c)"
  by (subst spool_view_def) (auto simp: fun_eq_iff spool_view_def)

lemma read_after_private [simp]:
  "permanent f \<Longrightarrow> permanent g \<Longrightarrow>
     read_file (act (act b (Write_file s (Temp_file f u) c)) (Rename_file s (Temp_file f u) f)) s' g
     = (if s' = s \<and> g = f then Some c else read_file b s' g)"
  by auto

lemma take_Suc_if: "take n (x # xs) = (if n = 0 then [] else x # take (n - 1) xs)"
  by (cases n) auto

lemma view_private:
  "permanent f \<Longrightarrow> spool_view (perform (take n (write_private u s f c)) b) \<in> {spool_view b, (spool_view b)((s, f) \<mapsto> c)}"
  by (simp add: write_private_def take_Suc_if)

lemma view_private_done:
  "permanent f \<Longrightarrow> spool_view (perform (write_private u s f c) b) = (spool_view b)((s, f) \<mapsto> c)"
  by (simp add: write_private_def)

lemma perform_append: "perform (as @ bs) b = perform bs (perform as b)"
  by (simp add: perform_def)

lemma length_private [simp]: "length (write_private u s f c) = 2"
  by (simp add: write_private_def)

lemma view_private_two:
  assumes "permanent f" "permanent g"
  shows "spool_view (perform (take n (write_private u s f c @ write_private u' s g d)) b)
    \<in> {spool_view b, (spool_view b)((s, f) \<mapsto> c), (spool_view b)((s, f) \<mapsto> c, (s, g) \<mapsto> d)}"
proof (cases "n \<le> 2")
  case True
  then show ?thesis using view_private [OF assms(1), of n u s c b] by auto
next
  case False
  then show ?thesis
    using view_private [OF assms(2), of "n - 2" u' s d "perform (write_private u s f c) b"]
    by (simp add: perform_append view_private_done [OF assms(1)])
qed

section \<open>The guards, seen abstractly\<close>

lemma read_state_Inr [guard_simps]:
  "read_state b s r = Inr st \<longleftrightarrow> spool_id s \<and> spool_id r \<and> spool_view b (s, State_file r) = Some (State_text st)"
  by (auto simp: read_state_def request_path_def session_directory_def guard_simps spool_view_read split: option.splits content.splits)

lemma require_lease_Inr [guard_simps]:
  "require_lease h b s r l = Inr st \<longleftrightarrow> spool_id s \<and> spool_id r \<and> spool_view b (s, State_file r) = Some (State_text st)
     \<and> bs_phase st = Pending \<and> l \<noteq> [] \<and> bs_leaseId st = Some l \<and> bh_clock h 0 \<le> bs_leaseUntil st"
  by (auto simp: require_lease_def guard_simps)

lemma session_token_iff: "session_token b s = Some t \<longleftrightarrow> spool_view b (s, Session_file) = Some (Session_text t)"
  by (auto simp: session_token_def spool_view_read split: option.splits content.splits)

lemma authorize_Inr [guard_simps]:
  "authorize b s t = Inr () \<longleftrightarrow> spool_id s \<and> t \<noteq> [] \<and> spool_view b (s, Session_file) = Some (Session_text t)"
  by (auto simp: authorize_def broker_token_def session_directory_def guard_simps session_token_iff [symmetric])

lemma request_name_of [simp]: "request_of_name (file_name (Request_file r)) = r"
  by (simp add: request_of_name_def)

lemma set_request_names: "set (request_names b s) = (\<lambda>r. file_name (Request_file r)) ` requests_in (spool_view b) s"
proof -
  have dom: "f \<in> fst ` set (dir_of b s) \<longleftrightarrow> read_file b s f \<noteq> None" for f
    by (simp add: read_file_def map_of_eq_None_iff)
  have "set (request_names b s) = {n \<in> file_name ` fst ` set (dir_of b s). ends_with n request_suffix}"
    by (auto simp: request_names_def image_iff case_prod_beta)
  also have "\<dots> = {file_name f | f. read_file b s f \<noteq> None \<and> (\<exists>r. f = Request_file r)}"
    unfolding dom [symmetric] request_name_iff [symmetric] by blast
  also have "\<dots> = (\<lambda>r. file_name (Request_file r)) ` {r. read_file b s (Request_file r) \<noteq> None}" by blast
  finally show ?thesis by (simp add: requests_in_def spool_view_read)
qed

lemma requests_finite: "finite (requests_in (spool_view b) s)"
  and requests_card: "card (requests_in (spool_view b) s) \<le> length (request_names b s)"
proof -
  have inj: "inj_on (\<lambda>r. file_name (Request_file r)) (requests_in (spool_view b) s)" by (auto intro: inj_onI)
  have "finite ((\<lambda>r. file_name (Request_file r)) ` requests_in (spool_view b) s)"
    unfolding set_request_names [symmetric] by (rule finite_set)
  then show "finite (requests_in (spool_view b) s)" using inj by (rule finite_imageD)
  have "card (requests_in (spool_view b) s) = card (set (request_names b s))"
    unfolding set_request_names by (rule card_image [OF inj, symmetric])
  then show "card (requests_in (spool_view b) s) \<le> length (request_names b s)" using card_length by simp
qed

section \<open>Every call has one of the effects\<close>

lemma effect_among:
  "w \<in> {v, v1} \<Longrightarrow> spool_effect env x v v1 \<Longrightarrow> spool_effect env x v w"
  "w \<in> {v, v1, v2} \<Longrightarrow> spool_effect env x v v1 \<Longrightarrow> spool_effect env x v v2 \<Longrightarrow> spool_effect env x v w"
  "w \<in> {v1, v2} \<Longrightarrow> spool_effect env x v v1 \<Longrightarrow> spool_effect env x v v2 \<Longrightarrow> spool_effect env x v w"
  by (auto intro: unchanged)

lemma poll_names_effect:
  assumes "poll_names env h k b s ns = Inr (x, as)"
  shows "x = No_request \<and> as = [] \<or> (\<exists>n r st k'. n \<in> set ns \<and> r = request_of_name n \<and> spool_id s \<and> spool_id r
    \<and> spool_view b (s, State_file r) = Some (State_text st) \<and> bs_phase st = Pending \<and> bs_leaseUntil st \<le> bh_clock h k'
    \<and> x \<in> {Unreadable} \<union> {Leased j r (bh_uuid h 0) | j. True}
    \<and> (\<forall>t. spool_view b (s, Request_file r) = Some (Text t) \<longrightarrow> x = (case be_parse env t of
         Some j \<Rightarrow> Leased j r (bh_uuid h 0) | None \<Rightarrow> Unreadable))
    \<and> as = write_private (bh_uuid h 1) s (State_file r) (State_text
        \<lparr>bs_leaseId = Some (bh_uuid h 0), bs_leaseUntil = bh_clock h (Suc k') + lease_ms, bs_phase = Pending\<rparr>))"
  using assms
proof (induction env h k b s ns rule: poll_names.induct)
  case (2 env h k b s n ns)
  obtain st where st: "read_state b s (request_of_name n) = Inr st"
    using 2(3) by (auto simp: Let_def guard_simps)
  consider (over) "bs_phase st = Done" "poll_names env h k b s ns = Inr (x, as)"
    | (held) "bs_phase st = Pending" "bh_clock h k < bs_leaseUntil st" "poll_names env h (Suc k) b s ns = Inr (x, as)"
    | (free) "bs_phase st = Pending" "bs_leaseUntil st \<le> bh_clock h k"
    using 2(3) st by (cases "bs_phase st") (auto simp: Let_def split: if_splits)
  then show ?case
  proof cases
    case over
    then show ?thesis using 2(1) [OF refl over(1)] by fastforce
  next
    case held
    then show ?thesis using 2(2) [OF refl _ held(2)] by fastforce
  next
    case free
    then show ?thesis using 2(3) st
      by (intro disjI2 exI [of _ n] exI [of _ "request_of_name n"] exI [of _ st] exI [of _ k])
        (auto simp: Let_def read_state_Inr spool_view_read split: option.splits content.splits)
  qed
qed simp

lemma poll_effect:
  assumes "poll env h b s = Inr (x, as)"
  shows "spool_effect env (h, Poll s) (spool_view b) (spool_view (perform (take n as) b))"
proof -
  have "spool_id s" "poll_names env h 0 b s (js_sort cmp_units (request_names b s)) = Inr (x, as)"
    using assms by (auto simp: poll_def session_directory_def guard_simps)
  from poll_names_effect [OF this(2)] show ?thesis
  proof (elim disjE exE conjE)
    fix m r st k
    assume "spool_view b (s, State_file r) = Some (State_text st)" "bs_phase st = Pending" "bs_leaseUntil st \<le> bh_clock h k"
      and as: "as = write_private (bh_uuid h 1) s (State_file r) (State_text
        \<lparr>bs_leaseId = Some (bh_uuid h 0), bs_leaseUntil = bh_clock h (Suc k) + lease_ms, bs_phase = Pending\<rparr>)"
    then show ?thesis unfolding as by (intro effect_among(1) [OF view_private] leased) simp_all
  qed (simp add: unchanged)
qed

lemma submit_Inr:
  "submit h b s t q = Inr as \<longleftrightarrow> spool_id s \<and> t \<noteq> [] \<and> spool_view b (s, Session_file) = Some (Session_text t)
     \<and> valid_request q \<and> byte_length (stringify (request_json q)) \<le> max_request_bytes
     \<and> (spool_view b (s, Request_file (mr_id q)) = Some (Text (stringify (request_json q))) \<and> as = []
        \<or> spool_view b (s, Request_file (mr_id q)) = None \<and> length (request_names b s) < max_requests_per_session
          \<and> as = Write_file s (Request_file (mr_id q)) (Text (stringify (request_json q)))
             # write_private (bh_uuid h 0) s (State_file (mr_id q))
                 (State_text \<lparr>bs_leaseId = None, bs_leaseUntil = 0, bs_phase = Pending\<rparr>))"
  by (auto simp: submit_def guard_simps Let_def request_path_def session_directory_def spool_view_read valid_request_def
      split: option.splits)

lemma submit_effect:
  assumes "submit h b s t q = Inr as"
  shows "spool_effect env (h, Submit s t q) (spool_view b) (spool_view (perform (take n as) b))"
proof -
  have g: "spool_view b (s, Session_file) = Some (Session_text t)" "t \<noteq> []" "valid_request q"
      "byte_length (stringify (request_json q)) \<le> max_request_bytes"
    and rest: "as = [] \<or> spool_view b (s, Request_file (mr_id q)) = None \<and> length (request_names b s) < max_requests_per_session
      \<and> as = Write_file s (Request_file (mr_id q)) (Text (stringify (request_json q)))
           # write_private (bh_uuid h 0) s (State_file (mr_id q)) (State_text \<lparr>bs_leaseId = None, bs_leaseUntil = 0, bs_phase = Pending\<rparr>)"
    using assms unfolding submit_Inr by auto
  show ?thesis
  proof (cases "as = [] \<or> n = 0")
    case False
    let ?b = "act b (Write_file s (Request_file (mr_id q)) (Text (stringify (request_json q))))"
    from False rest have new: "spool_view b (s, Request_file (mr_id q)) = None"
      and few: "card (requests_in (spool_view b) s) < max_requests_per_session"
      and as: "perform (take n as) b = perform (take (n - 1) (write_private (bh_uuid h 0) s (State_file (mr_id q))
        (State_text \<lparr>bs_leaseId = None, bs_leaseUntil = 0, bs_phase = Pending\<rparr>))) ?b"
      using requests_card [of b s] by (auto simp: take_Suc_if)
    note whole = g(1-3) new g(4) few requests_finite
    show ?thesis unfolding as
      by (rule effect_among(3) [OF view_private]) (simp_all add: half_submitted [OF whole] submitted [OF whole])
  qed (auto intro: unchanged)
qed

lemma seal_effect:
  assumes "seal_result env h b s r l hash = Inr as"
  shows "spool_effect env (h, Seal_result s r l hash) (spool_view b) (spool_view (perform (take n as) b))"
proof -
  obtain st c j where g: "spool_view b (s, State_file r) = Some (State_text st)" "bs_phase st = Pending" "bs_leaseId st = Some l"
      "bh_clock h 0 \<le> bs_leaseUntil st" "spool_view b (s, Part_file r) = Some c"
      "be_parse_bytes env (bytes_in (Some c)) = Some j" "sealed_value j"
    and as: "as = write_private (bh_uuid h 0) s (Result_file r) (Bytes (bytes_in (Some c)))
      @ write_private (bh_uuid h 1) s (State_file r) (State_text \<lparr>bs_leaseId = None, bs_leaseUntil = 0, bs_phase = Done\<rparr>)"
    using assms by (auto simp: seal_result_def guard_simps Let_def spool_view_read)
  show ?thesis
    unfolding as
    by (rule effect_among(2) [OF view_private_two]) (simp_all only: permanent.simps half_sealed [OF g] sealed [OF g])
qed

lemma spool_step_effect:
  assumes "spool_step env x b b'" shows "spool_effect env x (spool_view b) (spool_view b')"
proof -
  obtain h c as n where x: "x = (h, c)" and as: "spool_plan env h c b = Inr as" and b': "b' = perform (take n as) b"
    using assms by (auto elim: spool_stepE)
  show ?thesis
  proof (cases c)
    case (Register s)
    then consider "as = [Make_dir s]"
      | "read_file b s Session_file = None" "spool_id s"
        "as = Make_dir s # write_private (bh_uuid h 0) s Session_file (Session_text (bh_token h))"
      using as by (auto simp: register_session_def session_directory_def guard_simps split: option.splits content.splits)
    then show ?thesis
    proof cases
      case 1
      then show ?thesis unfolding b' by (auto simp: take_Suc_if intro: unchanged)
    next
      case 2
      have w: "spool_view b' \<in> {spool_view b, (spool_view b)((s, Session_file) \<mapsto> Session_text (bh_token h))}"
        using view_private [of Session_file "n - 1" "bh_uuid h 0" s "Session_text (bh_token h)" "act b (Make_dir s)"]
        unfolding b' 2(3) by (auto simp: take_Suc_if)
      show ?thesis
        using 2(1,2) unfolding x Register by (intro effect_among(1) [OF w] registered) (simp_all add: spool_view_read)
    qed
  next
    case (Submit s t q)
    then show ?thesis using as submit_effect unfolding x b' by simp
  next
    case (Poll s)
    then show ?thesis using as poll_effect unfolding x b' by (auto simp: guard_simps)
  next
    case (Renew s r l)
    then obtain st where g: "spool_view b (s, State_file r) = Some (State_text st)" "bs_phase st = Pending"
        "bs_leaseId st = Some l" "bh_clock h 0 \<le> bs_leaseUntil st"
      and as: "as = write_private (bh_uuid h 0) s (State_file r) (State_text (st\<lparr>bs_leaseUntil := bh_clock h 1 + lease_ms\<rparr>))"
      using as by (auto simp: renew_def guard_simps)
    show ?thesis unfolding x b' Renew as by (rule effect_among(1) [OF view_private renewed [where v = "spool_view b", OF g]]) simp
  next
    case (Begin_result s r l)
    then show ?thesis
      using as unfolding x b' by (auto simp: begin_result_def guard_simps take_Suc_if intro: unchanged begun)
  next
    case (Append_result s r l off data)
    then show ?thesis
      using as unfolding x b'
      by (auto simp: append_result_def guard_simps take_Suc_if spool_view_read intro!: unchanged appended)
  next
    case (Seal_result s r l hash)
    then show ?thesis using as seal_effect unfolding x b' by simp
  next
    case (Remove s)
    then show ?thesis
      using as unfolding x b'
      by (auto simp: session_directory_def guard_simps take_Suc_if intro: unchanged removed)
  qed
qed

end
