(* ===== verification/Broker_Invariant.thy ===== *)
theory Broker_Invariant
  imports Broker_Effects State_Systems
begin

text \<open>
  The invariant of the model broker's spool, and what a run of calls and interruptions keeps of a
  session's files.
\<close>

section \<open>Well-formed spools\<close>

definition session_ok :: "spool_view \<Rightarrow> string \<Rightarrow> bool" where
  "session_ok v s \<longleftrightarrow> finite (requests_in v s) \<and> card (requests_in v s) \<le> max_requests_per_session
     \<and> (requests_in v s \<noteq> {} \<longrightarrow> (\<exists>t. t \<noteq> [] \<and> v (s, Session_file) = Some (Session_text t)))"

definition request_ok :: "spool_view \<Rightarrow> string \<Rightarrow> string \<Rightarrow> bool" where
  "request_ok v s r \<longleftrightarrow> (\<forall>c. v (s, Request_file r) = Some c \<longrightarrow>
     (\<exists>q. valid_request q \<and> mr_id q = r \<and> c = Text (stringify (request_json q))
        \<and> byte_length (stringify (request_json q)) \<le> max_request_bytes))"

definition state_ok :: "spool_view \<Rightarrow> string \<Rightarrow> string \<Rightarrow> bool" where
  "state_ok v s r \<longleftrightarrow> (\<forall>c. v (s, State_file r) = Some c \<longrightarrow> v (s, Request_file r) \<noteq> None
     \<and> (\<exists>st. c = State_text st \<and> (bs_phase st = Done \<longrightarrow>
          bs_leaseId st = None \<and> bs_leaseUntil st = 0 \<and> v (s, Result_file r) \<noteq> None)))"

definition answer_ok :: "broker_env \<Rightarrow> spool_view \<Rightarrow> string \<Rightarrow> string \<Rightarrow> bool" where
  "answer_ok env v s r \<longleftrightarrow>
     (\<forall>c. v (s, Part_file r) = Some c \<longrightarrow> v (s, State_file r) \<noteq> None
        \<and> (\<exists>xs. c = Bytes xs \<and> length xs \<le> max_result_bytes))
     \<and> (\<forall>c. v (s, Result_file r) = Some c \<longrightarrow> v (s, State_file r) \<noteq> None
        \<and> (\<exists>xs j. c = Bytes xs \<and> length xs \<le> max_result_bytes \<and> be_parse_bytes env xs = Some j \<and> sealed_value j))"

definition spool_inv :: "broker_env \<Rightarrow> spool_view \<Rightarrow> bool" where
  "spool_inv env v \<longleftrightarrow> (\<forall>s. session_ok v s \<and> (\<forall>r. request_ok v s r \<and> state_ok v s r \<and> answer_ok env v s r))"

lemma spool_invI:
  "(\<And>s. session_ok v s) \<Longrightarrow> (\<And>s r. request_ok v s r) \<Longrightarrow> (\<And>s r. state_ok v s r) \<Longrightarrow> (\<And>s r. answer_ok env v s r) \<Longrightarrow> spool_inv env v"
  by (simp add: spool_inv_def)

lemma spool_invD:
  assumes "spool_inv env v"
  shows "session_ok v s" "request_ok v s r" "state_ok v s r" "answer_ok env v s r"
  using assms by (auto simp: spool_inv_def)

lemma spool_inv_empty: "spool_inv env (\<lambda>_. None)"
  by (simp add: spool_inv_def session_ok_def request_ok_def state_ok_def answer_ok_def requests_in_def)

lemma requests_in_upd [simp]:
  "requests_in (v((s, Request_file r) \<mapsto> c)) s' = (if s' = s then insert r (requests_in v s) else requests_in v s')"
  "(\<And>r. f \<noteq> Request_file r) \<Longrightarrow> requests_in (v((s, f) \<mapsto> c)) s' = requests_in v s'"
  "requests_in (\<lambda>(s', f). if s' = s then None else v (s', f)) s'' = (if s'' = s then {} else requests_in v s'')"
  by (auto simp: requests_in_def)

lemma request_new: "v (s, Request_file r) = None \<longleftrightarrow> r \<notin> requests_in v s"
  by (simp add: requests_in_def)

lemma session_ok_effect:
  assumes "spool_effect env x v v'" "session_ok v s" shows "session_ok v' s"
  using assms by (cases rule: spool_effect.cases) (auto simp: session_ok_def request_new)

lemma request_ok_effect:
  assumes "spool_effect env x v v'" "request_ok v s r" shows "request_ok v' s r"
  using assms by (cases rule: spool_effect.cases) (auto simp: request_ok_def)

lemma state_ok_effect:
  assumes "spool_effect env x v v'" "state_ok v s r" shows "state_ok v' s r"
  using assms by (cases rule: spool_effect.cases) (auto simp: state_ok_def)

lemma answer_ok_effect:
  assumes "spool_effect env x v v'" "answer_ok env v s r" shows "answer_ok env v' s r"
  using assms by (cases rule: spool_effect.cases) (auto simp: answer_ok_def max_result_bytes_def)

lemma spool_inv_effect: "spool_effect env x v v' \<Longrightarrow> spool_inv env v \<Longrightarrow> spool_inv env v'"
  using session_ok_effect request_ok_effect state_ok_effect answer_ok_effect by (meson spool_inv_def)

interpretation spool: invariant_system "\<lambda>v v'. \<exists>x. spool_effect env x v v'" "spool_inv env" for env
  by unfold_locales (auto intro: spool_inv_effect)

section \<open>Runs\<close>

lemma spool_run_effects:
  "spool_run env log b b' \<Longrightarrow> (\<lambda>v v'. \<exists>x. spool_effect env x v v')\<^sup>*\<^sup>* (spool_view b) (spool_view b')"
  by (induction rule: spool_run.induct) (auto dest: spool_step_effect intro: converse_rtranclp_into_rtranclp)

lemma spool_run_keeps:
  assumes "spool_run env log b b'" "Remove s \<notin> snd ` set log" "P (spool_view b)"
    and "\<And>x v v'. x \<in> set log \<Longrightarrow> spool_effect env x v v' \<Longrightarrow> snd x \<noteq> Remove s \<Longrightarrow> P v \<Longrightarrow> P v'"
  shows "P (spool_view b')"
  using assms
proof (induction rule: spool_run.induct)
  case (spool_run_Cons env x b b1 xs b2)
  have x: "snd x \<noteq> Remove s" and xs: "Remove s \<notin> snd ` set xs" using spool_run_Cons.prems(1) by auto
  have "P (spool_view b1)"
    by (rule spool_run_Cons.prems(3) [OF _ spool_step_effect [OF spool_run_Cons.hyps(1)] x spool_run_Cons.prems(2)]) simp
  then show ?case
    by (rule spool_run_Cons.IH [OF xs]) (rule spool_run_Cons.prems(3), simp_all)
qed simp

lemma spool_view_Nil [simp]: "spool_view [] = (\<lambda>_. None)"
  by (auto simp: spool_view_def read_file_def dir_of_def fun_eq_iff)

lemma spool_inv_run: "spool_run env log b b' \<Longrightarrow> spool_inv env (spool_view b) \<Longrightarrow> spool_inv env (spool_view b')"
  using spool.run_inv [OF spool_run_effects] .

lemma spool_inv_reachable: "spool_run env log [] b \<Longrightarrow> spool_inv env (spool_view b)"
  by (erule spool_inv_run) (simp add: spool_inv_empty)

lemma spool_run_append: "spool_run env xs b b1 \<Longrightarrow> spool_run env ys b1 b2 \<Longrightarrow> spool_run env (xs @ ys) b b2"
  by (induction rule: spool_run.induct) (auto intro: spool_run.intros)

lemma spool_plan_step: "spool_plan env h c b = Inr as \<Longrightarrow> spool_run env [(h, c)] b (perform (take n as) b)"
  by (rule spool_run_Cons [OF spool_step spool_run_Nil])

lemma spool_plan_run: "spool_plan env h c b = Inr as \<Longrightarrow> spool_run env [(h, c)] b (perform as b)"
  using spool_plan_step [of env h c b as "length as"] by simp

section \<open>What a run keeps of a session\<close>

lemma token_effect:
  assumes "spool_effect env x v v'" "snd x \<noteq> Remove s" "v (s, Session_file) = Some c"
  shows "v' (s, Session_file) = Some c"
  using assms by (cases rule: spool_effect.cases) auto

lemma request_effect:
  assumes "spool_effect env x v v'" "snd x \<noteq> Remove s" "v (s, Request_file r) = Some c"
  shows "v' (s, Request_file r) = Some c"
  using assms by (cases rule: spool_effect.cases) auto

lemma token_kept:
  assumes "spool_run env log b b'" "Remove s \<notin> snd ` set log"
    "spool_view b (s, Session_file) = Some c"
  shows "spool_view b' (s, Session_file) = Some c"
  using assms by (rule spool_run_keeps [where P = "\<lambda>v. v (s, Session_file) = Some c"]) (rule token_effect)

lemma request_kept:
  assumes "spool_run env log b b'" "Remove s \<notin> snd ` set log"
    "spool_view b (s, Request_file r) = Some c"
  shows "spool_view b' (s, Request_file r) = Some c"
  using assms by (rule spool_run_keeps [where P = "\<lambda>v. v (s, Request_file r) = Some c"]) (rule request_effect)

definition answered :: "string \<Rightarrow> string \<Rightarrow> content \<Rightarrow> spool_view \<Rightarrow> bool" where
  "answered s r c v \<longleftrightarrow> v (s, Result_file r) = Some c \<and> v (s, Request_file r) \<noteq> None
     \<and> (\<exists>st. v (s, State_file r) = Some (State_text st) \<and> bs_phase st = Done)"

lemma answered_effect:
  assumes "spool_effect env x v v'" "snd x \<noteq> Remove s" "answered s r c v" shows "answered s r c v'"
  using assms by (cases rule: spool_effect.cases) (auto simp: answered_def)

text \<open>The lease of a pending request is not \<open>l\<close>, or it runs at least until a given time.\<close>

definition not_leased_to :: "string \<Rightarrow> string \<Rightarrow> string \<Rightarrow> spool_view \<Rightarrow> bool" where
  "not_leased_to s r l v \<longleftrightarrow> (\<exists>st. v (s, State_file r) = Some (State_text st) \<and> bs_leaseId st \<noteq> Some l) \<and> v (s, Request_file r) \<noteq> None"

lemma not_leased_effect:
  assumes "spool_effect env x v v'" "snd x \<noteq> Remove s" "bh_uuid (fst x) 0 \<noteq> l" "not_leased_to s r l v"
  shows "not_leased_to s r l v'"
  using assms by (cases rule: spool_effect.cases) (auto simp: not_leased_to_def)

definition leased_until :: "string \<Rightarrow> string \<Rightarrow> int \<Rightarrow> spool_view \<Rightarrow> bool" where
  "leased_until s r u v \<longleftrightarrow> (\<exists>st. v (s, State_file r) = Some (State_text st) \<and> (bs_phase st = Done \<or> u \<le> bs_leaseUntil st))
     \<and> v (s, Request_file r) \<noteq> None"

lemma leased_until_effect:
  assumes "spool_effect env x v v'" "snd x \<noteq> Remove s" "\<And>k. u \<le> bh_clock (fst x) k + lease_ms" "leased_until s r u v"
  shows "leased_until s r u v'"
  using assms by (cases rule: spool_effect.cases) (auto simp: leased_until_def)

text \<open>A request that has a file and no state never gets one.\<close>

definition stateless :: "string \<Rightarrow> string \<Rightarrow> content \<Rightarrow> spool_view \<Rightarrow> bool" where
  "stateless s r c v \<longleftrightarrow> v (s, Request_file r) = Some c \<and> v (s, State_file r) = None"

lemma stateless_effect:
  assumes "spool_effect env x v v'" "snd x \<noteq> Remove s" "stateless s r c v" shows "stateless s r c v'"
  using assms by (cases rule: spool_effect.cases) (auto simp: stateless_def)

end
