(* ===== verification/Broker_Theorems.thy ===== *)
theory Broker_Theorems
  imports Broker_Invariant
begin

text \<open>
  The properties of the model broker: the invariant of its spool, the finality of answers, the exclusion
  of superseded leases, the delivery of an answer to the request it was computed for, and what a
  submission that is stopped half-way leaves behind.
\<close>

section \<open>Reading results and polling\<close>

lemma result_Inr:
  "broker_result env b s t r = Inr j \<longleftrightarrow> spool_id s \<and> spool_id r \<and> t \<noteq> []
     \<and> spool_view b (s, Session_file) = Some (Session_text t)
     \<and> (\<exists>st. spool_view b (s, State_file r) = Some (State_text st)
         \<and> (if bs_phase st = Done then \<exists>xs. spool_view b (s, Result_file r) = Some (Bytes xs) \<and> be_parse_bytes env xs = Some j
            else j = pending_result))"
  by (auto simp: broker_result_def guard_simps spool_view_read split: if_splits option.splits content.splits)

lemma poll_leased:
  assumes "poll env h b s = Inr (Leased j r l, as)"
  shows "\<exists>st k. l = bh_uuid h 0 \<and> spool_id s \<and> spool_id r \<and> spool_view b (s, State_file r) = Some (State_text st)
     \<and> bs_phase st = Pending \<and> bs_leaseUntil st \<le> bh_clock h k
     \<and> (\<forall>t. spool_view b (s, Request_file r) = Some (Text t) \<longrightarrow> be_parse env t = Some j)
     \<and> spool_view (perform as b) = (spool_view b)((s, State_file r) \<mapsto> State_text
         \<lparr>bs_leaseId = Some l, bs_leaseUntil = bh_clock h (Suc k) + lease_ms, bs_phase = Pending\<rparr>)"
proof -
  have "spool_id s" "poll_names env h 0 b s (js_sort cmp_units (request_names b s)) = Inr (Leased j r l, as)"
    using assms by (auto simp: poll_def session_directory_def guard_simps)
  from poll_names_effect [OF this(2)] show ?thesis
  proof (elim disjE exE conjE)
    fix m r' st k
    assume st: "spool_view b (s, State_file r') = Some (State_text st)" "bs_phase st = Pending" "bs_leaseUntil st \<le> bh_clock h k"
      and x: "Leased j r l \<in> {Unreadable} \<union> {Leased j r' (bh_uuid h 0) | j. True}" and ids: "spool_id s" "spool_id r'"
      and t: "\<forall>t. spool_view b (s, Request_file r') = Some (Text t) \<longrightarrow> Leased j r l = (case be_parse env t of
         Some j \<Rightarrow> Leased j r' (bh_uuid h 0) | None \<Rightarrow> Unreadable)"
      and as: "as = write_private (bh_uuid h 1) s (State_file r') (State_text
        \<lparr>bs_leaseId = Some (bh_uuid h 0), bs_leaseUntil = bh_clock h (Suc k) + lease_ms, bs_phase = Pending\<rparr>)"
    have r: "r' = r" "l = bh_uuid h 0" using x by auto
    have "\<forall>t. spool_view b (s, Request_file r) = Some (Text t) \<longrightarrow> be_parse env t = Some j"
      using t unfolding r by (auto split: option.splits)
    then show ?thesis
      using st ids unfolding r as by (intro exI [of _ st] exI [of _ k]) (simp add: view_private_done)
  qed simp
qed

lemma poll_step: "poll env h b s = Inr (x, as) \<Longrightarrow> spool_run env [(h, Poll s)] b (perform as b)"
  by (rule spool_plan_run) simp

text \<open>The calls of the primary that need a lease.\<close>

definition lease_calls :: "string \<Rightarrow> string \<Rightarrow> string \<Rightarrow> int \<Rightarrow> string \<Rightarrow> string \<Rightarrow> spool_call list" where
  "lease_calls s r l off data hash =
     [Renew s r l, Begin_result s r l, Append_result s r l off data, Seal_result s r l hash]"

lemma lease_refused:
  assumes "spool_id s" "spool_id r" "spool_view b (s, State_file r) = Some (State_text st)"
    and "bs_leaseId st \<noteq> Some l" "c \<in> set (lease_calls s r l off data hash)"
  shows "spool_plan env h c b = Inl Lease_expired"
proof -
  have "read_state b s r = Inr st" using assms(1-3) by (simp add: read_state_Inr)
  then have "require_lease h b s r l = Inl Lease_expired" using assms(4) by (simp add: require_lease_def ensure_def)
  then show ?thesis
    using assms(5) by (auto simp: lease_calls_def renew_def begin_result_def append_result_def seal_result_def)
qed

section \<open>The upload of an answer\<close>

lemma spool_execs_append: "spool_execs env (xs @ ys) b = rbind (spool_execs env xs b) (spool_execs env ys)"
  by (induction xs arbitrary: b) (auto simp: rbind_def split: sum.splits)

definition holds_lease :: "broker \<Rightarrow> string \<Rightarrow> string \<Rightarrow> string \<Rightarrow> int \<Rightarrow> bool" where
  "holds_lease b s r l u \<longleftrightarrow> spool_id s \<and> spool_id r \<and> l \<noteq> [] \<and> (\<exists>st. spool_view b (s, State_file r) = Some (State_text st)
     \<and> bs_phase st = Pending \<and> bs_leaseId st = Some l \<and> u \<le> bs_leaseUntil st)"

lemma holds_lease_require: "holds_lease b s r l u \<Longrightarrow> bh_clock h 0 \<le> u \<Longrightarrow> \<exists>st. require_lease h b s r l = Inr st"
  by (auto simp: holds_lease_def require_lease_Inr)

lemma holds_lease_view:
  "holds_lease b s r l u \<Longrightarrow> spool_view b' = (spool_view b)((s, Part_file r) \<mapsto> c) \<Longrightarrow> holds_lease b' s r l u"
  by (auto simp: holds_lease_def)

lemma begin_exec:
  assumes "holds_lease b s r l u" "bh_clock h 0 \<le> u"
  shows "\<exists>b'. spool_exec env h (Begin_result s r l) b = Inr b' \<and> spool_view b' = (spool_view b)((s, Part_file r) \<mapsto> Bytes [])"
  using holds_lease_require [OF assms] by (auto simp: spool_exec_def begin_result_def)

lemma append_exec:
  assumes "holds_lease b s r l u" "bh_clock h 0 \<le> u" "spool_view b (s, Part_file r) = Some (Bytes ys)"
    and "length xs \<le> chunk_bytes" "length ys + length xs \<le> max_result_bytes"
  shows "\<exists>b'. spool_exec env h (Append_result s r l (int (length ys)) (base64 xs)) b = Inr b'
    \<and> spool_view b' = (spool_view b)((s, Part_file r) \<mapsto> Bytes (ys @ xs))"
proof -
  have "length (base64 xs) \<le> 4 * ((196608 + 2) div 3)"
    using length_base64 [of xs] assms(4) by (intro order_trans [OF length_base64] mult_le_mono2 div_le_mono) (simp add: chunk_bytes_def)
  then have "length (base64 xs) \<le> 262144" by simp
  then show ?thesis
    using holds_lease_require [OF assms(1,2)] assms(3-5)
    by (auto simp: spool_exec_def append_result_def unbase64_base64 spool_view_read chunk_bytes_def max_result_bytes_def)
qed

lemma upload_chunks_exec:
  assumes "holds_lease b s r l u" "spool_view b (s, Part_file r) = Some (Bytes (take off xs))" "length xs \<le> max_result_bytes"
    and "length hs = length (upload_chunks s r l off xs)" "\<And>h. h \<in> set hs \<Longrightarrow> bh_clock h 0 \<le> u"
  shows "\<exists>b'. spool_execs env (zip hs (upload_chunks s r l off xs)) b = Inr b'
    \<and> spool_view b' = (spool_view b)((s, Part_file r) \<mapsto> Bytes xs)"
  using assms
proof (induction s r l off xs arbitrary: b hs rule: upload_chunks.induct)
  case (1 s r l off xs)
  show ?case
  proof (cases "off < length xs")
    case False
    then show ?thesis using 1(3) by (auto simp: upload_chunks.simps [of s r l off xs])
  next
    case True
    let ?x = "take chunk_bytes (drop off xs)"
    obtain h hs' where hs: "hs = h # hs'" "length hs' = length (upload_chunks s r l (off + chunk_bytes) xs)"
      using 1(5) True by (cases hs) (auto simp: upload_chunks.simps [of s r l off xs])
    have h: "bh_clock h 0 \<le> u" and hs': "\<And>h. h \<in> set hs' \<Longrightarrow> bh_clock h 0 \<le> u" using 1(6) hs by auto
    have "length (take off xs) = off" "length (take off xs) + length ?x \<le> max_result_bytes" using True 1(4) by auto
    then obtain b1 where b1: "spool_exec env h (Append_result s r l (int off) (base64 ?x)) b = Inr b1"
        "spool_view b1 = (spool_view b)((s, Part_file r) \<mapsto> Bytes (take (off + chunk_bytes) xs))"
      using append_exec [OF 1(2) h 1(3), of ?x env] by (auto simp: take_add)
    have part: "spool_view b1 (s, Part_file r) = Some (Bytes (take (off + chunk_bytes) xs))" using b1(2) by simp
    obtain b2 where "spool_execs env (zip hs' (upload_chunks s r l (off + chunk_bytes) xs)) b1 = Inr b2"
        "spool_view b2 = (spool_view b1)((s, Part_file r) \<mapsto> Bytes xs)"
      using 1(1) [OF True holds_lease_view [OF 1(2) b1(2)] part 1(4) hs(2) hs'] by blast
    moreover from this(2) have "spool_view b2 = (spool_view b)((s, Part_file r) \<mapsto> Bytes xs)"
      by (simp only: b1(2) fun_upd_upd)
    moreover have "spool_execs env (zip hs (upload_chunks s r l off xs)) b
        = spool_execs env (zip hs' (upload_chunks s r l (off + chunk_bytes) xs)) b1"
      using True hs b1(1) by (simp add: upload_chunks.simps [of s r l off xs])
    ultimately show ?thesis by metis
  qed
qed

lemma seal_exec:
  assumes "holds_lease b s r l u" "bh_clock h 0 \<le> u" "spool_view b (s, Part_file r) = Some (Bytes xs)"
    and "be_parse_bytes env xs = Some v" "sealed_value v"
  shows "\<exists>b'. spool_exec env h (Seal_result s r l (be_sha256 env xs)) b = Inr b'
    \<and> spool_view b' = (spool_view b)((s, Result_file r) \<mapsto> Bytes xs,
      (s, State_file r) \<mapsto> State_text \<lparr>bs_leaseId = None, bs_leaseUntil = 0, bs_phase = Done\<rparr>)"
  using holds_lease_require [OF assms(1,2)] assms(3-5)
  by (auto simp: spool_exec_def seal_result_def spool_view_read perform_append view_private_done Let_def)

lemma upload_exec:
  assumes "holds_lease b s r l u" "length xs \<le> max_result_bytes" "be_parse_bytes env xs = Some v" "sealed_value v"
    and "length hs = length (upload_calls env s r l xs)" "\<And>h. h \<in> set hs \<Longrightarrow> bh_clock h 0 \<le> u"
  shows "\<exists>b'. spool_execs env (zip hs (upload_calls env s r l xs)) b = Inr b'
    \<and> spool_view b' = (spool_view b)((s, Part_file r) \<mapsto> Bytes xs, (s, Result_file r) \<mapsto> Bytes xs,
      (s, State_file r) \<mapsto> State_text \<lparr>bs_leaseId = None, bs_leaseUntil = 0, bs_phase = Done\<rparr>)"
proof -
  let ?cs = "upload_chunks s r l 0 xs"
  obtain h0 hs' h2 where hs: "hs = h0 # hs' @ [h2]" "length hs' = length ?cs"
    using assms(5) unfolding upload_calls_def by (cases hs; cases "tl hs" rule: rev_cases) auto
  have h: "bh_clock h0 0 \<le> u" "bh_clock h2 0 \<le> u" "\<And>h. h \<in> set hs' \<Longrightarrow> bh_clock h 0 \<le> u" using assms(6) hs by auto
  obtain b1 where b1: "spool_exec env h0 (Begin_result s r l) b = Inr b1" "spool_view b1 = (spool_view b)((s, Part_file r) \<mapsto> Bytes [])"
    using begin_exec [OF assms(1) h(1)] by blast
  note l1 = holds_lease_view [OF assms(1) b1(2)]
  obtain b2 where b2: "spool_execs env (zip hs' ?cs) b1 = Inr b2" "spool_view b2 = (spool_view b1)((s, Part_file r) \<mapsto> Bytes xs)"
    using upload_chunks_exec [OF l1 _ assms(2) hs(2) h(3)] b1(2) by auto
  obtain b3 where b3: "spool_exec env h2 (Seal_result s r l (be_sha256 env xs)) b2 = Inr b3"
      "spool_view b3 = (spool_view b2)((s, Result_file r) \<mapsto> Bytes xs,
        (s, State_file r) \<mapsto> State_text \<lparr>bs_leaseId = None, bs_leaseUntil = 0, bs_phase = Done\<rparr>)"
    using seal_exec [OF holds_lease_view [OF l1 b2(2)] h(2) _ assms(3,4)] b2(2) by auto
  have "zip hs (upload_calls env s r l xs) = (h0, Begin_result s r l) # zip hs' ?cs @ [(h2, Seal_result s r l (be_sha256 env xs))]"
    using hs by (simp add: upload_calls_def)
  then show ?thesis using b1 b2 b3 by (simp add: spool_execs_append)
qed

section \<open>A concrete spool\<close>

definition ex_env :: broker_env where
  "ex_env = \<lparr>be_parse = (\<lambda>t. Some (request_json \<lparr>mr_id = ''q1'', mr_provider = ''xai'', mr_model = ''m'', mr_context = JObj [],
       mr_options = JObj [], mr_flags = None\<rparr>)),
     be_parse_bytes = (\<lambda>xs. Some (JObj [(''state'', JStr ''done'')])), be_sha256 = (\<lambda>xs. ''00'')\<rparr>"

definition ex_query :: model_request where
  "ex_query = \<lparr>mr_id = ''q1'', mr_provider = ''xai'', mr_model = ''m'', mr_context = JObj [], mr_options = JObj [], mr_flags = None\<rparr>"

definition ex_call :: "int \<Rightarrow> string \<Rightarrow> broker_host" where
  "ex_call now u = \<lparr>bh_clock = (\<lambda>k. now), bh_uuid = (\<lambda>k. u), bh_token = ''secret''\<rparr>"

definition ex_text :: string where
  "ex_text = stringify (request_json ex_query)"

definition ex_spool :: "broker_state option \<Rightarrow> (spool_file \<times> content) list \<Rightarrow> broker" where
  "ex_spool st rest = [(''run'', (Session_file, Session_text ''secret'') # (Request_file ''q1'', Text ex_text)
     # (case st of None \<Rightarrow> [] | Some x \<Rightarrow> [(State_file ''q1'', State_text x)]) @ rest)]"

definition ex_state :: "string option \<Rightarrow> int \<Rightarrow> request_phase \<Rightarrow> broker_state" where
  "ex_state l u p = \<lparr>bs_leaseId = l, bs_leaseUntil = u, bs_phase = p\<rparr>"

lemmas ex_defs = ex_env_def ex_query_def ex_call_def ex_text_def ex_spool_def ex_state_def

lemma ex_registered:
  "spool_plan ex_env (ex_call 0 ''a'') (Register ''run'') [] = Inr (Make_dir ''run'' # write_private ''a'' ''run'' Session_file (Session_text ''secret''))"
  "perform (Make_dir ''run'' # write_private ''a'' ''run'' Session_file (Session_text ''secret'')) []
     = [(''run'', [(Session_file, Session_text ''secret'')])]"
  by code_simp+

lemma ex_text: "ex_text = stringify (request_json ex_query)" "byte_length ex_text = 73" "spool_id ''run''" "valid_request ex_query"
    "request_names [(''run'', [(Session_file, Session_text ''secret'')])] ''run'' = []"
  by code_simp+

lemma ex_submit:
  "submit (ex_call 0 ''b'') [(''run'', [(Session_file, Session_text ''secret'')])] ''run'' ''secret'' ex_query
     = Inr (Write_file ''run'' (Request_file ''q1'') (Text ex_text)
         # write_private ''b'' ''run'' (State_file ''q1'') (State_text (ex_state None 0 Pending)))"
  using ex_text(2-5) unfolding ex_text(1) [symmetric]
  by (simp add: submit_def authorize_def broker_token_def session_directory_def session_token_def request_path_def
      read_file_def dir_of_def Let_def max_request_bytes_def max_requests_per_session_def valid_request_def
      ex_query_def ex_call_def ex_state_def ex_text_def)

lemma ex_submitted:
  "perform (Write_file ''run'' (Request_file ''q1'') (Text ex_text)
         # write_private ''b'' ''run'' (State_file ''q1'') (State_text (ex_state None 0 Pending))) [(''run'', [(Session_file, Session_text ''secret'')])]
     = ex_spool (Some (ex_state None 0 Pending)) []"
  "perform (take 1 (Write_file ''run'' (Request_file ''q1'') (Text ex_text)
         # write_private ''b'' ''run'' (State_file ''q1'') (State_text (ex_state None 0 Pending)))) [(''run'', [(Session_file, Session_text ''secret'')])]
     = ex_spool None []"
  by (simp_all add: act.simps change_dir_def dir_of_def read_file_def write_private_def ex_spool_def)

lemma ex_poll:
  "poll ex_env (ex_call 1000 ''lease'') (ex_spool (Some (ex_state None 0 Pending)) []) ''run''
     = Inr (Leased (request_json ex_query) ''q1'' ''lease'',
         write_private ''lease'' ''run'' (State_file ''q1'') (State_text (ex_state (Some ''lease'') 31000 Pending)))"
  "perform (write_private ''lease'' ''run'' (State_file ''q1'') (State_text (ex_state (Some ''lease'') 31000 Pending)))
     (ex_spool (Some (ex_state None 0 Pending)) []) = ex_spool (Some (ex_state (Some ''lease'') 31000 Pending)) []"
  by code_simp+

definition ex_log :: "(broker_host \<times> spool_call) list" where
  "ex_log = [(ex_call 0 ''a'', Register ''run''), (ex_call 0 ''b'', Submit ''run'' ''secret'' ex_query)]"

lemma ex_run_registered:
  "spool_run ex_env [(ex_call 0 ''a'', Register ''run'')] [] [(''run'', [(Session_file, Session_text ''secret'')])]"
  using spool_plan_run [OF ex_registered(1)] unfolding ex_registered(2) .

lemma ex_run_submitted: "spool_run ex_env ex_log [] (ex_spool (Some (ex_state None 0 Pending)) [])"
proof -
  note ex_run_registered
  moreover have "spool_run ex_env [(ex_call 0 ''b'', Submit ''run'' ''secret'' ex_query)]
      [(''run'', [(Session_file, Session_text ''secret'')])] (ex_spool (Some (ex_state None 0 Pending)) [])"
    unfolding ex_submitted(1) [symmetric] by (intro spool_plan_run) (simp add: ex_submit)
  ultimately show ?thesis using spool_run_append unfolding ex_log_def by fastforce
qed

definition ex_answered :: broker where
  "ex_answered = perform (write_private ''d'' ''run'' (Result_file ''q1'') (Bytes [])
       @ write_private ''d'' ''run'' (State_file ''q1'') (State_text (ex_state None 0 Done)))
     (ex_spool (Some (ex_state (Some ''lease'') 31000 Pending)) [(Part_file ''q1'', Bytes [])])"

lemma ex_steps:
  "spool_plan ex_env (ex_call 2000 ''c'') (Begin_result ''run'' ''q1'' ''lease'') (ex_spool (Some (ex_state (Some ''lease'') 31000 Pending)) [])
     = Inr [Write_file ''run'' (Part_file ''q1'') (Bytes [])]"
  "perform [Write_file ''run'' (Part_file ''q1'') (Bytes [])] (ex_spool (Some (ex_state (Some ''lease'') 31000 Pending)) [])
     = ex_spool (Some (ex_state (Some ''lease'') 31000 Pending)) [(Part_file ''q1'', Bytes [])]"
  "spool_plan ex_env (ex_call 4000 ''d'') (Seal_result ''run'' ''q1'' ''lease'' ''00'')
       (ex_spool (Some (ex_state (Some ''lease'') 31000 Pending)) [(Part_file ''q1'', Bytes [])])
     = Inr (write_private ''d'' ''run'' (Result_file ''q1'') (Bytes [])
       @ write_private ''d'' ''run'' (State_file ''q1'') (State_text (ex_state None 0 Done)))"
  "broker_result ex_env ex_answered ''run'' ''secret'' ''q1'' = Inr (JObj [(''state'', JStr ''done'')])"
  by code_simp+

lemma ex_run_answered:
  "\<exists>log. spool_run ex_env log [] ex_answered"
  using spool_run_append [OF ex_run_submitted spool_run_append [OF poll_step [OF ex_poll(1), unfolded ex_poll(2)]
    spool_run_append [OF spool_plan_run [OF ex_steps(1), unfolded ex_steps(2)] spool_plan_run [OF ex_steps(3), folded ex_answered_def]]]]
  by blast

section \<open>Properties\<close>

text \<open>
  C35. In every state of the spool that calls, and processes stopped anywhere between two file operations,
  can produce: every request file holds a valid request under its own identifier and within the size
  limit, no session holds more than 5000 and only registered sessions hold any, a state file belongs to a
  request, a part belongs to a state and stays within the limit, every sealed answer parses to an object
  that says \<open>done\<close> or \<open>error\<close>, and a request that is done has an answer and no lease.
\<close>
theorem broker_invariant:
  assumes "spool_run env log [] b" shows "spool_inv env (spool_view b)"
  by (rule spool_inv_reachable [OF assms])

theorem broker_invariant_witness: "spool_inv ex_env (spool_view (ex_spool (Some (ex_state None 0 Pending)) []))"
  by (rule broker_invariant [OF ex_run_submitted])

text \<open>
  C36. An answer is final: once the worker has read a result that is not pending, every later read returns
  the same result, whatever calls and interruptions follow (removing the session apart), every call that
  needs a lease on the request is refused, and the request is not handed out again.
\<close>
theorem result_final:
  assumes run: "spool_run env log0 [] b" "broker_result env b s t r = Inr j" "j \<noteq> pending_result"
    and later: "spool_run env log b b'" "Remove s \<notin> snd ` set log"
    and c: "c \<in> set (lease_calls s r l off data hash)"
  shows "broker_result env b' s t r = Inr j \<and> spool_plan env h c b' = Inl Lease_expired
    \<and> poll env h b' s \<noteq> Inr (Leased j' r l', as)"
proof (intro conjI)
  obtain xs where ids: "spool_id s" "spool_id r" "t \<noteq> []" and tok: "spool_view b (s, Session_file) = Some (Session_text t)"
    and xs: "be_parse_bytes env xs = Some j" and "answered s r (Bytes xs) (spool_view b)"
    using run(2,3) spool_invD(3) [OF spool_inv_reachable [OF run(1)], of s r]
    by (auto simp: result_Inr answered_def state_ok_def split: if_splits)
  then have "answered s r (Bytes xs) (spool_view b')"
    using later by (intro spool_run_keeps [OF later, where P = "answered s r (Bytes xs)"]) (auto intro: answered_effect)
  then obtain st where st: "spool_view b' (s, State_file r) = Some (State_text st)" "bs_phase st = Done"
      "spool_view b' (s, Result_file r) = Some (Bytes xs)"
    by (auto simp: answered_def)
  have inv: "spool_inv env (spool_view b')"
    by (rule spool_inv_run [OF later(1) spool_inv_reachable [OF run(1)]])
  show "broker_result env b' s t r = Inr j"
    using ids xs st token_kept [OF later tok] by (simp add: result_Inr)
  show "spool_plan env h c b' = Inl Lease_expired"
    using st spool_invD(3) [OF inv, of s r] by (intro lease_refused [OF ids(1,2) st(1) _ c]) (simp add: state_ok_def)
  show "poll env h b' s \<noteq> Inr (Leased j' r l', as)"
    using poll_leased [of env h b' s j' r l' as] st by auto
qed

theorem result_final_witness:
  "spool_plan ex_env (ex_call 5000 ''f'') (Seal_result ''run'' ''q1'' ''lease'' ''00'') ex_answered = Inl Lease_expired"
proof -
  obtain log where "spool_run ex_env log [] ex_answered" using ex_run_answered by blast
  then show ?thesis
    by (rule result_final [where l = "''lease''" and off = 0 and data = "[]" and hash = "''00''", OF _ ex_steps(4) _ spool_run_Nil, THEN conjunct2, THEN conjunct1])
      (simp_all add: pending_result_def lease_calls_def)
qed

text \<open>
  C37. A superseded lease is worthless: once a request has been handed out, every call of the primary with
  another lease on it is refused from then on, whatever happens in between, unless the identifier of the
  old lease is drawn again or the session removed.
\<close>
theorem superseded_lease_refused:
  assumes run: "spool_run env log0 [] b" "poll env h b s = Inr (Leased j r l, as)"
    and later: "spool_run env log (perform as b) b'" "Remove s \<notin> snd ` set log"
    and old: "l' \<noteq> l" "l' \<notin> (\<lambda>x. bh_uuid (fst x) 0) ` set log" "c \<in> set (lease_calls s r l' off data hash)"
  shows "spool_plan env h' c b' = Inl Lease_expired"
proof -
  obtain k where ids: "spool_id s" "spool_id r" and req: "spool_view b (s, Request_file r) \<noteq> None"
    and v: "spool_view (perform as b) = (spool_view b)((s, State_file r) \<mapsto> State_text
         \<lparr>bs_leaseId = Some l, bs_leaseUntil = bh_clock h (Suc k) + lease_ms, bs_phase = Pending\<rparr>)"
    using poll_leased [OF run(2)] spool_invD(3) [OF spool_inv_reachable [OF run(1)], of s r] unfolding state_ok_def by blast
  have "not_leased_to s r l' (spool_view (perform as b))"
    using old(1) req v by (simp add: not_leased_to_def)
  then have "not_leased_to s r l' (spool_view b')"
    using old(2) by (intro spool_run_keeps [OF later, where P = "not_leased_to s r l'"]) (auto intro: not_leased_effect)
  then show ?thesis
    using lease_refused [OF ids _ _ old(3)] by (auto simp: not_leased_to_def)
qed

theorem superseded_lease_refused_witness:
  "spool_plan ex_env (ex_call 2000 ''c'') (Renew ''run'' ''q1'' ''old'') (ex_spool (Some (ex_state (Some ''lease'') 31000 Pending)) [])
     = Inl Lease_expired"
  by (rule superseded_lease_refused [OF ex_run_submitted ex_poll(1), unfolded ex_poll(2), OF spool_run_Nil])
    (auto simp: lease_calls_def)

text \<open>
  C38. A running lease is exclusive: after a poll at time \<open>t0\<close> or later has handed out a
  request, no poll before \<open>t0\<close> plus 30 seconds hands it out again, whatever calls and
  interruptions happen in between.
\<close>
theorem lease_exclusive:
  assumes run: "spool_run env log0 [] b" "poll env h b s = Inr (Leased j r l, as)"
    and later: "spool_run env log (perform as b) b'" "Remove s \<notin> snd ` set log"
    and time: "\<And>k. t0 \<le> bh_clock h k" "\<And>x k. x \<in> set log \<Longrightarrow> t0 \<le> bh_clock (fst x) k" "\<And>k. bh_clock h' k < t0 + lease_ms"
  shows "poll env h' b' s \<noteq> Inr (Leased j' r l', as')"
proof -
  obtain k where req: "spool_view b (s, Request_file r) \<noteq> None"
    and v: "spool_view (perform as b) = (spool_view b)((s, State_file r) \<mapsto> State_text
         \<lparr>bs_leaseId = Some l, bs_leaseUntil = bh_clock h (Suc k) + lease_ms, bs_phase = Pending\<rparr>)"
    using poll_leased [OF run(2)] spool_invD(3) [OF spool_inv_reachable [OF run(1)], of s r] unfolding state_ok_def by blast
  have "leased_until s r (t0 + lease_ms) (spool_view (perform as b))"
    using time(1) [of "Suc k"] req v by (simp add: leased_until_def)
  then have "leased_until s r (t0 + lease_ms) (spool_view b')"
    using time(2) by (intro spool_run_keeps [OF later, where P = "leased_until s r (t0 + lease_ms)"]) (auto intro: leased_until_effect)
  then obtain st where "spool_view b' (s, State_file r) = Some (State_text st)"
      "bs_phase st = Done \<or> t0 + lease_ms \<le> bs_leaseUntil st"
    unfolding leased_until_def by blast
  moreover have "\<not> bs_leaseUntil st \<le> bh_clock h' k" if "t0 + lease_ms \<le> bs_leaseUntil st" for k
    using time(3) [of k] that by linarith
  ultimately show ?thesis
    using poll_leased [of env h' b' s j' r l' as'] by auto
qed

theorem lease_exclusive_witness:
  "poll ex_env (ex_call 30999 ''c'') (ex_spool (Some (ex_state (Some ''lease'') 31000 Pending)) []) ''run''
     \<noteq> Inr (Leased (request_json ex_query) ''q1'' ''c'', [])"
  by (rule lease_exclusive [OF ex_run_submitted ex_poll(1), unfolded ex_poll(2), OF spool_run_Nil, where ?t0.0 = 1000])
    (simp_all add: ex_call_def lease_ms_def)

section \<open>Delivery\<close>

lemma submitted_request:
  assumes "submit h b s t q = Inr as"
  shows "spool_view (perform as b) (s, Request_file (mr_id q)) = Some (Text (stringify (request_json q)))"
    "spool_view (perform as b) (s, Session_file) = Some (Session_text t)" "t \<noteq> []" "spool_id s" "spool_id (mr_id q)"
  using assms by (auto simp: submit_Inr view_private_done valid_request_def)

text \<open>
  C39. The answer reaches the request it was computed for: after a submission has returned, a poll that
  hands out its identifier hands out the submitted request, and the upload of an answer (begin, chunks of
  192 KiB in base64, seal) succeeds while the lease lasts and makes the worker read exactly the answer that
  was uploaded.
\<close>
theorem answer_delivered:
  assumes start: "spool_run env log0 [] b0" "submit h b0 s t q = Inr as0"
    and parse: "be_parse env (stringify (request_json q)) = Some (request_json q)"
    and later: "spool_run env log (perform as0 b0) b" "Remove s \<notin> snd ` set log"
    and poll: "poll env hp b s = Inr (Leased j (mr_id q) l, as)" "l \<noteq> []" "\<And>k. t0 \<le> bh_clock hp k"
    and answer: "length xs \<le> max_result_bytes" "be_parse_bytes env xs = Some v" "sealed_value v"
    and hosts: "length hs = length (upload_calls env s (mr_id q) l xs)" "\<And>h k. h \<in> set hs \<Longrightarrow> bh_clock h k \<le> t0 + lease_ms"
  shows "j = request_json q \<and>
    (\<exists>b'. spool_execs env (zip hs (upload_calls env s (mr_id q) l xs)) (perform as b) = Inr b'
       \<and> broker_result env b' s t (mr_id q) = Inr v)"
proof (intro conjI)
  note sub = submitted_request [OF start(2)]
  have req: "spool_view b (s, Request_file (mr_id q)) = Some (Text (stringify (request_json q)))"
    and tok: "spool_view b (s, Session_file) = Some (Session_text t)"
    by (rule request_kept [OF later sub(1)], rule token_kept [OF later sub(2)])
  obtain k where j: "be_parse env (stringify (request_json q)) = Some j"
    and v: "spool_view (perform as b) = (spool_view b)((s, State_file (mr_id q)) \<mapsto> State_text
         \<lparr>bs_leaseId = Some l, bs_leaseUntil = bh_clock hp (Suc k) + lease_ms, bs_phase = Pending\<rparr>)"
    using poll_leased [OF poll(1)] req by blast
  then show "j = request_json q" using parse by simp
  have "holds_lease (perform as b) s (mr_id q) l (t0 + lease_ms)"
    using sub(4,5) poll(2) poll(3) [of "Suc k"] v by (simp add: holds_lease_def)
  from upload_exec [OF this answer hosts(1)] hosts(2) obtain b' where
    b': "spool_execs env (zip hs (upload_calls env s (mr_id q) l xs)) (perform as b) = Inr b'"
      "spool_view b' = (spool_view (perform as b))((s, Part_file (mr_id q)) \<mapsto> Bytes xs, (s, Result_file (mr_id q)) \<mapsto> Bytes xs,
        (s, State_file (mr_id q)) \<mapsto> State_text \<lparr>bs_leaseId = None, bs_leaseUntil = 0, bs_phase = Done\<rparr>)"
    by blast
  have "broker_result env b' s t (mr_id q) = Inr v"
    using sub(3-5) tok answer(2) unfolding result_Inr b'(2) v by simp
  with b'(1) show "\<exists>b'. spool_execs env (zip hs (upload_calls env s (mr_id q) l xs)) (perform as b) = Inr b'
       \<and> broker_result env b' s t (mr_id q) = Inr v" by blast
qed

theorem answer_delivered_witness:
  "\<exists>b'. spool_execs ex_env (zip [ex_call 2000 ''c'', ex_call 3000 ''d'', ex_call 4000 ''e''] (upload_calls ex_env ''run'' ''q1'' ''lease'' [123]))
     (ex_spool (Some (ex_state (Some ''lease'') 31000 Pending)) []) = Inr b'
     \<and> broker_result ex_env b' ''run'' ''secret'' ''q1'' = Inr (JObj [(''state'', JStr ''done'')])"
proof -
  have id: "mr_id ex_query = ''q1''" by (simp add: ex_query_def)
  have calls: "length (upload_calls env ''run'' ''q1'' ''lease'' [123]) = 3" for env
    by (simp add: upload_calls_def upload_chunks.simps chunk_bytes_def)
  have parse: "be_parse ex_env (stringify (request_json ex_query)) = Some (request_json ex_query)"
    by (simp add: ex_env_def ex_query_def)
  note start = conjunct2 [OF answer_delivered [where ?t0.0 = 1000, OF ex_run_registered ex_submit parse], unfolded ex_submitted(1) id, OF spool_run_Nil _ ex_poll(1),
      unfolded ex_poll(2)]
  show ?thesis
    by (rule start)
      (auto simp: calls ex_env_def ex_call_def lease_ms_def max_result_bytes_def sealed_value_def)
qed

section \<open>A submission that is stopped half-way\<close>

lemma poll_names_blocked:
  assumes "poll_names env h k b s ns = Inr (x, as)" "n0 \<in> set ns" "sorted_wrt (\<lambda>m n. cmp_units m n \<le> 0) ns"
    and "\<And>st. read_state b s (request_of_name n0) \<noteq> Inr st"
  shows "x \<noteq> No_request \<and> (\<forall>j r l. x = Leased j r l \<longrightarrow> (\<exists>n\<in>set ns. r = request_of_name n \<and> cmp_units n n0 < 0))"
  using assms
proof (induction env h k b s ns rule: poll_names.induct)
  case (2 env h k b s n ns)
  obtain st where st: "read_state b s (request_of_name n) = Inr st"
    using 2(3) by (auto simp: Let_def guard_simps)
  then have n0: "n0 \<in> set ns" "n \<noteq> n0" using 2(4,6) by auto
  then have less: "cmp_units n n0 < 0" using 2(5) by (auto simp: cmp_units_def split: if_splits)
  consider (over) "bs_phase st = Done" "poll_names env h k b s ns = Inr (x, as)"
    | (held) "bs_phase st = Pending" "bh_clock h k < bs_leaseUntil st" "poll_names env h (Suc k) b s ns = Inr (x, as)"
    | (free) "bs_phase st = Pending" "bs_leaseUntil st \<le> bh_clock h k"
    using 2(3) st by (cases "bs_phase st") (auto simp: Let_def split: if_splits)
  then show ?case
  proof cases
    case over
    then show ?thesis using 2(1) [OF refl over(1) over(2) n0(1) _ 2(6)] 2(5) by auto
  next
    case held
    then show ?thesis using 2(2) [OF refl _ held(2,3) n0(1) _ 2(6)] 2(5) by auto
  next
    case free
    then show ?thesis using 2(3) st less by (auto simp: Let_def split: option.splits content.splits)
  qed
qed simp

lemma poll_blocked:
  assumes "stateless s r c (spool_view b)" "poll env h b s = Inr (x, as)"
  shows "x \<noteq> No_request \<and> (\<forall>j r' l. x = Leased j r' l \<longrightarrow> cmp_units (r' @ request_suffix) (r @ request_suffix) < 0)"
proof -
  let ?ns = "js_sort cmp_units (request_names b s)"
  have names: "poll_names env h 0 b s ?ns = Inr (x, as)" using assms(2) by (auto simp: poll_def session_directory_def guard_simps)
  have n0: "r @ request_suffix \<in> set ?ns"
    using assms(1) by (simp add: set_request_names stateless_def requests_in_def)
  have "read_state b s (request_of_name (r @ request_suffix)) \<noteq> Inr st" for st
    using assms(1) request_name_of [of r] by (simp add: read_state_Inr stateless_def)
  from poll_names_blocked [OF names n0 units.sorted_js_sort this]
  have "x \<noteq> No_request" and "\<forall>j r' l. x = Leased j r' l \<longrightarrow> (\<exists>n\<in>set ?ns. r' = request_of_name n \<and> cmp_units n (r @ request_suffix) < 0)"
    by blast+
  moreover have "request_of_name n @ request_suffix = n" if "n \<in> set ?ns" for n
    using that by (auto simp: set_request_names request_of_name_def)
  ultimately show ?thesis by metis
qed

text \<open>
  C40. A submission whose process stops after the request file is written and before its state file is
  never answered: as long as the session lives, submitting it again reports success and does nothing,
  reading its result fails, and every poll either fails or hands out a request with a smaller name, so
  requests with larger names are not handed out either.
\<close>
theorem half_submission_blocks:
  assumes start: "spool_run env log0 [] b" "submit h b s t q = Inr as" "as \<noteq> []"
    and later: "spool_run env log (perform (take 1 as) b) b'" "Remove s \<notin> snd ` set log"
  shows "submit h' b' s t q = Inr [] \<and> broker_result env b' s t (mr_id q) = Inl Unknown_request
    \<and> poll env h' b' s \<noteq> Inr (No_request, as')
    \<and> (poll env h' b' s = Inr (Leased j r l, as') \<longrightarrow> cmp_units (r @ request_suffix) (mr_id q @ request_suffix) < 0)"
proof (intro conjI impI)
  let ?r = "mr_id q" and ?c = "Text (stringify (request_json q))"
  have g: "spool_id s" "t \<noteq> []" "spool_view b (s, Session_file) = Some (Session_text t)" "valid_request q"
      "byte_length (stringify (request_json q)) \<le> max_request_bytes" and new: "spool_view b (s, Request_file ?r) = None"
    and half: "spool_view (perform (take 1 as) b) = (spool_view b)((s, Request_file ?r) \<mapsto> ?c)"
    using start(2,3) unfolding submit_Inr by (auto simp: take_Suc_if)
  have "spool_view b (s, State_file ?r) = None"
    using new spool_invD(3) [OF spool_inv_reachable [OF start(1)], of s ?r] by (auto simp: state_ok_def)
  then have "stateless s ?r ?c (spool_view (perform (take 1 as) b))" unfolding stateless_def half by simp
  then have st: "stateless s ?r ?c (spool_view b')"
    by (intro spool_run_keeps [OF later, where P = "stateless s ?r ?c"]) (auto intro: stateless_effect)
  have tok: "spool_view b' (s, Session_file) = Some (Session_text t)"
    by (rule token_kept [OF later]) (unfold half, simp add: g(3))
  show "submit h' b' s t q = Inr []"
    using g tok st unfolding submit_Inr by (simp add: stateless_def)
  have "spool_id ?r" using g(4) by (simp add: valid_request_def)
  then have "read_state b' s ?r = Inl Unknown_request"
    using g(1) st by (simp add: read_state_def request_path_def session_directory_def stateless_def spool_view_read)
  moreover have "authorize b' s t = Inr ()" using g tok by (simp add: authorize_Inr)
  ultimately show "broker_result env b' s t ?r = Inl Unknown_request" by (simp add: broker_result_def)
  show "poll env h' b' s \<noteq> Inr (No_request, as')" using poll_blocked [OF st] by blast
  show "cmp_units (r @ request_suffix) (?r @ request_suffix) < 0" if "poll env h' b' s = Inr (Leased j r l, as')"
    using that poll_blocked [OF st] by blast
qed

theorem half_submission_blocks_witness:
  "submit (ex_call 9 ''z'') (ex_spool None []) ''run'' ''secret'' ex_query = Inr []"
  by (rule half_submission_blocks [OF ex_run_registered ex_submit, unfolded ex_submitted(2), OF _ spool_run_Nil, THEN conjunct1]) simp_all

end
