(* ===== verification/Spec2Isabelle.thy ===== *)
theory Spec2Isabelle
  imports Goal_Properties Focus_Properties Track_Rotation Claim_Refresh Funnel_Theorems Control_Theorems Broker_Theorems
begin

text \<open>
  A model of the state machines that steer autonomous research sessions in this repository,
  translated from the TypeScript sources under \<open>src/\<close>, with the theorems that make them
  correct.

  \<^bold>\<open>Parts and theories.\<close>  A research session works towards a goal, calls tools, and
  records its result; a workspace-wide track schedules such sessions over the components of a
  target.

  \<^item> \<open>Beale_Prelude\<close>: what the code uses of the JavaScript language and its library
    (trimming, case folding, stable sorting by a comparator, insertion-ordered maps and sets), the
    result type of functions that throw, and the lemmas the components share.
    \<open>Json_Value\<close>: unchecked JSON values, printing and ISO time stamps.
    \<open>Steering\<close>: the bounded queue of user steering that two classes keep.
  \<^item> \<open>Disposition\<close>: \<open>packages/research-agent/src/session-disposition-tool.ts\<close>, the parser
    of final dispositions (flat and nested format) and the recorder a session writes to.
  \<^item> \<open>Goal_Runtime\<close>: \<open>packages/research-agent/src/goal-runtime.ts\<close>, the life of one
    goal: steering, the completion audit, terminal transitions, the blocker audit, prompts, and the
    persisted state with its parser.  \<open>Goal_Properties\<close> proves the invariant of a goal
    together with its recorder, when a goal completes, and what survives a restart.
  \<^item> \<open>Focus_Tools\<close>, \<open>Focus_Guard\<close>, \<open>Focus_State\<close>:
    \<open>packages/research-agent/src/research-focus-guard.ts\<close>, the class that limits repeated
    reads per progress epoch, holds tools back at checkpoints, steers unproductive turns, and
    renders what survives a compaction or a restart.  \<open>Focus_Properties\<close> holds its theorems.
  \<^item> \<open>Track_Model\<close>, \<open>Track_Evidence\<close>, \<open>Track_Store\<close>, \<open>Track_Schedule\<close>,
    \<open>Track_Checkpoint\<close>: \<open>packages/research-agent/src/research-track.ts\<close>, the durable
    queue of components.  The two SQL tables are lists of rows of one workspace; every method is a
    function on them, with the clock, \<open>localeCompare\<close> and the tables of evidence as
    arguments.  \<open>Track_Properties\<close> proves the invariant of every sequence of operations,
    \<open>Track_Theorems\<close> the properties of scheduling and checkpoints, and
    \<open>Track_Rotation\<close>, over the history of the epochs handed out, the rotation between resources.

  \<^item> Claim ledger, \<open>packages/research-agent/src/findings.ts\<close> and
    \<open>knowledge-types.ts\<close>.  \<open>Claim_Model\<close> has the rows (claims, log, evidence,
    components of chains) and the legal moves, \<open>Claim_Tracking\<close> the security tracking and its
    reader, \<open>Claim_Reader\<close> what a reader of a claim sees, \<open>Claim_Store\<close> creation
    and transitions with the evidence gate, \<open>Claim_Links\<close> duplicates and chains,
    \<open>Claim_Revise\<close> revisions, \<open>Claim_Staleness\<close> the two staleness routines,
    \<open>Claim_Checklist\<close> the completion checklist.  \<open>Claim_Invariant\<close>,
    \<open>Claim_Steps\<close> and \<open>Claim_Preserve\<close> state the invariant and show that every
    operation keeps it, \<open>Claim_System\<close> closes it under all operations,
    \<open>Claim_Ledger\<close>, \<open>Claim_Gate\<close>, \<open>Claim_Contracts\<close> and
    \<open>Claim_Agreement\<close> hold the facts about single operations, and \<open>Claim_Theorems\<close>
    and \<open>Claim_Refresh\<close> the properties.
  \<^item> Track worker queue, \<open>packages/research-agent/src/track-funnel.ts\<close>, which hands claims of
    the ledger to the workers of an epoch: \<open>Track_Funnel\<close> is the model,
    \<open>Funnel_Selection\<close> and \<open>Funnel_Run\<close> its selection and its steps interleaved with
    those of the ledger, \<open>Funnel_Theorems\<close> the properties.
  \<^item> Control stream, \<open>packages/app-server-runtime/src/control-stream.ts\<close>, through which the
    app-server steers a running session: \<open>Control_Message\<close> parses lines,
    \<open>Control_Stream\<close> is the state machine with its callers and outputs,
    \<open>Control_Invariant\<close> and \<open>Control_Properties\<close> its invariant,
    \<open>Control_Log\<close> what its outputs say about accepted requests, steering and lines, and
    \<open>Control_Theorems\<close> its properties.
  \<^item> Model broker, \<open>app-server/src/fleetModelBrokerQueue.ts\<close>, the spool of a guest without
    provider credentials: \<open>Broker_Files\<close> has the files, the file operations and base64,
    \<open>Broker_Queue\<close> every method as a list of file operations, the calls that stop between two
    of them, and the upload loop of \<open>answerBrokerRequest\<close> in \<open>fleetRemote.ts\<close>.
    \<open>Broker_Effects\<close> shows that every call, stopped or not, has one of a few effects on the
    permanent files, \<open>Broker_Invariant\<close> the invariant over these effects, and
    \<open>Broker_Theorems\<close> the properties.

  \<^bold>\<open>How they interact.\<close>  The goal reads the dispositions the recorder holds.  The worker
  queue reads claims, log and components of the ledger, and its runs interleave with those of the ledger
  (\<open>queue_step\<close>).  The track reads rows of evidence that other stores write; they are arguments
  of its operations.  The upload of an answer is a sequence of calls of the model broker.

  \<^bold>\<open>Conventions.\<close>  A class is a record and a method a function on it; a JavaScript map is an
  association list in insertion order; a thrown error is a constructor of an error datatype
  (\<open>Inl\<close>), and fixed prompt texts are constructors or string constants.  JavaScript numbers
  that count are \<open>nat\<close> or \<open>int\<close>; none of the modelled code comes near \<open>2 ^ 53\<close>,
  and the checks against it are kept.  Bytes are \<open>8 word\<close>.  SHA-256, \<open>JSON.parse\<close>,
  \<open>randomUUID\<close>, the clock and \<open>localeCompare\<close> are arguments; where the order matters
  the latter is assumed to be a consistent comparator (\<open>comparator\<close>).  Loops that follow parent
  links terminate because they visit an id at most once (\<open>scope_walk\<close>, \<open>root_walk\<close>),
  the closure of chain components because it only adds ids of the table, the upload loop because its
  offset grows; no fuel is used.

  \<^bold>\<open>Interfaces.\<close>  \<open>comparator\<close> is what sorting needs of a comparison,
  \<open>steering_limits\<close> what the steering queue needs of its normalisation,
  \<open>disposition_source\<close> what the goal needs of the recorder, \<open>invariant_system\<close> (in
  \<open>State_Systems\<close>) what a component that changes by steps promises, and its extension
  \<open>growing_records\<close> what the worker queue needs of a ledger that only adds claims.  Each is
  interpreted on the definitions of the component that provides it; \<open>invariant_system\<close> on the
  steps of the ledger, of the worker queue and of the model broker.

  \<^bold>\<open>Not modelled.\<close>  SQL schema creation and column migrations, storage errors of SQLite,
  concurrent processes on one database (a transaction of a store is one step), torn writes of a single
  file, the wording of error messages and of most prompts, the model providers and their SDKs, and the
  user interfaces.  The large files that remain, such as \<open>workspaceDatabase.ts\<close>,
  \<open>hostService.ts\<close>, \<open>sessionRuntime.ts\<close> and \<open>agent-executor.ts\<close>, mostly
  translate between SQL, HTTP, processes and these stores.
\<close>

end
